(* ===== verification/Gcm_Prelude.thy ===== *)
theory Gcm_Prelude
  imports Main "HOL-Library.Word"
begin

text \<open>
  Shared vocabulary of the development: the machine integer types of the C++ sources, the ways a
  C++ function can fail to return, the standard containers the sources use
  (\<open>std::unordered_map\<close>), and the two kinds of clamped counters that the statistics classes
  are built from, each with a locale that states its contract.

  Signed C++ integers are represented by words of their width and read with \<open>sint\<close>; a
  conversion between \<open>uint64_t\<close> and \<open>int64_t\<close> is therefore the identity on words, and mixed
  signed/unsigned arithmetic is word arithmetic, as the usual arithmetic conversions prescribe.
\<close>

unbundle bit_operations_syntax

section \<open>Machine integers and results\<close>

type_synonym u8 = "8 word"
type_synonym u16 = "16 word"
type_synonym u32 = "32 word"
type_synonym u64 = "64 word"
type_synonym i32 = "32 word"
type_synonym i64 = "64 word"

text \<open>
  Why a call of the modelled code does not return a value: \<open>std::exit(EXIT_FAILURE)\<close>, a step
  whose behaviour C++ leaves undefined (a null dereference, \<open>front()\<close> of an empty queue, a
  floating point value converted to an integer type that cannot hold it), a loop or a wait that
  nothing ends, and an exception that no handler catches.
\<close>

datatype gcm_error =
    Exit_Failure
  | Undefined_Behaviour
  | Never_Returns
  | Uncaught_Exception

type_synonym 'a result = "gcm_error + 'a"

definition bind_r :: "'a result \<Rightarrow> ('a \<Rightarrow> 'b result) \<Rightarrow> 'b result" where
  "bind_r r f = (case r of Inl e \<Rightarrow> Inl e | Inr x \<Rightarrow> f x)"

section \<open>The standard containers\<close>

text \<open>
  A \<open>std::unordered_map\<close> is the list of its entries in iteration order (the standard leaves the
  order open; no theorem depends on it). Keys are compared through \<open>kf\<close>, the part of the key
  that \<open>operator==\<close> looks at.
\<close>

definition um_find :: "('k \<Rightarrow> 'h) \<Rightarrow> ('k \<times> 'v) list \<Rightarrow> 'k \<Rightarrow> 'v option" where
  "um_find kf m k = map_of (map (\<lambda>e. (kf (fst e), snd e)) m) (kf k)"

text \<open>\<open>insert\<close> and \<open>emplace\<close> leave an existing entry alone.\<close>

definition um_insert :: "('k \<Rightarrow> 'h) \<Rightarrow> 'k \<Rightarrow> 'v \<Rightarrow> ('k \<times> 'v) list \<Rightarrow> ('k \<times> 'v) list" where
  "um_insert kf k v m = (case um_find kf m k of Some w \<Rightarrow> m | None \<Rightarrow> m @ [(k, v)])"

definition um_erase :: "('k \<Rightarrow> 'h) \<Rightarrow> 'k \<Rightarrow> ('k \<times> 'v) list \<Rightarrow> ('k \<times> 'v) list" where
  "um_erase kf k m = filter (\<lambda>e. kf (fst e) \<noteq> kf k) m"

text \<open>Writing through an iterator: \<open>itr->second = v\<close>.\<close>

definition um_set :: "('k \<Rightarrow> 'h) \<Rightarrow> 'k \<Rightarrow> 'v \<Rightarrow> ('k \<times> 'v) list \<Rightarrow> ('k \<times> 'v) list" where
  "um_set kf k v m = map (\<lambda>e. if kf (fst e) = kf k then (fst e, v) else e) m"

text \<open>\<open>operator[]\<close> inserts a value-initialised entry where the key is missing.\<close>

definition um_index :: "('k \<Rightarrow> 'h) \<Rightarrow> 'k \<Rightarrow> 'v \<Rightarrow> ('k \<times> 'v) list \<Rightarrow> 'v \<times> ('k \<times> 'v) list" where
  "um_index kf k d m = (case um_find kf m k of Some w \<Rightarrow> (w, m) | None \<Rightarrow> (d, m @ [(k, d)]))"

definition um_wf :: "('k \<Rightarrow> 'h) \<Rightarrow> ('k \<times> 'v) list \<Rightarrow> bool" where
  "um_wf kf m = distinct (map (\<lambda>e. kf (fst e)) m)"

section \<open>Generic lemmas\<close>

named_theorems um_simps \<open>lookups in, and well-formedness of, updated maps\<close>
named_theorems stat_simps \<open>unfolding of the accessors of the statistics classes\<close>
named_theorems api_defs \<open>the forwarding operations of the controller classes\<close>
named_theorems state_defs \<open>definitions of operations that only update record fields\<close>

lemma bind_r_simps [simp]:
  "bind_r (Inl e) f = Inl e"
  "bind_r (Inr x) f = f x"
  by (simp_all add: bind_r_def)

lemma bind_r_eq_Inr: "bind_r r f = Inr y \<longleftrightarrow> (\<exists>x. r = Inr x \<and> f x = Inr y)"
  by (cases r) auto

lemma bind_r_split: "P (bind_r r f) \<longleftrightarrow> (\<forall>e. r = Inl e \<longrightarrow> P (Inl e)) \<and> (\<forall>x. r = Inr x \<longrightarrow> P (f x))"
  by (cases r) auto

lemma map_of_kf_append:
  "map_of (map (\<lambda>e. (kf (fst e), snd e)) (m @ [(k, v)])) h =
     (case map_of (map (\<lambda>e. (kf (fst e), snd e)) m) h of
        Some w \<Rightarrow> Some w | None \<Rightarrow> (if h = kf k then Some v else None))"
  by (auto simp: map_add_def split: option.splits)

lemma um_find_insert [um_simps]:
  "um_find kf (um_insert kf k v m) k' =
     (if kf k = kf k' then (case um_find kf m k of None \<Rightarrow> Some v | Some w \<Rightarrow> Some w)
      else um_find kf m k')"
  by (auto simp: um_insert_def um_find_def map_add_def split: option.splits)

lemma um_find_erase [um_simps]:
  "um_find kf (um_erase kf k m) k' = (if kf k = kf k' then None else um_find kf m k')"
  unfolding um_find_def um_erase_def by (induction m) auto

lemma um_find_set [um_simps]:
  "um_find kf (um_set kf k v m) k' =
     (if kf k = kf k' then (case um_find kf m k of None \<Rightarrow> None | Some w \<Rightarrow> Some v)
      else um_find kf m k')"
  unfolding um_find_def um_set_def by (induction m) (auto split: option.splits)

lemma um_find_index [um_simps]:
  "um_find kf (snd (um_index kf k d m)) k' =
     (if kf k = kf k' then (case um_find kf m k of None \<Rightarrow> Some d | Some w \<Rightarrow> Some w)
      else um_find kf m k')"
  by (auto simp: um_index_def um_find_def map_add_def split: option.splits)

lemma fst_um_index: "fst (um_index kf k d m) = (case um_find kf m k of Some w \<Rightarrow> w | None \<Rightarrow> d)"
  by (simp add: um_index_def split: option.splits)

lemma um_find_cong: "kf a = kf b \<Longrightarrow> um_find kf m a = um_find kf m b"
  by (simp add: um_find_def)

lemma um_find_None_iff: "um_find kf m k = None \<longleftrightarrow> kf k \<notin> (\<lambda>e. kf (fst e)) ` set m"
  unfolding um_find_def map_of_eq_None_iff by (auto simp: image_image)

lemma um_wf_Nil [um_simps]: "um_wf kf []"
  by (simp add: um_wf_def)

lemma um_wf_append: "um_wf kf m \<Longrightarrow> um_find kf m k = None \<Longrightarrow> um_wf kf (m @ [(k, v)])"
  by (auto simp: um_wf_def um_find_None_iff)

lemma um_wf_insert [um_simps]: "um_wf kf m \<Longrightarrow> um_wf kf (um_insert kf k v m)"
  by (auto simp: um_insert_def um_wf_append split: option.splits)

lemma um_wf_index [um_simps]: "um_wf kf m \<Longrightarrow> um_wf kf (snd (um_index kf k d m))"
  by (auto simp: um_index_def um_wf_append split: option.splits)

lemma um_wf_erase [um_simps]: "um_wf kf m \<Longrightarrow> um_wf kf (um_erase kf k m)"
  unfolding um_wf_def um_erase_def by (induction m) auto

lemma um_wf_set [um_simps]: "um_wf kf (um_set kf k v m) = um_wf kf m"
proof -
  have "map (\<lambda>e. kf (fst e)) (um_set kf k v m) = map (\<lambda>e. kf (fst e)) m"
    by (auto simp: um_set_def)
  then show ?thesis by (simp add: um_wf_def)
qed

lemma length_um_erase:
  "um_wf kf m \<Longrightarrow> um_find kf m k \<noteq> None \<Longrightarrow> Suc (length (um_erase kf k m)) = length m"
proof (induction m)
  case Nil
  then show ?case by (simp add: um_find_def)
next
  case (Cons e m)
  show ?case
  proof (cases "kf (fst e) = kf k")
    case True
    with Cons.prems(1) have "kf k \<notin> (\<lambda>e. kf (fst e)) ` set m"
      by (auto simp: um_wf_def)
    then have "um_erase kf k m = m"
      by (force simp: um_erase_def filter_id_conv)
    with True show ?thesis by (simp add: um_erase_def)
  next
    case False
    with Cons.prems have "um_wf kf m" "um_find kf m k \<noteq> None"
      by (auto simp: um_wf_def um_find_def)
    with Cons.IH False show ?thesis by (simp add: um_erase_def)
  qed
qed

lemma um_find_in_set: "um_find kf m k = Some v \<Longrightarrow> \<exists>a. (a, v) \<in> set m \<and> kf a = kf k"
  unfolding um_find_def by (force dest!: map_of_SomeD)

lemma um_find_of_member: "um_wf kf m \<Longrightarrow> (a, v) \<in> set m \<Longrightarrow> kf a = kf k \<Longrightarrow> um_find kf m k = Some v"
proof (induction m)
  case (Cons e m)
  show ?case
  proof (cases "kf (fst e) = kf k")
    case True
    with Cons.prems have "e = (a, v)"
      by (cases e) (force simp: um_wf_def)
    with True show ?thesis by (simp add: um_find_def)
  next
    case False
    with Cons show ?thesis by (auto simp: um_find_def um_wf_def)
  qed
qed (simp add: um_find_def)

subsection \<open>Words as numbers\<close>

lemma uint_less_half:
  assumes "unat (a :: u64) < 2 ^ 63"
  shows "uint a < 2 ^ 63"
proof -
  have "int (unat a) < int (2 ^ 63)"
    using assms by (simp only: of_nat_less_iff)
  then show ?thesis by simp
qed

lemma unat_less_half_sint:
  assumes "unat (a :: u64) < 2 ^ 63"
  shows "sint a = int (unat a)"
proof -
  have "signed_take_bit 63 (uint a) = uint a"
    by (rule signed_take_bit_int_eq_self; use uint_less_half [OF assms] uint_ge_0 [of a] in linarith)
  then show ?thesis by (simp add: sint_uint)
qed

lemma unat_plus_no_overflow:
  "unat (a :: u64) + unat b < 2 ^ 64 \<Longrightarrow> unat (a + b) = unat a + unat b"
  by (simp add: unat_word_ariths)

lemma unat_of_nat_u64: "n < 2 ^ 64 \<Longrightarrow> unat (of_nat n :: u64) = n"
  by (simp add: unsigned_of_nat take_bit_nat_eq_self)

lemma unat_u64_less: "unat (a :: u64) < 2 ^ 64"
  using unsigned_less [of a, where 'a = nat] by simp

lemma unat_minus_no_borrow: "unat (b :: u64) \<le> unat a \<Longrightarrow> unat (a - b) = unat a - unat b"
  by (simp add: unat_sub word_le_nat_alt)

text \<open>The test \<open>(int64_t) a - (int64_t) b < 0\<close> decides \<open>a < b\<close> on the lower half of the range.\<close>

lemma sint_minus_neg_iff:
  assumes "unat (a :: u64) < 2 ^ 63" and "unat (b :: u64) < 2 ^ 63"
  shows "sint (a - b) < 0 \<longleftrightarrow> unat a < unat b"
proof -
  note ab = uint_less_half [OF assms(1)] uint_less_half [OF assms(2)] uint_ge_0 [of a] uint_ge_0 [of b]
  have "sint (a - b) = signed_take_bit 63 (sint a - sint b)"
    by (simp add: sint_word_ariths)
  also have "\<dots> = signed_take_bit 63 (uint a - uint b)"
    using assms by (simp add: unat_less_half_sint)
  also have "\<dots> = uint a - uint b"
    by (rule signed_take_bit_int_eq_self; use ab in linarith)
  finally show ?thesis by (simp add: word_less_def [symmetric] word_less_nat_alt [symmetric])
qed

section \<open>Interfaces\<close>

text \<open>A store in which the first value written under a key stays until the key is erased.\<close>

locale first_wins_store =
  fixes find :: "'m \<Rightarrow> 'k \<Rightarrow> 'v option"
    and insert_new :: "'k \<Rightarrow> 'v \<Rightarrow> 'm \<Rightarrow> 'm"
    and erase :: "'k \<Rightarrow> 'm \<Rightarrow> 'm"
    and same :: "'k \<Rightarrow> 'k \<Rightarrow> bool"
    and invar :: "'m \<Rightarrow> bool"
  assumes find_insert_new: "find (insert_new k v m) k' =
      (if same k k' then (case find m k of None \<Rightarrow> Some v | Some w \<Rightarrow> Some w) else find m k')"
    and find_erase: "find (erase k m) k' = (if same k k' then None else find m k')"
    and same_refl: "same k k"
    and invar_insert_new: "invar m \<Longrightarrow> invar (insert_new k v m)"
    and invar_erase: "invar m \<Longrightarrow> invar (erase k m)"
begin

lemma insert_keeps_first: "find m k = Some w \<Longrightarrow> find (insert_new k v m) k = Some w"
  by (simp add: find_insert_new same_refl)

lemma insert_fresh: "find m k = None \<Longrightarrow> find (insert_new k v m) k = Some v"
  by (simp add: find_insert_new same_refl)

lemma erase_then_missing: "find (erase k m) k = None"
  by (simp add: find_erase same_refl)

lemma replace_by_erase: "find (insert_new k v (erase k m)) k = Some v"
  by (simp add: find_insert_new find_erase same_refl)

lemma insert_other: "\<not> same k k' \<Longrightarrow> find (insert_new k v m) k' = find m k'"
  by (simp add: find_insert_new)

lemma erase_other: "\<not> same k k' \<Longrightarrow> find (erase k m) k' = find m k'"
  by (simp add: find_erase)

end

text \<open>Every \<open>std::unordered_map\<close> of the sources is such a store, whatever its key projection.\<close>

interpretation um: first_wins_store "um_find kf" "um_insert kf" "um_erase kf" "\<lambda>a b. kf a = kf b" "um_wf kf"
  for kf
  by unfold_locales (auto simp: um_simps)

text \<open>
  A 64-bit counter whose decrement tests the sign of the two's complement difference and clamps at
  zero. On the lower half of the range it is exact saturating arithmetic on natural numbers.
\<close>

locale signed_clamp_counter =
  fixes get :: "'s \<Rightarrow> u64"
    and incr :: "u64 \<Rightarrow> 's \<Rightarrow> 's"
    and decr :: "u64 \<Rightarrow> 's \<Rightarrow> 's"
  assumes get_incr: "get (incr n s) = get s + n"
    and get_decr: "get (decr n s) = (if sint (get s - n) < 0 then 0 else get s - n)"
begin

lemma unat_incr: "unat (get s) + unat n < 2 ^ 64 \<Longrightarrow> unat (get (incr n s)) = unat (get s) + unat n"
  by (simp only: get_incr unat_plus_no_overflow)

lemma unat_decr:
  assumes "unat (get s) < 2 ^ 63" and "unat n < 2 ^ 63"
  shows "unat (get (decr n s)) = unat (get s) - unat n"
proof (cases "unat (get s) < unat n")
  case True
  with assms show ?thesis by (simp add: get_decr sint_minus_neg_iff)
next
  case False
  with assms show ?thesis by (simp add: get_decr sint_minus_neg_iff unat_minus_no_borrow)
qed

lemma decr_incr:
  assumes "unat (get s) + unat n < 2 ^ 63"
  shows "get (decr n (incr n s)) = get s"
proof -
  have "sint (get s) = int (unat (get s))"
    using assms by (intro unat_less_half_sint) simp
  then show ?thesis by (simp add: get_decr get_incr)
qed

end

text \<open>A counter whose decrement compares unsigned and clamps at zero: exact on the whole range.\<close>

locale unsigned_clamp_counter =
  fixes get :: "'s \<Rightarrow> u64"
    and incr :: "u64 \<Rightarrow> 's \<Rightarrow> 's"
    and decr :: "u64 \<Rightarrow> 's \<Rightarrow> 's"
  assumes get_incr: "get (incr n s) = get s + n"
    and get_decr: "get (decr n s) = (if get s < n then 0 else get s - n)"
begin

lemma unat_decr: "unat (get (decr n s)) = unat (get s) - unat n"
  by (auto simp: get_decr word_less_nat_alt unat_minus_no_borrow)

lemma unat_incr: "unat (get s) + unat n < 2 ^ 64 \<Longrightarrow> unat (get (incr n s)) = unat (get s) + unat n"
  by (simp only: get_incr unat_plus_no_overflow)

lemma decr_incr: "unat (get s) + unat n < 2 ^ 64 \<Longrightarrow> get (decr n (incr n s)) = get s"
  by (metis add_diff_cancel_right' unat_decr unat_incr word_unat_eq_iff)

end

end
