(* ===== verification/Binary64.thy ===== *)
theory Binary64
  imports Complex_Main Gcm_Prelude
begin

text \<open>
  The C++ type \<open>double\<close> as IEEE 754 binary64 with rounding to nearest, ties to even: a finite
  double is the rational number it stands for, and every operation rounds the exact rational
  result. Infinities and NaN are values of their own, because the sources divide by quantities
  that can be zero. The sign of a zero is not kept: in the sources every divisor comes from an
  unsigned integer, so a zero divisor is always \<open>+0\<close>.

  Main results: rounding is monotone (\<open>rnd_mono\<close>), leaves every number with a 53-bit
  significand alone (\<open>rnd_significand\<close>), and so converts integers up to \<open>2^53\<close> exactly
  (\<open>d_of_u64_exact\<close>).
\<close>

section \<open>Rounding\<close>

text \<open>The exponent of the leading binary digit of a positive rational number.\<close>

fun nbits :: "int \<Rightarrow> int" where
  "nbits n = (if n \<le> 0 then 0 else 1 + nbits (n div 2))"

declare nbits.simps [simp del]

definition ilog2 :: "rat \<Rightarrow> int" where
  "ilog2 x = (if 1 \<le> x then nbits \<lfloor>x\<rfloor> - 1 else - nbits (\<lceil>1 / x\<rceil> - 1))"

definition round_even :: "rat \<Rightarrow> int" where
  "round_even x =
     (let f = \<lfloor>x\<rfloor>; d = x - of_int f in
      if d < 1 / 2 then f else if 1 / 2 < d then f + 1 else if even f then f else f + 1)"

definition ulp_exp :: "rat \<Rightarrow> int" where
  "ulp_exp x = max (ilog2 x - 52) (- 1074)"

definition rnd :: "rat \<Rightarrow> rat" where
  "rnd x = (if x = 0 then 0
            else of_int (round_even (x / 2 powi ulp_exp \<bar>x\<bar>)) * 2 powi ulp_exp \<bar>x\<bar>)"

section \<open>Values and operations\<close>

datatype double = Fin rat | PInf | NInf | NaN

definition to_double :: "rat \<Rightarrow> double" where
  "to_double x = (let r = rnd x in
     if 2 ^ 1024 \<le> r then PInf else if r \<le> - (2 ^ 1024) then NInf else Fin r)"

definition d_signed_inf :: "rat \<Rightarrow> double" where
  "d_signed_inf s = (if 0 < s then PInf else if s < 0 then NInf else NaN)"

fun d_add :: "double \<Rightarrow> double \<Rightarrow> double" where
  "d_add (Fin a) (Fin b) = to_double (a + b)"
| "d_add NaN _ = NaN"
| "d_add _ NaN = NaN"
| "d_add PInf NInf = NaN"
| "d_add NInf PInf = NaN"
| "d_add PInf _ = PInf"
| "d_add NInf _ = NInf"
| "d_add _ b = b"

fun d_neg :: "double \<Rightarrow> double" where
  "d_neg (Fin a) = Fin (- a)"
| "d_neg PInf = NInf"
| "d_neg NInf = PInf"
| "d_neg NaN = NaN"

definition d_sub :: "double \<Rightarrow> double \<Rightarrow> double" where
  "d_sub a b = d_add a (d_neg b)"

fun d_mul :: "double \<Rightarrow> double \<Rightarrow> double" where
  "d_mul (Fin a) (Fin b) = to_double (a * b)"
| "d_mul NaN _ = NaN"
| "d_mul _ NaN = NaN"
| "d_mul PInf (Fin b) = d_signed_inf b"
| "d_mul (Fin a) PInf = d_signed_inf a"
| "d_mul NInf (Fin b) = d_signed_inf (- b)"
| "d_mul (Fin a) NInf = d_signed_inf (- a)"
| "d_mul PInf PInf = PInf"
| "d_mul PInf NInf = NInf"
| "d_mul NInf PInf = NInf"
| "d_mul NInf NInf = PInf"

fun d_div :: "double \<Rightarrow> double \<Rightarrow> double" where
  "d_div (Fin a) (Fin b) = (if b = 0 then d_signed_inf a else to_double (a / b))"
| "d_div NaN _ = NaN"
| "d_div _ NaN = NaN"
| "d_div PInf (Fin b) = (if b < 0 then NInf else PInf)"
| "d_div NInf (Fin b) = (if b < 0 then PInf else NInf)"
| "d_div (Fin a) PInf = Fin 0"
| "d_div (Fin a) NInf = Fin 0"
| "d_div _ _ = NaN"

fun d_less :: "double \<Rightarrow> double \<Rightarrow> bool" where
  "d_less (Fin a) (Fin b) = (a < b)"
| "d_less NaN _ = False"
| "d_less _ NaN = False"
| "d_less PInf _ = False"
| "d_less _ NInf = False"
| "d_less NInf _ = True"
| "d_less _ PInf = True"

fun d_leq :: "double \<Rightarrow> double \<Rightarrow> bool" where
  "d_leq (Fin a) (Fin b) = (a \<le> b)"
| "d_leq NaN _ = False"
| "d_leq _ NaN = False"
| "d_leq NInf _ = True"
| "d_leq _ PInf = True"
| "d_leq PInf _ = False"
| "d_leq _ NInf = False"

text \<open>Conversions from unsigned integers round; literals are the nearest double.\<close>

definition rat_of_word :: "'a::len word \<Rightarrow> rat" where
  "rat_of_word w = of_int (uint w)"

definition d_of_u64 :: "u64 \<Rightarrow> double" where
  "d_of_u64 w = to_double (rat_of_word w)"

definition d_of_u32 :: "u32 \<Rightarrow> double" where
  "d_of_u32 w = to_double (rat_of_word w)"

definition d_of_i64 :: "i64 \<Rightarrow> double" where
  "d_of_i64 w = to_double (of_int (sint w))"

text \<open>
  The conversion to \<open>uint64_t\<close> truncates towards zero; it is undefined where the truncated
  value is out of range.
\<close>

definition trunc_rat :: "rat \<Rightarrow> int" where
  "trunc_rat x = (if 0 \<le> x then \<lfloor>x\<rfloor> else \<lceil>x\<rceil>)"

fun d_to_u64 :: "double \<Rightarrow> u64 result" where
  "d_to_u64 (Fin x) =
     (if 0 \<le> trunc_rat x \<and> trunc_rat x < 2 ^ 64 then Inr (of_int (trunc_rat x))
      else Inl Undefined_Behaviour)"
| "d_to_u64 _ = Inl Undefined_Behaviour"

section \<open>Rounding is monotone and exact on 53-bit significands\<close>

lemma nbits_bounds: "0 < n \<Longrightarrow> 0 < nbits n \<and> 2 ^ nat (nbits n - 1) \<le> n \<and> n < 2 ^ nat (nbits n)"
proof (induction n rule: nbits.induct)
  case (1 n)
  show ?case
  proof (cases "n = 1")
    case True
    then show ?thesis by (simp add: nbits.simps)
  next
    case False
    with "1.prems" have "0 < n div 2" "\<not> n \<le> 0" by auto
    with "1.IH" have IH: "0 < nbits (n div 2)" "2 ^ nat (nbits (n div 2) - 1) \<le> n div 2"
      "n div 2 < 2 ^ nat (nbits (n div 2))" by auto
    obtain k where k: "nbits (n div 2) = 1 + int k"
      using IH(1) by (metis zero_less_imp_eq_int Suc_pred' of_nat_Suc add.commute)
    have "nbits n = int (Suc (Suc k))" using \<open>\<not> n \<le> 0\<close> k by (simp add: nbits.simps [of n])
    moreover have "2 * 2 ^ k \<le> n" "n < 2 * (2 * 2 ^ k)"
      using IH(2,3) unfolding k by (simp_all add: nat_add_distrib)
    ultimately show ?thesis by (simp add: nat_add_distrib)
  qed
qed

lemma nbits_powi:
  assumes "0 < n"
  shows "2 powi (nbits n - 1) \<le> (of_int n :: rat)" and "of_int n + 1 \<le> (2 :: rat) powi nbits n"
proof -
  note b = nbits_bounds [OF assms]
  have "of_int (2 ^ nat (nbits n - 1)) \<le> (of_int n :: rat)"
    and "of_int (n + 1) \<le> (of_int (2 ^ nat (nbits n)) :: rat)"
    using b by (simp_all only: of_int_le_iff) simp_all
  then show "2 powi (nbits n - 1) \<le> (of_int n :: rat)" and "of_int n + 1 \<le> (2 :: rat) powi nbits n"
    using b by (simp_all add: power_int_def)
qed

lemma ilog2_bounds:
  assumes "0 < x"
  shows "2 powi (ilog2 x) \<le> x" and "x < 2 powi (ilog2 x + 1)"
proof -
  have "2 powi (ilog2 x) \<le> x \<and> x < 2 powi (ilog2 x + 1)"
  proof (cases "1 \<le> x")
    case True
    then have "0 < \<lfloor>x\<rfloor>" by simp
    from nbits_powi [OF this] have "2 powi (nbits \<lfloor>x\<rfloor> - 1) \<le> x" "x < 2 powi nbits \<lfloor>x\<rfloor>"
      by linarith+
    with True show ?thesis by (simp add: ilog2_def)
  next
    case False
    define y where "y = 1 / x"
    define m where "m = \<lceil>y\<rceil> - 1"
    have "1 < y" using False assms by (simp add: y_def)
    then have "0 < m" unfolding m_def by linarith
    have "of_int m < y" "y \<le> of_int m + 1" unfolding m_def by linarith+
    with nbits_powi [OF \<open>0 < m\<close>] have y: "2 powi (nbits m - 1) < y" "y \<le> 2 powi nbits m"
      by linarith+
    have x: "x = inverse y" using assms by (simp add: y_def)
    have "inverse (2 powi nbits m) \<le> x" "x < inverse (2 powi (nbits m - 1))"
      unfolding x using y \<open>1 < y\<close> by (simp_all add: le_imp_inverse_le less_imp_inverse_less)
    moreover have "ilog2 x = - nbits m" "ilog2 x + 1 = - (nbits m - 1)"
      using False by (simp_all add: ilog2_def m_def y_def)
    ultimately show ?thesis by (simp only: power_int_minus)
  qed
  then show "2 powi (ilog2 x) \<le> x" and "x < 2 powi (ilog2 x + 1)" by auto
qed

lemma two_powi_less_iff: "(2 :: rat) powi a < 2 powi b \<longleftrightarrow> a < b"
  by (metis linorder_less_linear not_less_iff_gr_or_eq one_less_numeral_iff
      power_int_strict_increasing semiring_norm(76))

lemma two_powi_le_iff: "(2 :: rat) powi a \<le> 2 powi b \<longleftrightarrow> a \<le> b"
  by (metis linorder_not_less two_powi_less_iff)

lemma ilog2_mono:
  assumes "0 < x" and "x \<le> y"
  shows "ilog2 x \<le> ilog2 y"
proof -
  have "2 powi ilog2 x < (2 :: rat) powi (ilog2 y + 1)"
    using ilog2_bounds(1) [of x] ilog2_bounds(2) [of y] assms by linarith
  then show ?thesis by (simp add: two_powi_less_iff)
qed

lemma round_even_mono: "x \<le> y \<Longrightarrow> round_even x \<le> round_even y"
proof (cases "\<lfloor>x\<rfloor> = \<lfloor>y\<rfloor>")
  case True
  then show "x \<le> y \<Longrightarrow> ?thesis" by (auto simp: round_even_def Let_def)
next
  case False
  assume "x \<le> y"
  then have "\<lfloor>x\<rfloor> \<le> \<lfloor>y\<rfloor>" by (rule floor_mono)
  with False have "\<lfloor>x\<rfloor> + 1 \<le> \<lfloor>y\<rfloor>" by simp
  moreover have "round_even x \<le> \<lfloor>x\<rfloor> + 1" "\<lfloor>y\<rfloor> \<le> round_even y"
    by (auto simp: round_even_def Let_def)
  ultimately show ?thesis by simp
qed

lemma round_even_of_int [simp]: "round_even (of_int n) = n"
  by (simp add: round_even_def)

lemma round_even_minus: "round_even (- x) = - round_even x"
proof (cases "x \<in> \<int>")
  case True
  then obtain n where "x = of_int n" by (rule Ints_cases)
  then show ?thesis by (metis of_int_minus round_even_of_int)
next
  case False
  then have c: "\<lceil>x\<rceil> = \<lfloor>x\<rfloor> + 1" by (simp add: ceiling_altdef Ints_of_int) (metis Ints_of_int)
  then have "\<lfloor>- x\<rfloor> = - \<lfloor>x\<rfloor> - 1" by (simp add: floor_minus)
  then show ?thesis by (auto simp: round_even_def Let_def)
qed

lemma rnd_zero [simp]: "rnd 0 = 0"
  by (simp add: rnd_def)

lemma rnd_minus: "rnd (- x) = - rnd x"
  by (simp add: rnd_def round_even_minus flip: minus_divide_left)

lemma two_powi_add: "(2 :: rat) powi (a + b) = 2 powi a * 2 powi b"
  by (simp add: power_int_add)

text \<open>A positive number and its rounding against the bounds of its binade.\<close>

lemma rnd_upper:
  assumes "0 < x"
  shows "rnd x \<le> 2 ^ 53 * 2 powi ulp_exp x"
proof -
  have "x < 2 powi (ilog2 x + 1)" using assms by (rule ilog2_bounds)
  also have "\<dots> \<le> 2 powi (53 + ulp_exp x)" by (simp add: two_powi_le_iff ulp_exp_def)
  finally have "x / 2 powi ulp_exp x \<le> of_int (2 ^ 53)"
    by (simp add: two_powi_add divide_le_eq)
  from round_even_mono [OF this] have "round_even (x / 2 powi ulp_exp x) \<le> 2 ^ 53"
    by (simp only: round_even_of_int)
  then have "of_int (round_even (x / 2 powi ulp_exp x)) \<le> (of_int (2 ^ 53) :: rat)"
    by (simp only: of_int_le_iff)
  then show ?thesis using assms by (simp add: rnd_def)
qed

lemma rnd_lower:
  assumes "0 < x" and "- 1074 < ulp_exp x"
  shows "2 ^ 52 * 2 powi ulp_exp x \<le> rnd x"
proof -
  have "ulp_exp x = ilog2 x - 52" using assms(2) by (auto simp: ulp_exp_def)
  then have "2 powi (52 + ulp_exp x) \<le> x" using ilog2_bounds(1) [OF assms(1)] by simp
  then have "of_int (2 ^ 52) \<le> x / 2 powi ulp_exp x"
    by (simp add: two_powi_add le_divide_eq)
  from round_even_mono [OF this] have "2 ^ 52 \<le> round_even (x / 2 powi ulp_exp x)"
    by (simp only: round_even_of_int)
  then have "(of_int (2 ^ 52) :: rat) \<le> of_int (round_even (x / 2 powi ulp_exp x))"
    by (simp only: of_int_le_iff)
  then show ?thesis using assms by (simp add: rnd_def)
qed

lemma rnd_mono_pos:
  assumes "0 < x" and "x \<le> y"
  shows "rnd x \<le> rnd y"
proof (cases "ulp_exp x = ulp_exp y")
  case True
  have "x / 2 powi ulp_exp y \<le> y / 2 powi ulp_exp y"
    using assms(2) by (simp add: divide_right_mono)
  then show ?thesis using assms True
    by (simp add: rnd_def round_even_mono)
next
  case False
  then have less: "ulp_exp x < ulp_exp y" "- 1074 < ulp_exp y"
    using ilog2_mono [OF assms] by (auto simp: ulp_exp_def)
  have "rnd x \<le> 2 ^ 53 * 2 powi ulp_exp x" using assms(1) by (rule rnd_upper)
  also have "\<dots> = 2 ^ 52 * 2 powi (1 + ulp_exp x)" by (simp add: two_powi_add)
  also have "\<dots> \<le> 2 ^ 52 * 2 powi ulp_exp y" using less(1) by (simp add: two_powi_le_iff)
  also have "\<dots> \<le> rnd y" using assms less(2) by (intro rnd_lower) auto
  finally show ?thesis .
qed

lemma rnd_nonneg: "0 \<le> x \<Longrightarrow> 0 \<le> rnd x"
proof -
  assume "0 \<le> x"
  then have "(of_int 0 :: rat) \<le> x / 2 powi ulp_exp \<bar>x\<bar>" by simp
  from round_even_mono [OF this] have "0 \<le> round_even (x / 2 powi ulp_exp \<bar>x\<bar>)"
    by (simp only: round_even_of_int)
  then show ?thesis by (simp add: rnd_def)
qed

lemma rnd_mono:
  assumes "x \<le> y"
  shows "rnd x \<le> rnd y"
proof -
  consider "0 < x" | "x \<le> 0" "0 \<le> y" | "y < 0" by linarith
  then show ?thesis
  proof cases
    case 1
    then show ?thesis using assms by (rule rnd_mono_pos)
  next
    case 2
    then have "0 \<le> rnd (- x)" "0 \<le> rnd y" by (simp_all add: rnd_nonneg)
    then show ?thesis by (simp add: rnd_minus)
  next
    case 3
    then have "rnd (- y) \<le> rnd (- x)" using assms by (intro rnd_mono_pos) auto
    then show ?thesis by (simp add: rnd_minus)
  qed
qed

lemma rnd_by_int:
  assumes "x / 2 powi ulp_exp \<bar>x\<bar> = of_int m"
  shows "rnd x = x"
proof -
  have "x = of_int m * 2 powi ulp_exp \<bar>x\<bar>" using assms by (simp add: divide_eq_eq)
  then show ?thesis using assms by (simp add: rnd_def)
qed

lemma two_powi_nonneg_int: "0 \<le> d \<Longrightarrow> (2 :: rat) powi d = of_int (2 ^ nat d)"
  by (simp add: power_int_def)

lemma rnd_significand:
  assumes "\<bar>m\<bar> \<le> 2 ^ 53" and "- 1074 \<le> e"
  shows "rnd (of_int m * 2 powi e) = of_int m * 2 powi e"
proof (cases "m = 0")
  case False
  define x :: rat where "x = of_int m * 2 powi e"
  define u where "u = ulp_exp \<bar>x\<bar>"
  have pos: "0 < \<bar>x\<bar>" using False by (simp add: x_def)
  have "\<bar>x\<bar> = of_int \<bar>m\<bar> * 2 powi e" by (simp add: x_def abs_mult)
  also have "\<dots> \<le> of_int (2 ^ 53) * 2 powi e"
    using assms(1) by (intro mult_right_mono) (simp_all only: of_int_le_iff, simp)
  also have "\<dots> = 2 powi (53 + e)" by (simp add: two_powi_add)
  finally have ub: "\<bar>x\<bar> \<le> 2 powi (53 + e)" .
  then have "2 powi ilog2 \<bar>x\<bar> \<le> (2 :: rat) powi (53 + e)"
    using ilog2_bounds(1) [OF pos] by linarith
  then have le: "ilog2 \<bar>x\<bar> \<le> 53 + e" by (simp add: two_powi_le_iff)
  have "x / 2 powi u = of_int m * 2 powi (e - u)"
    by (simp add: x_def power_int_diff)
  moreover have "\<exists>n. of_int m * (2 :: rat) powi (e - u) = of_int n"
  proof (cases "u \<le> e")
    case True
    then show ?thesis by (intro exI [of _ "m * 2 ^ nat (e - u)"]) (simp add: two_powi_nonneg_int)
  next
    case False
    with le assms(2) have l: "ilog2 \<bar>x\<bar> = 53 + e" and u: "u = e + 1"
      by (auto simp: u_def ulp_exp_def)
    have "\<bar>x\<bar> = 2 powi (53 + e)" using ub ilog2_bounds(1) [OF pos] unfolding l by (rule antisym)
    then have "of_int \<bar>m\<bar> * 2 powi e = of_int (2 ^ 53) * (2 :: rat) powi e"
      by (simp add: x_def abs_mult two_powi_add)
    then have "\<bar>m\<bar> = 2 ^ 53" by (simp only: mult_cancel_right of_int_eq_iff) simp
    then have "even \<bar>m\<bar>" by simp
    then have "even m" by simp
    then obtain n where "m = 2 * n" by (rule evenE)
    then show ?thesis unfolding u by (intro exI [of _ n]) (simp add: power_int_minus)
  qed
  ultimately show ?thesis unfolding x_def [symmetric] u_def by (metis rnd_by_int)
qed simp

lemma rnd_of_nat: "n \<le> 2 ^ 53 \<Longrightarrow> rnd (of_nat n) = of_nat n"
proof -
  assume "n \<le> 2 ^ 53"
  then have "int n \<le> int (2 ^ 53)" by (simp only: of_nat_le_iff)
  then have "rnd (of_int (int n) * 2 powi 0) = of_int (int n) * 2 powi 0"
    by (intro rnd_significand) simp_all
  then show ?thesis by simp
qed

text \<open>Rounding an already rounded number changes nothing.\<close>

lemma rnd_idem: "rnd (rnd x) = rnd x"
proof -
  have pos: "rnd (rnd y) = rnd y" if "0 < y" for y
  proof -
    define m where "m = round_even (y / 2 powi ulp_exp y)"
    have r: "rnd y = of_int m * 2 powi ulp_exp y" using that by (simp add: rnd_def m_def)
    have "of_int m \<le> (of_int (2 ^ 53) :: rat)" using rnd_upper [OF that] by (simp add: r)
    then have "m \<le> 2 ^ 53" by (simp only: of_int_le_iff)
    moreover have "0 \<le> of_int m * (2 :: rat) powi ulp_exp y" using rnd_nonneg [of y] that by (simp add: r)
    then have "(0 :: rat) \<le> of_int m"
      using zero_less_power_int [of "2 :: rat"] by (metis mult_le_cancel_right not_less_iff_gr_or_eq mult_zero_left zero_less_numeral)
    then have "0 \<le> m" by simp
    ultimately show ?thesis unfolding r by (intro rnd_significand) (simp_all add: ulp_exp_def)
  qed
  consider "x = 0" | "0 < x" | "0 < - x" by linarith
  then show ?thesis
  proof cases
    case 3
    from pos [OF this] show ?thesis by (simp add: rnd_minus)
  qed (simp_all add: pos)
qed

section \<open>Consequences for the conversions\<close>

lemma rnd_of_nat_mono_bound: "n \<le> k \<Longrightarrow> k \<le> 2 ^ 53 \<Longrightarrow> x \<le> of_nat n \<Longrightarrow> rnd x \<le> of_nat n"
  using rnd_mono [of x "of_nat n"] rnd_of_nat [of n] by simp

lemma rnd_bounded:
  assumes "0 \<le> x" and "x \<le> 2 ^ 64"
  shows "0 \<le> rnd x" and "rnd x \<le> 2 ^ 64"
proof -
  have "rnd (of_int 1 * 2 powi 64) = of_int 1 * 2 powi 64" by (intro rnd_significand) simp_all
  then have "rnd (2 ^ 64) = 2 ^ 64" by simp
  with rnd_mono [OF assms(2)] show "rnd x \<le> 2 ^ 64" by simp
qed (simp add: assms rnd_nonneg)

lemma pow_64_less_1024: "(2 :: rat) ^ 64 < 2 ^ 1024"
  by (rule power_strict_increasing) simp_all

lemma to_double_Fin: "\<bar>rnd x\<bar> \<le> 2 ^ 64 \<Longrightarrow> to_double x = Fin (rnd x)"
proof -
  assume a: "\<bar>rnd x\<bar> \<le> 2 ^ 64"
  have "\<bar>rnd x\<bar> < 2 ^ 1024" by (rule le_less_trans [OF a pow_64_less_1024])
  then have "\<not> 2 ^ 1024 \<le> rnd x" "\<not> rnd x \<le> - (2 ^ 1024)"
    unfolding abs_less_iff not_le by (simp_all only: minus_less_iff)
  then show ?thesis by (simp only: to_double_def Let_def if_False)
qed

lemma to_double_small:
  assumes "\<bar>x\<bar> \<le> 2 ^ 64"
  shows "to_double x = Fin (rnd x)"
proof (rule to_double_Fin)
  have "0 \<le> rnd \<bar>x\<bar>" by (simp add: rnd_nonneg)
  then have "\<bar>rnd x\<bar> = rnd \<bar>x\<bar>" by (cases "0 \<le> x") (auto simp: rnd_minus)
  moreover have "rnd \<bar>x\<bar> \<le> 2 ^ 64" using assms by (intro rnd_bounded) simp
  ultimately show "\<bar>rnd x\<bar> \<le> 2 ^ 64" by simp
qed

lemma rat_of_word_nat: "rat_of_word w = of_nat (unat w)"
proof -
  have "of_int (uint w) = (of_int (int (unat w)) :: rat)" by (simp only: uint_nat)
  then show ?thesis by (simp only: rat_of_word_def of_int_of_nat_eq)
qed

lemma rat_of_word_le: "rat_of_word (w :: u64) \<le> 2 ^ 64"
proof -
  have "unat w \<le> 2 ^ 64" using unat_u64_less [of w] by simp
  then have "(of_nat (unat w) :: rat) \<le> of_nat (2 ^ 64)" by (simp only: of_nat_le_iff)
  then show ?thesis by (simp only: rat_of_word_nat) simp
qed

lemma rat_of_word_nonneg [simp]: "0 \<le> rat_of_word w"
  unfolding rat_of_word_nat by (rule of_nat_0_le_iff)

lemma rat_of_word_less_iff: "rat_of_word (a :: u64) < rat_of_word b \<longleftrightarrow> a < b"
  unfolding rat_of_word_nat by (simp only: of_nat_less_iff word_less_nat_alt)

lemma rat_of_word_le_iff: "rat_of_word (a :: u64) \<le> rat_of_word b \<longleftrightarrow> a \<le> b"
  unfolding rat_of_word_nat by (simp only: of_nat_le_iff word_le_nat_alt)

lemma d_of_u64_Fin: "d_of_u64 w = Fin (rnd (rat_of_word w))"
  unfolding d_of_u64_def
  by (rule to_double_small) (simp only: rat_of_word_le abs_of_nonneg rat_of_word_nonneg)

lemma rnd_rat_of_word: "unat w \<le> 2 ^ 53 \<Longrightarrow> rnd (rat_of_word w) = rat_of_word w"
  unfolding rat_of_word_nat by (rule rnd_of_nat)

lemma d_of_u64_exact: "unat w \<le> 2 ^ 53 \<Longrightarrow> d_of_u64 w = Fin (rat_of_word w)"
  by (simp only: d_of_u64_Fin rnd_rat_of_word)

lemma unat_u32_le: "unat (w :: u32) \<le> 2 ^ 53"
proof -
  have "unat w < 2 ^ 32" using unsigned_less [of w, where 'a = nat] by simp
  also have "\<dots> \<le> (2 :: nat) ^ 53" by (rule power_increasing) simp_all
  finally show ?thesis by simp
qed

lemma d_of_u32_exact: "d_of_u32 w = Fin (rat_of_word w)"
proof -
  have "rat_of_word w \<le> of_nat (2 ^ 53)"
    unfolding rat_of_word_nat using unat_u32_le [of w] by (simp only: of_nat_le_iff)
  then have "\<bar>rat_of_word w\<bar> \<le> 2 ^ 64" by simp
  then show ?thesis unfolding d_of_u32_def
    using rnd_rat_of_word [OF unat_u32_le [of w]] by (simp only: to_double_small)
qed

lemma d_to_u64_Fin:
  assumes "0 \<le> x" and "x < 2 ^ 64"
  shows "d_to_u64 (Fin x) = Inr (of_nat (nat \<lfloor>x\<rfloor>))"
    and "unat (of_nat (nat \<lfloor>x\<rfloor>) :: u64) = nat \<lfloor>x\<rfloor>"
proof -
  have f: "0 \<le> \<lfloor>x\<rfloor>" "\<lfloor>x\<rfloor> < 2 ^ 64" using assms by (auto simp: floor_less_iff)
  then show "d_to_u64 (Fin x) = Inr (of_nat (nat \<lfloor>x\<rfloor>))"
    using assms(1) by (simp add: trunc_rat_def)
  have "nat \<lfloor>x\<rfloor> < 2 ^ 64" using f by (simp add: nat_less_iff)
  then show "unat (of_nat (nat \<lfloor>x\<rfloor>) :: u64) = nat \<lfloor>x\<rfloor>"
    by (rule unat_of_nat_u64)
qed

section \<open>Ratios of quantities below \<open>2^53\<close>\<close>

lemma to_double_between:
  assumes "0 \<le> x" and "x \<le> of_nat k" and "k \<le> 2 ^ 53"
  shows "to_double x = Fin (rnd x)" and "0 \<le> rnd x" and "rnd x \<le> of_nat k"
proof -
  show "0 \<le> rnd x" by (rule rnd_nonneg [OF assms(1)])
  show *: "rnd x \<le> of_nat k" using rnd_of_nat_mono_bound [OF order_refl assms(3,2)] .
  have "k \<le> 2 ^ 64" using assms(3) by (rule order_trans) simp
  then have "(of_nat k :: rat) \<le> of_nat (2 ^ 64)" by (simp only: of_nat_le_iff)
  with * \<open>0 \<le> rnd x\<close> show "to_double x = Fin (rnd x)" by (intro to_double_Fin) simp
qed

lemma d_sub_exact:
  assumes "b \<le> a" and "unat (a :: u64) \<le> 2 ^ 53"
  shows "d_sub (d_of_u64 a) (d_of_u64 b) = Fin (of_nat (unat a - unat b))"
proof -
  have b: "unat b \<le> unat a" using assms(1) by (simp add: word_le_nat_alt)
  then have e: "(of_nat (unat a) :: rat) - of_nat (unat b) = of_nat (unat a - unat b)" by simp
  have "to_double (of_nat (unat a - unat b)) = Fin (of_nat (unat a - unat b))"
    using to_double_between(1) [of "of_nat (unat a - unat b)" "unat a - unat b"]
      rnd_of_nat [of "unat a - unat b"] assms(2) by simp
  with e b assms(2) show ?thesis
    by (simp add: d_sub_def d_of_u64_exact rat_of_word_nat)
qed

lemma d_to_u64_scaled:
  assumes "0 \<le> p" and "p \<le> of_nat k" and "k * unat (w :: u64) \<le> 2 ^ 53" and "unat w \<le> 2 ^ 53"
  shows "\<exists>n. d_to_u64 (d_mul (Fin p) (d_of_u64 w)) = Inr n \<and> unat n \<le> k * unat w"
proof -
  define x where "x = p * of_nat (unat w)"
  have "0 \<le> p * of_nat m" "p * of_nat m \<le> of_nat (k * m)" for m
    using assms(1,2) by (auto intro: mult_right_mono)
  then have x: "0 \<le> x" "x \<le> of_nat (k * unat w)" unfolding x_def by blast+
  note r = to_double_between [OF x assms(3)]
  have "(of_nat (k * unat w) :: rat) \<le> of_nat (2 ^ 53)" using assms(3) by (simp only: of_nat_le_iff)
  then have lt: "rnd x < 2 ^ 64" using r(3) by simp
  have "nat \<lfloor>rnd x\<rfloor> \<le> k * unat w" using r(2,3) by (simp add: nat_le_iff floor_le_iff)
  moreover have "d_mul (Fin p) (d_of_u64 w) = Fin (rnd x)"
    using r(1) assms(4) by (simp add: d_of_u64_exact rat_of_word_nat x_def)
  ultimately show ?thesis using d_to_u64_Fin [OF r(2) lt] by metis
qed

text \<open>A ratio of two words, scaled by a third.\<close>

lemma d_ratio:
  assumes "d \<le> 2 ^ 53" and "f \<noteq> 0" and "unat (f :: u64) \<le> 2 ^ 53"
  shows "d_div (Fin (of_nat d)) (d_of_u64 f) = Fin (rnd (of_nat d / of_nat (unat f)))"
    and "d \<le> k * unat f \<Longrightarrow> k \<le> 2 ^ 53 \<Longrightarrow> rnd (of_nat d / of_nat (unat f)) \<le> of_nat k"
    and "0 \<le> rnd (of_nat d / of_nat (unat f))"
proof -
  have f: "0 < unat f" using assms(2) by (simp add: unat_gt_0)
  have "d_div (Fin (of_nat d)) (Fin (of_nat m)) = Fin (rnd (of_nat d / of_nat m))" if "0 < m" for m
  proof -
    have "of_nat d / of_nat m \<le> (of_nat d :: rat)" using that by (simp add: divide_le_eq mult_le_cancel_left1)
    with that show ?thesis
      using to_double_between(1) [of "of_nat d / of_nat m" d] assms(1) by simp
  qed
  from this [OF f] show "d_div (Fin (of_nat d)) (d_of_u64 f) = Fin (rnd (of_nat d / of_nat (unat f)))"
    using assms(3) by (simp only: d_of_u64_exact rat_of_word_nat)
  show "0 \<le> rnd (of_nat d / of_nat (unat f))" by (intro rnd_nonneg divide_nonneg_nonneg of_nat_0_le_iff)
  assume "d \<le> k * unat f" "k \<le> 2 ^ 53"
  then have le: "(of_nat d :: rat) \<le> of_nat (k * unat f)" by (simp only: of_nat_le_iff)
  have "of_nat d / of_nat m \<le> (of_nat k :: rat)" if "0 < m" "(of_nat d :: rat) \<le> of_nat (k * m)" for m
    using that by (simp add: divide_le_eq)
  from this [OF f le] show "rnd (of_nat d / of_nat (unat f)) \<le> of_nat k"
    by (rule rnd_of_nat_mono_bound [OF order_refl \<open>k \<le> 2 ^ 53\<close>])
qed

section \<open>Evaluation\<close>

text \<open>Closed floating point terms are evaluated by the simplifier with the following rules.\<close>

lemma floor_rat_num:
  "\<lfloor>numeral a / numeral b :: rat\<rfloor> = numeral a div numeral b"
  "\<lfloor>1 / numeral b :: rat\<rfloor> = 1 div numeral b"
  "\<lfloor>- (numeral a / numeral b) :: rat\<rfloor> = (- numeral a) div numeral b"
  "\<lfloor>- (1 / numeral b) :: rat\<rfloor> = (- 1) div numeral b"
  using floor_divide_of_int_eq [where 'a = rat, of "numeral a" "numeral b"]
    floor_divide_of_int_eq [where 'a = rat, of 1 "numeral b"]
    floor_divide_of_int_eq [where 'a = rat, of "- numeral a" "numeral b"]
    floor_divide_of_int_eq [where 'a = rat, of "- 1" "numeral b"]
  by simp_all

lemmas double_eval =
  d_of_u64_def d_of_u32_def d_of_i64_def to_double_def rnd_def ulp_exp_def ilog2_def nbits.simps
  round_even_def rat_of_word_def trunc_rat_def d_sub_def d_signed_inf_def Let_def ceiling_def
  floor_rat_num

end
