(* ===== verification/Window.thy ===== *)
theory Window
  imports Binary64
begin

text \<open>
  \<open>stats/window/Window.h\<close> and \<open>Window_impl.h\<close>: the template \<open>ec::Window<T, K>\<close>, a ring
  buffer of the last \<open>winsize\<close> samples with a running mean. The arithmetic of the template
  parameter \<open>K\<close> is an argument (\<open>'k arith\<close>); the program instantiates it with \<open>double\<close>
  (\<open>double_arith\<close>), and \<open>exact_arith\<close> is the instance at exact rational numbers.

  Main result: at exact arithmetic, the incrementally maintained mean is the average of the last
  \<open>winsize\<close> samples (\<open>window_run_mean\<close>), also after the window has wrapped around; a flush counts as a
  window full of zeros, not as a fresh start (\<open>window_after_flush\<close>). The ring of values holds the last samples in order
  (\<open>window_holds_insert\<close>).

  Taking the index modulo a zero \<open>winsize\<close> is undefined in C++; every window of the program is
  built with \<open>__WINDOW_STAT_SIZE_ = 10\<close> and \<open>winsize\<close> is never written.
\<close>

section \<open>Definitions\<close>

record 'k arith =
  k_add :: "'k \<Rightarrow> 'k \<Rightarrow> 'k"
  k_sub :: "'k \<Rightarrow> 'k \<Rightarrow> 'k"
  k_mul :: "'k \<Rightarrow> 'k \<Rightarrow> 'k"
  k_div :: "'k \<Rightarrow> 'k \<Rightarrow> 'k"
  k_less :: "'k \<Rightarrow> 'k \<Rightarrow> bool"
  k_of_u32 :: "u32 \<Rightarrow> 'k"
  k_zero :: 'k
  k_milli :: 'k

definition double_arith :: "double arith" where
  "double_arith = \<lparr>k_add = d_add, k_sub = d_sub, k_mul = d_mul, k_div = d_div, k_less = d_less,
     k_of_u32 = d_of_u32, k_zero = Fin 0, k_milli = to_double (1 / 1000)\<rparr>"

definition exact_arith :: "rat arith" where
  "exact_arith = \<lparr>k_add = (+), k_sub = (-), k_mul = (*), k_div = (/), k_less = (<),
     k_of_u32 = rat_of_word, k_zero = 0, k_milli = 1 / 1000\<rparr>"

record ('t, 'k) Window =
  winsize :: u32
  mean :: 'k
  periods_elapsed :: u32
  trend :: 't
  offset :: 't
  popped :: 'k
  winstat :: "'k list"

definition Window_new :: "'k arith \<Rightarrow> u32 \<Rightarrow> ('t::zero, 'k) Window" where
  "Window_new ar n = \<lparr>winsize = n, mean = k_zero ar, periods_elapsed = 1, trend = 0, offset = 0,
     popped = k_zero ar, winstat = replicate (unat n) (k_zero ar)\<rparr>"

definition update_stats :: "'k arith \<Rightarrow> 'k \<Rightarrow> ('t, 'k) Window \<Rightarrow> 'k \<times> ('t, 'k) Window" where
  "update_stats ar element w =
     (let m1 = (if periods_elapsed w \<le> winsize w
                then k_div ar (k_add ar (k_mul ar (k_of_u32 ar (periods_elapsed w - 1)) (mean w)) element)
                       (k_of_u32 ar (periods_elapsed w))
                else k_add ar (mean w)
                       (k_div ar (k_sub ar element (popped w)) (k_of_u32 ar (winsize w))));
          m2 = (if k_less ar m1 (k_milli ar) then k_zero ar else m1)
      in (m2, w\<lparr>mean := m2, periods_elapsed := periods_elapsed w + 1\<rparr>))"

definition window_insert :: "'k arith \<Rightarrow> 'k \<Rightarrow> ('t, 'k) Window \<Rightarrow> 'k \<times> ('t, 'k) Window" where
  "window_insert ar element w =
     (let i = unat (periods_elapsed w mod winsize w)
      in update_stats ar element
           (w\<lparr>popped := winstat w ! i, winstat := (winstat w)[i := element]\<rparr>))"

definition window_flush :: "'k arith \<Rightarrow> ('t::zero, 'k) Window \<Rightarrow> ('t, 'k) Window" where
  "window_flush ar w = w\<lparr>winstat := replicate (length (winstat w)) (k_zero ar),
     mean := k_zero ar, trend := 0, offset := 0, popped := k_zero ar\<rparr>"

text \<open>
  \<open>update_trend\<close>, which nothing calls: the sums are of type \<open>uint64_t\<close>, so each \<open>+=\<close> converts the sum to
  \<open>double\<close>, adds and converts back. The instance is that of the run times, \<open>T = int64_t\<close>.
\<close>

definition add_to_sum :: "double \<Rightarrow> u64 \<Rightarrow> u64 result" where
  "add_to_sum x acc = d_to_u64 (d_add (d_of_u64 acc) x)"

fun trend_sums :: "double list \<Rightarrow> u64 \<Rightarrow> u64 \<Rightarrow> u64 \<Rightarrow> u64 \<Rightarrow> (u64 \<times> u64 \<times> u64 \<times> u64) result" where
  "trend_sums [] sum_x sum_ind sum_x_ind sum_x2 = Inr (sum_x, sum_ind, sum_x_ind, sum_x2)"
| "trend_sums (x # xs) sum_x sum_ind sum_x_ind sum_x2 =
     bind_r (add_to_sum x sum_x) (\<lambda>sum_x. bind_r (add_to_sum (d_mul x (Fin 1)) sum_x_ind) (\<lambda>sum_x_ind.
     bind_r (add_to_sum (d_mul x x) sum_x2) (\<lambda>sum_x2. trend_sums xs sum_x (sum_ind + 1) sum_x_ind sum_x2)))"

definition update_trend :: "(i64, double) Window \<Rightarrow> (i64, double) Window result" where
  "update_trend w = bind_r (trend_sums (winstat w) 0 0 0 0) (\<lambda>(sum_x, sum_ind, sum_x_ind, sum_x2).
     let dv = ucast (winsize w) * sum_x2 - sum_x * sum_x in
     if dv = 0 then Inr (w\<lparr>trend := 0, offset := 1\<rparr>)
     else let t = (ucast (winsize w) * sum_x_ind - sum_x * sum_ind) div dv
       in Inr (w\<lparr>trend := t, offset := (sum_ind - t * sum_x) div ucast (winsize w)\<rparr>))"

text \<open>A series of samples inserted one after the other.\<close>

fun window_run :: "'k arith \<Rightarrow> ('t, 'k) Window \<Rightarrow> 'k list \<Rightarrow> ('t, 'k) Window" where
  "window_run ar w [] = w"
| "window_run ar w (x # xs) = window_run ar (snd (window_insert ar x w)) xs"

text \<open>The specification: the average of the last \<open>n\<close> samples.\<close>

definition last_avg :: "nat \<Rightarrow> rat list \<Rightarrow> rat" where
  "last_avg n xs = (if xs = [] then 0
     else sum_list (drop (length xs - n) xs) / of_nat (min n (length xs)))"

section \<open>Shape\<close>

definition window_wf :: "('t, 'k) Window \<Rightarrow> bool" where
  "window_wf w \<longleftrightarrow> winsize w \<noteq> 0 \<and> length (winstat w) = unat (winsize w)"

lemma window_wf_new: "n \<noteq> 0 \<Longrightarrow> window_wf (Window_new ar n)"
  by (simp add: window_wf_def Window_new_def)

lemma window_wf_insert: "window_wf w \<Longrightarrow> window_wf (snd (window_insert ar x w))"
  by (simp add: window_wf_def window_insert_def update_stats_def Let_def)

lemma window_wf_flush: "window_wf w \<Longrightarrow> window_wf (window_flush ar w)"
  by (simp add: window_wf_def window_flush_def)

lemma fst_window_insert: "fst (window_insert ar x w) = mean (snd (window_insert ar x w))"
  by (simp add: window_insert_def update_stats_def Let_def)

lemma window_insert_winsize [simp]: "winsize (snd (window_insert ar x w)) = winsize w"
  by (simp add: window_insert_def update_stats_def Let_def)

lemma window_run_snoc:
  "window_run ar w (xs @ [x]) = snd (window_insert ar x (window_run ar w xs))"
  by (induction xs arbitrary: w) auto

lemma window_run_winsize [simp]: "winsize (window_run ar w xs) = winsize w"
  by (induction xs arbitrary: w) auto

section \<open>The running mean is the average of the window\<close>

text \<open>
  The ring after \<open>k\<close> insertions: slot \<open>j mod n\<close> holds the \<open>j\<close>-th sample (counting from 1) for the
  last \<open>n\<close> values of \<open>j\<close>, with zeros standing for the samples before the first.
\<close>

definition ring_holds :: "nat \<Rightarrow> rat list \<Rightarrow> rat list \<Rightarrow> bool" where
  "ring_holds n ws xs \<longleftrightarrow> length ws = n \<and>
     (\<forall>j. j \<le> length xs \<and> length xs < j + n \<longrightarrow> ws ! (j mod n) = (if j = 0 then 0 else xs ! (j - 1))) \<and>
     (\<forall>i < n. length xs < i \<longrightarrow> ws ! i = 0)"

lemma ring_holds_Nil: "ring_holds n (replicate n 0) []"
  by (auto simp: ring_holds_def)

lemma ring_slot_oldest:
  assumes "0 < n" and "ring_holds n ws xs"
  shows "ws ! (Suc (length xs) mod n) = (if n \<le> length xs then xs ! (length xs - n) else 0)"
proof (cases "n \<le> length xs")
  case True
  then have "Suc (length xs) mod n = (Suc (length xs) - n) mod n" by (simp add: le_mod_geq)
  with assms(2) True assms(1) show ?thesis
    by (auto simp: ring_holds_def dest!: spec [where x = "Suc (length xs) - n"])
next
  case False
  show ?thesis
  proof (cases "Suc (length xs) = n")
    case True
    with assms(2) False show ?thesis by (auto simp: ring_holds_def dest!: spec [where x = 0])
  next
    case F: False
    with False have "Suc (length xs) < n" by simp
    with assms(2) show ?thesis by (auto simp: ring_holds_def)
  qed
qed

lemma mod_eq_close:
  assumes "j mod n = (k :: nat) mod n" and "j \<le> k" and "k < j + n"
  shows "j = k"
proof -
  have "(k - j) mod n = 0" using assms(1,2) by (metis mod_eq_dvd_iff_nat mod_0_imp_dvd dvd_imp_mod_0)
  with assms(2,3) show ?thesis by auto
qed

lemma ring_holds_insert:
  assumes "0 < n" and "ring_holds n ws xs"
  shows "ring_holds n (ws[Suc (length xs) mod n := x]) (xs @ [x])"
  unfolding ring_holds_def
proof (intro conjI allI impI)
  show "length (ws[Suc (length xs) mod n := x]) = n"
    using assms(2) by (simp add: ring_holds_def)
  fix j
  assume j: "j \<le> length (xs @ [x]) \<and> length (xs @ [x]) < j + n"
  show "ws[Suc (length xs) mod n := x] ! (j mod n) = (if j = 0 then 0 else (xs @ [x]) ! (j - 1))"
  proof (cases "j = Suc (length xs)")
    case True
    then show ?thesis using assms by (simp add: ring_holds_def nth_append)
  next
    case False
    with j have "j mod n \<noteq> Suc (length xs) mod n" using mod_eq_close [of j n "Suc (length xs)"] by auto
    moreover from False j have "ws ! (j mod n) = (if j = 0 then 0 else xs ! (j - 1))"
      using assms(2) by (auto simp: ring_holds_def)
    ultimately show ?thesis using False j by (auto simp: nth_append)
  qed
next
  fix i
  assume "i < n" and "length (xs @ [x]) < i"
  then show "ws[Suc (length xs) mod n := x] ! i = 0"
    using assms(2) by (auto simp: ring_holds_def nth_list_update)
qed

lemma sum_list_update_rat:
  "i < length ws \<Longrightarrow> sum_list (ws[i := x]) = sum_list ws - ws ! i + (x :: rat)"
proof (induction ws arbitrary: i)
  case (Cons a ws)
  then show ?case by (cases i) auto
qed simp

lemma sum_last_snoc:
  "sum_list (drop (length (xs @ [x]) - n) (xs @ [x])) =
     sum_list (drop (length xs - n) xs) - (if n \<le> length xs \<and> 0 < n then xs ! (length xs - n) else 0)
       + (if 0 < n then x else (0 :: rat))"
proof (cases "n \<le> length xs")
  case True
  show ?thesis
  proof (cases "n = 0")
    case False
    with True have lt: "length xs - n < length xs" by simp
    then have "drop (length xs - n) xs = xs ! (length xs - n) # drop (Suc (length xs - n)) xs"
      by (rule Cons_nth_drop_Suc [symmetric])
    with True False lt show ?thesis by (simp add: Suc_diff_le)
  qed simp
qed auto

text \<open>The inductive statement: slots, mean and counter after a series of samples.\<close>

definition series_ok :: "u32 \<Rightarrow> rat list \<Rightarrow> bool" where
  "series_ok n xs \<longleftrightarrow> n \<noteq> 0 \<and> unat n \<le> 1000 \<and> Suc (length xs) < 2 ^ 32 \<and> set xs \<subseteq> \<nat>"

lemma sum_list_Nats: "set xs \<subseteq> \<nat> \<Longrightarrow> sum_list xs \<in> (\<nat> :: rat set)"
  by (induction xs) auto

lemma Nats_small_zero: "(x :: rat) \<in> \<nat> \<Longrightarrow> x < 1 \<Longrightarrow> x = 0"
  by (auto simp: Nats_def)

lemma no_clamp:
  assumes "(s :: rat) \<in> \<nat>" and "0 < k" and "k \<le> 1000"
  shows "(if s / of_nat k < 1 / 1000 then 0 else s / of_nat k) = s / of_nat k"
proof (cases "s / of_nat k < 1 / 1000")
  case True
  have "(of_nat k :: rat) \<le> of_nat 1000" using assms(3) by (simp only: of_nat_le_iff)
  moreover have "s * 1000 < of_nat k" using True assms(2) by (simp add: divide_less_eq)
  ultimately have "s < 1" by simp
  with assms(1) have "s = 0" by (rule Nats_small_zero)
  then show ?thesis by simp
qed simp

text \<open>\<open>v\<close> is the window of size \<open>n\<close> after the samples \<open>xs\<close>: counter, slots and mean.\<close>

definition window_tracks :: "u32 \<Rightarrow> ('t, rat) Window \<Rightarrow> rat list \<Rightarrow> bool" where
  "window_tracks n v xs \<longleftrightarrow> winsize v = n \<and> unat (periods_elapsed v) = Suc (length xs) \<and>
     ring_holds (unat n) (winstat v) xs \<and> mean v = last_avg (unat n) xs"

lemma window_tracks_new: "window_tracks n (Window_new exact_arith n) []"
  by (simp add: window_tracks_def Window_new_def exact_arith_def ring_holds_Nil last_avg_def)

lemma last_avg_sum:
  assumes "0 < n"
  shows "last_avg n xs * of_nat (min n (length xs)) = sum_list (drop (length xs - n) xs)"
  using assms by (auto simp: last_avg_def)

text \<open>Both branches of \<open>update_stats\<close> compute the average of the new window content.\<close>

lemma incremental_average:
  fixes x :: rat and xs :: "rat list"
  assumes "0 < n"
  defines "out \<equiv> if n \<le> length xs then xs ! (length xs - n) else 0"
  shows "(if length xs < n then (of_nat (length xs) * last_avg n xs + x) / of_nat (Suc (length xs))
          else last_avg n xs + (x - out) / of_nat n) = last_avg n (xs @ [x])"
proof -
  define S where "S = sum_list (drop (length xs - n) xs)"
  have T: "sum_list (drop (length (xs @ [x]) - n) (xs @ [x])) = S - out + x"
    unfolding S_def out_def sum_last_snoc using assms(1) by simp
  then have rhs: "last_avg n (xs @ [x]) = (S - out + x) / of_nat (min n (Suc (length xs)))"
    by (simp add: last_avg_def)
  have S: "last_avg n xs * of_nat (min n (length xs)) = S"
    unfolding S_def using assms(1) by (rule last_avg_sum)
  show ?thesis
  proof (cases "length xs < n")
    case True
    with S have "of_nat (length xs) * last_avg n xs = S" by (simp add: min_def mult.commute)
    with True show ?thesis by (simp add: rhs out_def min_def)
  next
    case False
    with S assms(1) have "last_avg n xs = S / of_nat n" by (simp add: min_def field_simps)
    with False show ?thesis
      by (simp add: rhs min_def diff_divide_distrib add_divide_distrib)
  qed
qed

lemma last_avg_no_clamp:
  assumes "0 < n" and "n \<le> 1000" and "set xs \<subseteq> \<nat>" and "xs \<noteq> []"
  shows "(if last_avg n xs < 1 / 1000 then 0 else last_avg n xs) = last_avg n xs"
proof -
  have "sum_list (drop (length xs - n) xs) \<in> \<nat>"
    by (rule sum_list_Nats) (use assms(3) set_drop_subset in fastforce)
  moreover have "0 < min n (length xs)" "min n (length xs) \<le> 1000" using assms by auto
  ultimately show ?thesis
    using no_clamp assms(4) unfolding last_avg_def by (simp only: if_False)
qed

lemma exact_insert_mean:
  "mean (snd (window_insert exact_arith x v)) =
     (let i = unat (periods_elapsed v mod winsize v);
          m1 = (if periods_elapsed v \<le> winsize v
                then (rat_of_word (periods_elapsed v - 1) * mean v + x) / rat_of_word (periods_elapsed v)
                else mean v + (x - winstat v ! i) / rat_of_word (winsize v))
      in if m1 < 1 / 1000 then 0 else m1)"
  by (simp add: window_insert_def update_stats_def Let_def exact_arith_def)

lemma window_tracks_insert:
  assumes tr: "window_tracks n v xs" and ok: "series_ok n (xs @ [x])"
  shows "window_tracks n (snd (window_insert exact_arith x v)) (xs @ [x])"
proof -
  define N where "N = unat n"
  have N: "0 < N" "N \<le> 1000" and len: "Suc (Suc (length xs)) < 2 ^ 32" and nat: "set (xs @ [x]) \<subseteq> \<nat>"
    using ok by (auto simp: series_ok_def N_def unat_gt_0)
  have v: "winsize v = n" "unat (periods_elapsed v) = Suc (length xs)"
    "ring_holds N (winstat v) xs" "mean v = last_avg N xs"
    using tr by (auto simp: window_tracks_def N_def)
  have idx: "unat (periods_elapsed v mod n) = Suc (length xs) mod N"
    by (simp add: unat_mod v N_def)
  have pe: "unat (periods_elapsed v + 1) = Suc (Suc (length xs))"
    using len by (simp add: unat_word_ariths v(2))
  have early: "periods_elapsed v \<le> n \<longleftrightarrow> length xs < N"
    by (simp add: word_le_nat_alt v N_def Suc_le_eq)
  have "unat (periods_elapsed v - 1) = length xs"
    using v(2) by (simp add: unat_sub word_le_nat_alt)
  then have nums: "rat_of_word (periods_elapsed v - 1) = of_nat (length xs)"
    "rat_of_word (periods_elapsed v) = of_nat (Suc (length xs))" "rat_of_word n = of_nat N"
    by (simp_all only: rat_of_word_nat v N_def)
  have "mean (snd (window_insert exact_arith x v)) = last_avg N (xs @ [x])"
    unfolding exact_insert_mean Let_def idx ring_slot_oldest [OF N(1) v(3)] v(1,4) early nums
      incremental_average [OF N(1)]
    by (rule last_avg_no_clamp [OF N nat]) simp
  moreover have "winstat (snd (window_insert exact_arith x v)) = (winstat v)[Suc (length xs) mod N := x]"
    "periods_elapsed (snd (window_insert exact_arith x v)) = periods_elapsed v + 1"
    by (simp_all add: window_insert_def update_stats_def Let_def v(1) idx)
  ultimately show ?thesis
    using pe ring_holds_insert [OF N(1) v(3), of x] v(1)
    by (simp add: window_tracks_def N_def)
qed

lemma window_run_tracks_from:
  "window_tracks n v xs \<Longrightarrow> series_ok n (xs @ ys) \<Longrightarrow> window_tracks n (window_run exact_arith v ys) (xs @ ys)"
proof (induction ys rule: rev_induct)
  case (snoc y ys)
  then have "series_ok n (xs @ ys)" by (auto simp: series_ok_def)
  with snoc show ?case using window_tracks_insert [of n _ "xs @ ys" y] by (auto simp: window_run_snoc)
qed simp

lemma window_run_tracks:
  "series_ok n xs \<Longrightarrow> window_tracks n (window_run exact_arith (Window_new exact_arith n) xs) xs"
  using window_run_tracks_from [OF window_tracks_new, of n xs] by simp

text \<open>Flushing turns the samples so far into zeros; it does not forget how many there were.\<close>

lemma window_tracks_flush:
  assumes "window_tracks n v xs" "n \<noteq> 0"
  shows "window_tracks n (window_flush exact_arith v) (replicate (length xs) 0)"
proof -
  have "0 < unat n" using assms(2) by (simp add: unat_gt_0)
  moreover have "last_avg m (replicate k 0) = 0" for m k by (simp add: last_avg_def sum_list_replicate)
  ultimately show ?thesis
    using assms(1) by (auto simp: window_tracks_def window_flush_def exact_arith_def ring_holds_def)
qed

text \<open>
  C31: at exact arithmetic, the mean that the window maintains incrementally is the average of the last
  \<open>winsize\<close> samples, or of all while there are fewer, also long after the ring has wrapped around
  (up to the wrap of the 32-bit period counter). Samples are natural numbers, as the program's
  run times and throttle counts are, and the window has at most 1000 slots, so that the cut-off of
  means below 0.001 never changes one.
\<close>

theorem window_run_mean:
  assumes "n \<noteq> 0" "unat n \<le> 1000" "Suc (length xs) < 2 ^ 32" "set xs \<subseteq> \<nat>"
  shows "mean (window_run exact_arith (Window_new exact_arith n :: ('t::zero, rat) Window) xs) = last_avg (unat n) xs"
proof -
  have "window_tracks n (window_run exact_arith (Window_new exact_arith n :: ('t, rat) Window) xs) xs"
    using assms by (intro window_run_tracks) (simp add: series_ok_def)
  then show ?thesis by (simp add: window_tracks_def)
qed

theorem window_run_mean_witness:
  "mean (window_run exact_arith (Window_new exact_arith 2 :: (nat, rat) Window) [4, 7, 9]) = 8"
  using window_run_mean [of 2 "[4, 7, 9]"] by (simp add: last_avg_def)

text \<open>
  C32: a flush does not start the window anew. At exact arithmetic (rational numbers), for samples that
  are natural numbers and windows of up to 1000 slots, and before the period counter wraps: after it the window goes on as if all samples before had
  been zeros, so that after the flush of a full window the mean of fewer than \<open>winsize\<close> samples is
  their sum divided by \<open>winsize\<close>, not by their number.
\<close>

theorem window_after_flush:
  fixes xs ys :: "rat list"
  assumes "n \<noteq> 0" "unat n \<le> 1000" "Suc (length (xs @ ys)) < 2 ^ 32" "set (xs @ ys) \<subseteq> \<nat>"
  defines "m \<equiv> mean (window_run exact_arith (window_flush exact_arith
      (window_run exact_arith (Window_new exact_arith n :: ('t::zero, rat) Window) xs)) ys)"
  shows "m = last_avg (unat n) (replicate (length xs) 0 @ ys) \<and>
    (unat n \<le> length xs \<longrightarrow> length ys \<le> unat n \<longrightarrow> m = sum_list ys / of_nat (unat n))"
proof -
  have ok: "series_ok n xs" "series_ok n (replicate (length xs) 0 @ ys)" using assms(1-4) by (auto simp: series_ok_def)
  let ?w = "window_run exact_arith (Window_new exact_arith n :: ('t, rat) Window) xs"
  have "window_tracks n ?w xs" by (rule window_run_tracks [OF ok(1)])
  from window_run_tracks_from [OF window_tracks_flush [OF this assms(1)] ok(2)]
  have "m = last_avg (unat n) (replicate (length xs) 0 @ ys)" by (simp add: m_def window_tracks_def)
  moreover have "last_avg (unat n) (replicate (length xs) 0 @ ys) = sum_list ys / of_nat (unat n)"
    if "unat n \<le> length xs" "length ys \<le> unat n"
    using that assms(1) by (auto simp: last_avg_def sum_list_replicate)
  ultimately show ?thesis by simp
qed

theorem window_after_flush_witness:
  "mean (window_run exact_arith (window_flush exact_arith
      (window_run exact_arith (Window_new exact_arith 2 :: (nat, rat) Window) [4, 7])) [9]) = 9 / 2"
proof -
  let ?m = "mean (window_run exact_arith (window_flush exact_arith
      (window_run exact_arith (Window_new exact_arith 2 :: (nat, rat) Window) [4, 7])) [9])"
  have "?m = sum_list [9] / of_nat (unat (2 :: u32))"
    using window_after_flush [of 2 "[4, 7]" "[9]", where 't = nat] by (simp del: window_run.simps)
  then show ?thesis by (simp del: window_run.simps)
qed

section \<open>The samples in the ring\<close>

text \<open>
  The samples a window holds, the oldest first: the next insertion writes over the oldest one, so the
  ring is read from there. A window that is not full counts as filled up with zeros. This holds for
  any arithmetic, rounding does not matter.
\<close>

definition samples :: "('t, 'k) Window \<Rightarrow> 'k list" where
  "samples w = rotate (unat (periods_elapsed w)) (winstat w)"

definition last_samples :: "'k \<Rightarrow> nat \<Rightarrow> 'k list \<Rightarrow> 'k list" where
  "last_samples z n h = drop (length h) (replicate n z @ h)"

definition window_holds :: "'k \<Rightarrow> ('t, 'k) Window \<Rightarrow> 'k list \<Rightarrow> bool" where
  "window_holds z w h \<longleftrightarrow> window_wf w \<and> periods_elapsed w = of_nat (Suc (length h)) \<and>
     (Suc (length h) < 2 ^ 32 \<longrightarrow> samples w = last_samples z (unat (winsize w)) h)"

lemma rotate_update:
  assumes "xs \<noteq> []"
  shows "rotate (Suc k) (xs[k mod length xs := x]) = tl (rotate k xs) @ [x]"
proof -
  have "rotate k (xs[k mod length xs := x]) = (rotate k xs)[0 := x]"
  proof (rule nth_equalityI)
    fix i assume i: "i < length (rotate k (xs[k mod length xs := x]))"
    then have "(k + i) mod length xs = k mod length xs \<longleftrightarrow> i = 0"
      using mod_eq_close [of k "length xs" "k + i"] by auto
    then show "rotate k (xs[k mod length xs := x]) ! i = (rotate k xs)[0 := x] ! i"
      using i assms by (auto simp: nth_rotate nth_list_update)
  qed simp
  then show ?thesis using assms by (cases "rotate k xs") auto
qed

lemma last_samples_snoc: "0 < n \<Longrightarrow> last_samples z n (h @ [x]) = tl (last_samples z n h) @ [x]"
proof -
  assume "0 < n"
  then have "drop (Suc (length h)) (replicate n z @ h @ [x]) = drop (Suc (length h)) (replicate n z @ h) @ [x]"
    using drop_append [of "Suc (length h)" "replicate n z @ h" "[x]"] by simp
  then show ?thesis by (simp only: last_samples_def length_append_singleton drop_Suc tl_drop)
qed

lemma window_holds_new: "n \<noteq> 0 \<Longrightarrow> window_holds (k_zero ar) (Window_new ar n) []"
  by (simp add: window_holds_def window_wf_new) (simp add: samples_def last_samples_def Window_new_def)

lemma window_holds_insert:
  assumes w: "window_holds z w h"
  shows "window_holds z (snd (window_insert ar x w)) (h @ [x])"
proof -
  let ?w = "snd (window_insert ar x w)" and ?k = "Suc (length h)"
  have wf: "window_wf w" and k: "periods_elapsed w = of_nat ?k" using w by (simp_all add: window_holds_def)
  have frame: "periods_elapsed ?w = periods_elapsed w + 1"
    "winstat ?w = (winstat w)[unat (periods_elapsed w mod winsize w) := x]"
    by (simp_all add: window_insert_def update_stats_def Let_def)
  have "samples ?w = last_samples z (unat (winsize w)) (h @ [x])" if small: "Suc ?k < 2 ^ 32"
  proof -
    have n: "winstat w \<noteq> []" "length (winstat w) = unat (winsize w)" "0 < unat (winsize w)"
      using wf unat_eq_zero [of "winsize w"] by (auto simp: window_wf_def)
    have u32: "unat (of_nat m :: u32) = m" if "m < 2 ^ 32" for m
      using that by (simp add: unsigned_of_nat take_bit_nat_eq_self)
    have "periods_elapsed ?w = of_nat (Suc ?k)" using frame(1) k by simp
    then have u: "unat (periods_elapsed w) = ?k" "unat (periods_elapsed ?w) = Suc ?k"
      using small u32 [of ?k] u32 [of "Suc ?k"] k by simp_all
    have "samples ?w = tl (samples w) @ [x]"
      unfolding samples_def u frame(2) unat_mod n(2) [symmetric] by (rule rotate_update [OF n(1)])
    then show ?thesis using w small n(3) by (simp add: window_holds_def last_samples_snoc)
  qed
  then show ?thesis using wf k frame(1) by (simp add: window_holds_def window_wf_insert)
qed

lemma rotate_replicate: "rotate k (replicate n z) = replicate n z"
  by (induction k) simp_all

lemma window_holds_flush:
  assumes "window_holds z w h" "z = k_zero ar"
  shows "window_holds z (window_flush ar w) (replicate (length h) z)"
proof -
  have "samples (window_flush ar w) = replicate (length (winstat w)) z"
    unfolding samples_def by (simp add: window_flush_def assms(2) rotate_replicate)
  moreover have "last_samples z n (replicate (length h) z) = replicate n z" for n
    by (simp add: last_samples_def flip: replicate_add)
  moreover have "winsize (window_flush ar w) = winsize w" "periods_elapsed (window_flush ar w) = periods_elapsed w"
    by (simp_all add: window_flush_def)
  ultimately show ?thesis using assms(1) by (simp add: window_holds_def window_wf_flush) (simp add: window_wf_def)
qed

end
