(* ===== verification/Local_Stats.thy ===== *)
theory Local_Stats
  imports Window
begin

text \<open>
  \<open>stats/local/cpu_l.h\<close>, \<open>cpu_l.cpp\<close>, \<open>mem_l.h\<close>, \<open>mem_l.cpp\<close>: the statistics the controller
  keeps for one container. The member \<open>period\<close> of \<open>local::stats::cpu\<close> is neither initialised nor
  read by any function and has no counterpart here.

  \<open>insert_rt_stats\<close> returns the window mean, a \<open>double\<close>, as a \<open>uint64_t\<close>; the conversion is
  undefined out of range, so the model returns a \<open>result\<close>.

  Main result: after any sequence of operations the windows hold the last ten samples
  (\<open>cpu_windows_hold\<close>).
\<close>

section \<open>CPU\<close>

definition WINDOW_STAT_SIZE :: u32 where
  "WINDOW_STAT_SIZE = 10"

record cpu_l =
  quota :: u64
  seq_num :: u64
  nr_throttled :: u32
  rt_winstats :: "(i64, double) Window"
  th_winstats :: "(u32, double) Window"
  set_quota_flag :: bool

definition cpu_l_default :: cpu_l where
  "cpu_l_default = \<lparr>quota = - 1, seq_num = 0, nr_throttled = 0,
     rt_winstats = Window_new double_arith WINDOW_STAT_SIZE,
     th_winstats = Window_new double_arith WINDOW_STAT_SIZE, set_quota_flag = False\<rparr>"

definition cpu_l_new :: "u64 \<Rightarrow> u32 \<Rightarrow> cpu_l" where
  "cpu_l_new q throttled = \<lparr>quota = q, seq_num = 0, nr_throttled = throttled,
     rt_winstats = Window_new double_arith WINDOW_STAT_SIZE,
     th_winstats = Window_new double_arith WINDOW_STAT_SIZE, set_quota_flag = False\<rparr>"

definition cpu_set_quota :: "u64 \<Rightarrow> cpu_l \<Rightarrow> cpu_l" where
  "cpu_set_quota q c = c\<lparr>quota := q\<rparr>"

definition cpu_set_throttled :: "u32 \<Rightarrow> cpu_l \<Rightarrow> cpu_l" where
  "cpu_set_throttled t c = c\<lparr>nr_throttled := t\<rparr>"

definition get_throttle_increase :: "u32 \<Rightarrow> cpu_l \<Rightarrow> u32" where
  "get_throttle_increase t c = t - nr_throttled c"

definition set_set_quota_flag :: "bool \<Rightarrow> cpu_l \<Rightarrow> cpu_l" where
  "set_set_quota_flag b c = c\<lparr>set_quota_flag := b\<rparr>"

definition insert_rt_stats :: "u64 \<Rightarrow> cpu_l \<Rightarrow> (u64 \<times> cpu_l) result" where
  "insert_rt_stats element c =
     (case window_insert double_arith (d_of_u64 element) (rt_winstats c) of
        (m, w) \<Rightarrow> bind_r (d_to_u64 m) (\<lambda>r. Inr (r, c\<lparr>rt_winstats := w\<rparr>)))"

definition insert_th_stats :: "u32 \<Rightarrow> cpu_l \<Rightarrow> double \<times> cpu_l" where
  "insert_th_stats element c =
     (case window_insert double_arith (d_of_u32 (get_throttle_increase element c)) (th_winstats c) of
        (m, w) \<Rightarrow> (m, cpu_set_throttled element (c\<lparr>th_winstats := w\<rparr>)))"

definition cpu_flush :: "cpu_l \<Rightarrow> cpu_l" where
  "cpu_flush c = c\<lparr>rt_winstats := window_flush double_arith (rt_winstats c),
     th_winstats := window_flush double_arith (th_winstats c)\<rparr>"

definition incr_seq_num :: "cpu_l \<Rightarrow> cpu_l" where
  "incr_seq_num c = c\<lparr>seq_num := seq_num c + 1\<rparr>"

definition set_seq_num :: "u64 \<Rightarrow> cpu_l \<Rightarrow> cpu_l" where
  "set_seq_num v c = c\<lparr>seq_num := v\<rparr>"

section \<open>Memory\<close>

record mem_l =
  mem_limit_in_pages :: u64
  current_usage :: u64

definition mem_l_new :: mem_l where
  "mem_l_new = \<lparr>mem_limit_in_pages = 0, current_usage = 0\<rparr>"

definition mem_set_limit :: "u64 \<Rightarrow> mem_l \<Rightarrow> mem_l" where
  "mem_set_limit n m = m\<lparr>mem_limit_in_pages := n\<rparr>"

definition incr_mem_limit :: "u64 \<Rightarrow> mem_l \<Rightarrow> mem_l" where
  "incr_mem_limit n m = m\<lparr>mem_limit_in_pages := mem_limit_in_pages m + n\<rparr>"

definition decr_mem_limit :: "u64 \<Rightarrow> mem_l \<Rightarrow> mem_l" where
  "decr_mem_limit n m =
     (if mem_limit_in_pages m < n then m\<lparr>mem_limit_in_pages := 0\<rparr>
      else m\<lparr>mem_limit_in_pages := mem_limit_in_pages m - n\<rparr>)"

section \<open>Lemmas\<close>

lemmas [state_defs] = cpu_set_quota_def cpu_set_throttled_def set_set_quota_flag_def cpu_flush_def
  incr_seq_num_def set_seq_num_def mem_set_limit_def

interpretation mem_l_limit: unsigned_clamp_counter mem_limit_in_pages incr_mem_limit decr_mem_limit
  by unfold_locales (simp_all add: incr_mem_limit_def decr_mem_limit_def)

text \<open>What the statistics updates leave alone.\<close>

lemma insert_rt_stats_frame:
  assumes "insert_rt_stats e c = Inr (r, c')"
  shows "quota c' = quota c" "seq_num c' = seq_num c" "set_quota_flag c' = set_quota_flag c"
    "nr_throttled c' = nr_throttled c" "th_winstats c' = th_winstats c"
  using assms by (auto simp: insert_rt_stats_def bind_r_eq_Inr split: prod.splits)

lemma insert_th_stats_frame:
  assumes "insert_th_stats e c = (r, c')"
  shows "quota c' = quota c" "seq_num c' = seq_num c" "set_quota_flag c' = set_quota_flag c"
    "nr_throttled c' = e" "rt_winstats c' = rt_winstats c"
  using assms by (auto simp: insert_th_stats_def cpu_set_throttled_def split: prod.splits)

text \<open>The throttle counter of the kernel may wrap; the increase is taken modulo \<open>2^32\<close>.\<close>

lemma throttle_increase_sum:
  "get_throttle_increase (nr_throttled c + d) c = d"
  by (simp add: get_throttle_increase_def)

section \<open>What the windows hold\<close>

text \<open>
  The statistics objects that the operations of the class can produce, from either constructor, with
  the samples that each window was given. A flush turns the samples before it into zeros. An
  insertion that is undefined (a mean that does not fit into 64 bits) produces no object.
\<close>

inductive cpu_l_hist :: "double list \<Rightarrow> double list \<Rightarrow> cpu_l \<Rightarrow> bool" where
  default: "cpu_l_hist [] [] cpu_l_default"
| new: "cpu_l_hist [] [] (cpu_l_new q t)"
| set_quota: "cpu_l_hist rts ths c \<Longrightarrow> cpu_l_hist rts ths (cpu_set_quota q c)"
| set_throttled: "cpu_l_hist rts ths c \<Longrightarrow> cpu_l_hist rts ths (cpu_set_throttled t c)"
| set_flag: "cpu_l_hist rts ths c \<Longrightarrow> cpu_l_hist rts ths (set_set_quota_flag b c)"
| insert_rt: "cpu_l_hist rts ths c \<Longrightarrow> insert_rt_stats x c = Inr (r, c') \<Longrightarrow> cpu_l_hist (rts @ [d_of_u64 x]) ths c'"
| insert_th: "cpu_l_hist rts ths c \<Longrightarrow>
    cpu_l_hist rts (ths @ [d_of_u32 (t - nr_throttled c)]) (snd (insert_th_stats t c))"
| flush: "cpu_l_hist rts ths c \<Longrightarrow>
    cpu_l_hist (replicate (length rts) (Fin 0)) (replicate (length ths) (Fin 0)) (cpu_flush c)"
| next_seq: "cpu_l_hist rts ths c \<Longrightarrow> cpu_l_hist rts ths (incr_seq_num c)"
| set_seq: "cpu_l_hist rts ths c \<Longrightarrow> cpu_l_hist rts ths (set_seq_num v c)"

lemma double_zero [simp]: "k_zero double_arith = Fin 0"
  by (simp add: double_arith_def)

lemma holds_new: "window_holds (Fin 0) (Window_new double_arith WINDOW_STAT_SIZE) []"
  using window_holds_new [of WINDOW_STAT_SIZE double_arith] by (simp add: WINDOW_STAT_SIZE_def)

lemma winsize_keeps [simp]: "winsize (window_flush ar w) = winsize w" "winsize (Window_new ar n) = n"
  by (simp_all add: window_flush_def Window_new_def)

lemma cpu_l_hist_holds:
  "cpu_l_hist rts ths c \<Longrightarrow> window_holds (Fin 0) (rt_winstats c) rts \<and> window_holds (Fin 0) (th_winstats c) ths \<and>
     winsize (rt_winstats c) = 10 \<and> winsize (th_winstats c) = 10"
proof (induction rule: cpu_l_hist.induct)
  case (insert_rt rts ths c x r c')
  obtain m w where i: "window_insert double_arith (d_of_u64 x) (rt_winstats c) = (m, w)" by force
  then have "window_holds (Fin 0) w (rts @ [d_of_u64 x])" "winsize w = 10"
    using insert_rt.IH window_holds_insert [of "Fin 0" "rt_winstats c" rts double_arith "d_of_u64 x"]
      window_insert_winsize [of double_arith "d_of_u64 x" "rt_winstats c"] by simp_all
  then show ?case using insert_rt i by (auto simp: insert_rt_stats_def bind_r_eq_Inr)
next
  case (insert_th rts ths c t)
  let ?x = "d_of_u32 (t - nr_throttled c)"
  obtain m w where i: "window_insert double_arith ?x (th_winstats c) = (m, w)" by force
  then have "window_holds (Fin 0) w (ths @ [?x])" "winsize w = 10"
    using insert_th.IH window_holds_insert [of "Fin 0" "th_winstats c" ths double_arith ?x]
      window_insert_winsize [of double_arith ?x "th_winstats c"] by simp_all
  then show ?case using insert_th i by (simp add: insert_th_stats_def cpu_set_throttled_def get_throttle_increase_def)
next
  case (flush rts ths c)
  then show ?case by (simp add: cpu_flush_def window_holds_flush)
qed (simp_all add: cpu_l_default_def cpu_l_new_def cpu_set_quota_def cpu_set_throttled_def set_set_quota_flag_def
    incr_seq_num_def set_seq_num_def holds_new, simp_all add: WINDOW_STAT_SIZE_def)

text \<open>
  C33: whatever sequence of its operations a statistics object goes through, each of its two windows,
  read from the slot that is written next, holds exactly the last ten samples it was given, the
  oldest first; the samples before a flush count as zeros, and so do those that are missing in the
  beginning. A sample of the second window is the increase of the throttle counter since the last
  one. This holds for the first \<open>2^32 - 2\<close> samples (13 years at one report per 100 ms); the index
  wraps after that.
\<close>

theorem cpu_windows_hold:
  assumes "cpu_l_hist rts ths c" and "length rts < 2 ^ 32 - 1" "length ths < 2 ^ 32 - 1"
  shows "samples (rt_winstats c) = drop (length rts) (replicate 10 (Fin 0) @ rts) \<and>
    samples (th_winstats c) = drop (length ths) (replicate 10 (Fin 0) @ ths)"
  using cpu_l_hist_holds [OF assms(1)] assms(2,3) by (simp add: window_holds_def last_samples_def)

text \<open>The throttle counter goes from 1 to 4 and then to 9.\<close>

theorem cpu_windows_hold_witness:
  "samples (th_winstats (snd (insert_th_stats 9 (snd (insert_th_stats 4 (cpu_l_new 5 1)))))) =
     replicate 8 (Fin 0) @ [d_of_u32 3, d_of_u32 5]"
proof -
  let ?c1 = "snd (insert_th_stats 4 (cpu_l_new 5 1))"
  have "cpu_l_hist [] ([] @ [d_of_u32 (4 - nr_throttled (cpu_l_new 5 1))]) ?c1"
    by (intro cpu_l_hist.insert_th cpu_l_hist.new)
  then have "cpu_l_hist [] ([d_of_u32 (4 - nr_throttled (cpu_l_new 5 1))] @ [d_of_u32 (9 - nr_throttled ?c1)]) (snd (insert_th_stats 9 ?c1))"
    unfolding append_Nil by (rule cpu_l_hist.insert_th)
  moreover have "nr_throttled (cpu_l_new 5 1) = 1" by (simp add: cpu_l_new_def)
  moreover have "nr_throttled ?c1 = 4" by (simp add: insert_th_stats_def cpu_set_throttled_def split: prod.splits)
  ultimately have "cpu_l_hist [] [d_of_u32 3, d_of_u32 5] (snd (insert_th_stats 9 ?c1))" by simp
  moreover have "length ([] :: double list) < 2 ^ 32 - 1" "length [d_of_u32 3, d_of_u32 5] < 2 ^ 32 - 1" by simp_all
  ultimately have "samples (th_winstats (snd (insert_th_stats 9 ?c1))) =
      drop (length [d_of_u32 3, d_of_u32 5]) (replicate 10 (Fin 0) @ [d_of_u32 3, d_of_u32 5])"
    using cpu_windows_hold by blast
  then show ?thesis by (simp add: eval_nat_numeral)
qed

end
