(* ===== verification/Om_Net.thy ===== *)
theory Om_Net
  imports Gcm_Prelude
begin

text \<open>
  The parts of \<open>om.h\<close> that the controller's data types are built on: the byte codecs of
  \<open>om::sys\<close>, the byte order functions, \<open>ip4_addr\<close> and \<open>mac_addr\<close> of \<open>om::net\<close>, and the hash
  functions. Byte buffers are lists of 8-bit words; \<open>char\<close> is signed, so widening a buffer element
  sign-extends it. The host is little-endian, so \<open>htonl\<close> reverses the byte order.

  Main results: the codecs are inverse to each other although the readers widen signed bytes;
  byte order reversal is an involution; \<open>mac_addr\<close> survives the trip through \<open>uint64_t\<close>.
\<close>

section \<open>Byte codecs (\<open>om::sys\<close>)\<close>

definition write_uint16 :: "u16 \<Rightarrow> u8 list \<Rightarrow> (u32 \<times> u8 list) result" where
  "write_uint16 v buf =
     (if length buf < 2 then Inl Undefined_Behaviour
      else Inr (2, buf[0 := ucast (drop_bit 8 v AND 0xff), 1 := ucast (drop_bit 0 v AND 0xff)]))"

definition write_uint32 :: "u32 \<Rightarrow> u8 list \<Rightarrow> (u32 \<times> u8 list) result" where
  "write_uint32 v buf =
     (if length buf < 4 then Inl Undefined_Behaviour
      else Inr (4, buf[0 := ucast (drop_bit 24 v AND 0xff), 1 := ucast (drop_bit 16 v AND 0xff),
                       2 := ucast (drop_bit 8 v AND 0xff), 3 := ucast (drop_bit 0 v AND 0xff)]))"

definition write_uint64 :: "u64 \<Rightarrow> u8 list \<Rightarrow> (u32 \<times> u8 list) result" where
  "write_uint64 v buf =
     (if length buf < 8 then Inl Undefined_Behaviour
      else Inr (8, buf[0 := ucast (drop_bit 56 v AND 0xff), 1 := ucast (drop_bit 48 v AND 0xff),
                       2 := ucast (drop_bit 40 v AND 0xff), 3 := ucast (drop_bit 32 v AND 0xff),
                       4 := ucast (drop_bit 24 v AND 0xff), 5 := ucast (drop_bit 16 v AND 0xff),
                       6 := ucast (drop_bit 8 v AND 0xff), 7 := ucast (drop_bit 0 v AND 0xff)]))"

definition read_uint16 :: "u8 list \<Rightarrow> u16 result" where
  "read_uint16 buf =
     (if length buf < 2 then Inl Undefined_Behaviour
      else Inr ((push_bit 8 (scast (buf ! 0)) AND 0xff00) OR (push_bit 0 (scast (buf ! 1)) AND 0x00ff)))"

definition read_uint32 :: "u8 list \<Rightarrow> u32 result" where
  "read_uint32 buf =
     (if length buf < 4 then Inl Undefined_Behaviour
      else Inr ((push_bit 24 (scast (buf ! 0)) AND 0xff000000)
             OR (push_bit 16 (scast (buf ! 1)) AND 0x00ff0000)
             OR (push_bit 8 (scast (buf ! 2)) AND 0x0000ff00)
             OR (push_bit 0 (scast (buf ! 3)) AND 0x000000ff)))"

definition read_uint64 :: "u8 list \<Rightarrow> u64 result" where
  "read_uint64 buf =
     (if length buf < 8 then Inl Undefined_Behaviour
      else Inr ((push_bit 56 (scast (buf ! 0)) AND 0xff00000000000000)
             OR (push_bit 48 (scast (buf ! 1)) AND 0x00ff000000000000)
             OR (push_bit 40 (scast (buf ! 2)) AND 0x0000ff0000000000)
             OR (push_bit 32 (scast (buf ! 3)) AND 0x000000ff00000000)
             OR (push_bit 24 (scast (buf ! 4)) AND 0x00000000ff000000)
             OR (push_bit 16 (scast (buf ! 5)) AND 0x0000000000ff0000)
             OR (push_bit 8 (scast (buf ! 6)) AND 0x000000000000ff00)
             OR (push_bit 0 (scast (buf ! 7)) AND 0x00000000000000ff)))"

section \<open>Byte order (\<open>om::net\<close>)\<close>

definition reverse_byte_order16 :: "u16 \<Rightarrow> u16" where
  "reverse_byte_order16 a = drop_bit 8 a OR push_bit 8 a"

definition reverse_byte_order32 :: "u32 \<Rightarrow> u32" where
  "reverse_byte_order32 a = drop_bit 24 (a AND 0xff000000) OR drop_bit 8 (a AND 0x00ff0000)
     OR push_bit 8 (a AND 0x0000ff00) OR push_bit 24 a"

abbreviation htonl :: "u32 \<Rightarrow> u32" where
  "htonl \<equiv> reverse_byte_order32"

section \<open>IPv4 addresses\<close>

datatype ip4_addr = Ip4 (ip_addr: u32)

definition ip4_default :: ip4_addr where
  "ip4_default = Ip4 0"

definition from_host :: "u32 \<Rightarrow> ip4_addr" where
  "from_host a = Ip4 (htonl a)"

definition from_net :: "u32 \<Rightarrow> ip4_addr" where
  "from_net a = Ip4 a"

definition from_bytes :: "u8 \<Rightarrow> u8 \<Rightarrow> u8 \<Rightarrow> u8 \<Rightarrow> ip4_addr" where
  "from_bytes b0 b1 b2 b3 = Ip4 (push_bit 24 (ucast b0) OR push_bit 16 (ucast b1)
     OR push_bit 8 (ucast b2) OR push_bit 0 (ucast b3))"

definition to_uint32 :: "ip4_addr \<Rightarrow> u32" where
  "to_uint32 a = ip_addr a"

definition ip4_less :: "ip4_addr \<Rightarrow> ip4_addr \<Rightarrow> bool" where
  "ip4_less a b = (ip_addr a < ip_addr b)"

definition ip4_reverse_byte_order :: "ip4_addr \<Rightarrow> ip4_addr" where
  "ip4_reverse_byte_order a = from_net (htonl (ip_addr a))"

text \<open>
  \<open>parse\<close> calls the C library's \<open>inet_addr\<close>, which is a parameter; its error value \<open>INADDR_NONE\<close>
  becomes an exception.
\<close>

definition ip4_parse :: "(string \<Rightarrow> u32) \<Rightarrow> string \<Rightarrow> u32 result" where
  "ip4_parse inet_addr s =
     (let a = inet_addr s in if a = - 1 then Inl Uncaught_Exception else Inr a)"

definition from_string :: "(string \<Rightarrow> u32) \<Rightarrow> string \<Rightarrow> ip4_addr result" where
  "from_string inet_addr s = bind_r (ip4_parse inet_addr s) (\<lambda>a. Inr (Ip4 a))"

text \<open>Decimal output of an unsigned integer by a stream.\<close>

fun show_dec :: "nat \<Rightarrow> string" where
  "show_dec n = (if n < 10 then [char_of (48 + n)] else show_dec (n div 10) @ [char_of (48 + n mod 10)])"

definition ip4_octets :: "ip4_addr \<Rightarrow> u32 list" where
  "ip4_octets a = [drop_bit 0 (ip_addr a) AND 0xff, drop_bit 8 (ip_addr a) AND 0xff,
     drop_bit 16 (ip_addr a) AND 0xff, drop_bit 24 (ip_addr a) AND 0xff]"

definition ip4_to_string :: "ip4_addr \<Rightarrow> string" where
  "ip4_to_string a = show_dec (unat (ip4_octets a ! 0)) @ ''.'' @ show_dec (unat (ip4_octets a ! 1))
     @ ''.'' @ show_dec (unat (ip4_octets a ! 2)) @ ''.'' @ show_dec (unat (ip4_octets a ! 3))"

section \<open>MAC addresses\<close>

datatype mac_addr = Mac u8 u8 u8 u8 u8 u8

definition mac_default :: mac_addr where
  "mac_default = Mac 0 0 0 0 0 0"

definition mac_from_uint64 :: "u64 \<Rightarrow> mac_addr" where
  "mac_from_uint64 a = Mac (ucast (drop_bit (5 * 8) a)) (ucast (drop_bit (4 * 8) a))
     (ucast (drop_bit (3 * 8) a)) (ucast (drop_bit (2 * 8) a)) (ucast (drop_bit (1 * 8) a))
     (ucast (drop_bit (0 * 8) a))"

fun mac_to_uint64 :: "mac_addr \<Rightarrow> u64" where
  "mac_to_uint64 (Mac a b c d e f) =
     push_bit (5 * 8) (ucast a) OR push_bit (4 * 8) (ucast b) OR push_bit (3 * 8) (ucast c)
     OR push_bit (2 * 8) (ucast d) OR push_bit (1 * 8) (ucast e) OR push_bit (0 * 8) (ucast f)"

fun mac_less :: "mac_addr \<Rightarrow> mac_addr \<Rightarrow> bool" where
  "mac_less (Mac a0 a1 a2 a3 a4 a5) (Mac b0 b1 b2 b3 b4 b5) =
     (a0 < b0 \<or> a1 < b1 \<or> a2 < b2 \<or> a3 < b3 \<or> a4 < b4 \<or> a5 < b5)"

fun mac_eq :: "mac_addr \<Rightarrow> mac_addr \<Rightarrow> bool" where
  "mac_eq (Mac a0 a1 a2 a3 a4 a5) (Mac b0 b1 b2 b3 b4 b5) =
     (a0 = b0 \<and> a1 = b1 \<and> a2 = b2 \<and> a3 = b3 \<and> a4 = b4 \<and> a5 = b5)"

section \<open>Hashes\<close>

definition hash_ip4 :: "ip4_addr \<Rightarrow> u64" where
  "hash_ip4 a = ucast (to_uint32 a)"

definition hash_mac :: "mac_addr \<Rightarrow> u64" where
  "hash_mac a = mac_to_uint64 a"

section \<open>Lemmas\<close>

text \<open>
  Words of a fixed width are equal if they agree bit by bit; with the width a numeral the
  comparison is a finite conjunction that the simplifier evaluates.
\<close>

lemma upt_0_2: "2 \<le> n \<Longrightarrow> [0..<n] = 0 # 1 # [2..<n]"
  by (simp add: upt_conv_Cons numeral_2_eq_2)

lemma u8_eqI: "list_all (\<lambda>n. bit a n = bit (b :: u8) n) [0..<8] \<Longrightarrow> a = b"
  by (rule bit_word_eqI) (simp add: list_all_iff)

lemma u16_eqI: "list_all (\<lambda>n. bit a n = bit (b :: u16) n) [0..<16] \<Longrightarrow> a = b"
  by (rule bit_word_eqI) (simp add: list_all_iff)

lemma u32_eqI: "list_all (\<lambda>n. bit a n = bit (b :: u32) n) [0..<32] \<Longrightarrow> a = b"
  by (rule bit_word_eqI) (simp add: list_all_iff)

lemma u64_eqI: "list_all (\<lambda>n. bit a n = bit (b :: u64) n) [0..<64] \<Longrightarrow> a = b"
  by (rule bit_word_eqI) (simp add: list_all_iff)

lemma bit_u8_high: "8 \<le> n \<Longrightarrow> \<not> bit (w :: u8) n"
  using bit_imp_le_length [of w n] by auto

lemma byte_masks:
  "(0xff :: 'a::len word) = mask 8"
  "(0xff00 :: u16) = push_bit 8 (mask 8)"
  "(0xff000000 :: u32) = push_bit 24 (mask 8)"
  "(0x00ff0000 :: u32) = push_bit 16 (mask 8)"
  "(0x0000ff00 :: u32) = push_bit 8 (mask 8)"
  "(0xff00000000000000 :: u64) = push_bit 56 (mask 8)"
  "(0x00ff000000000000 :: u64) = push_bit 48 (mask 8)"
  "(0x0000ff0000000000 :: u64) = push_bit 40 (mask 8)"
  "(0x000000ff00000000 :: u64) = push_bit 32 (mask 8)"
  "(0x00000000ff000000 :: u64) = push_bit 24 (mask 8)"
  "(0x0000000000ff0000 :: u64) = push_bit 16 (mask 8)"
  "(0x000000000000ff00 :: u64) = push_bit 8 (mask 8)"
  by (simp_all add: mask_eq_exp_minus_1 push_bit_eq_mult)

lemma reverse_byte_order16_invol: "reverse_byte_order16 (reverse_byte_order16 a) = a"
  by (rule u16_eqI) (simp add: reverse_byte_order16_def bit_simps upt_0_2)

lemma reverse_byte_order32_invol: "reverse_byte_order32 (reverse_byte_order32 a) = a"
  by (rule u32_eqI) (simp add: reverse_byte_order32_def byte_masks bit_simps upt_0_2)

lemma from_host_of_to_uint32: "ip4_reverse_byte_order (from_host a) = from_net a"
  by (simp add: ip4_reverse_byte_order_def from_host_def from_net_def reverse_byte_order32_invol)

lemma mac_roundtrip: "mac_from_uint64 (mac_to_uint64 m) = m"
proof (cases m)
  case (Mac a b c d e f)
  show ?thesis unfolding Mac mac_to_uint64.simps mac_from_uint64_def mac_addr.inject
    by (intro conjI; rule u8_eqI) (simp_all add: bit_simps upt_0_2 bit_u8_high)
qed

lemma mac_to_uint64_of_from:
  "mac_to_uint64 (mac_from_uint64 a) = a AND mask 48"
  by (rule u64_eqI) (simp add: mac_from_uint64_def bit_simps upt_0_2)

text \<open>The bytes of the written prefix, and the words they are read back as.\<close>

lemma join_bytes16:
  "((push_bit 8 (scast (ucast (drop_bit 8 v AND 0xff) :: u8)) AND 0xff00)
   OR (push_bit 0 (scast (ucast (drop_bit 0 v AND 0xff) :: u8)) AND 0x00ff)) = (v :: u16)"
  by (rule u16_eqI) (simp add: byte_masks bit_simps upt_0_2)

lemma join_bytes32:
  "((push_bit 24 (scast (ucast (drop_bit 24 v AND 0xff) :: u8)) AND 0xff000000)
   OR (push_bit 16 (scast (ucast (drop_bit 16 v AND 0xff) :: u8)) AND 0x00ff0000)
   OR (push_bit 8 (scast (ucast (drop_bit 8 v AND 0xff) :: u8)) AND 0x0000ff00)
   OR (push_bit 0 (scast (ucast (drop_bit 0 v AND 0xff) :: u8)) AND 0x000000ff)) = (v :: u32)"
  by (rule u32_eqI) (simp add: byte_masks bit_simps upt_0_2)

lemma join_bytes64:
  "((push_bit 56 (scast (ucast (drop_bit 56 v AND 0xff) :: u8)) AND 0xff00000000000000)
   OR (push_bit 48 (scast (ucast (drop_bit 48 v AND 0xff) :: u8)) AND 0x00ff000000000000)
   OR (push_bit 40 (scast (ucast (drop_bit 40 v AND 0xff) :: u8)) AND 0x0000ff0000000000)
   OR (push_bit 32 (scast (ucast (drop_bit 32 v AND 0xff) :: u8)) AND 0x000000ff00000000)
   OR (push_bit 24 (scast (ucast (drop_bit 24 v AND 0xff) :: u8)) AND 0x00000000ff000000)
   OR (push_bit 16 (scast (ucast (drop_bit 16 v AND 0xff) :: u8)) AND 0x0000000000ff0000)
   OR (push_bit 8 (scast (ucast (drop_bit 8 v AND 0xff) :: u8)) AND 0x000000000000ff00)
   OR (push_bit 0 (scast (ucast (drop_bit 0 v AND 0xff) :: u8)) AND 0x00000000000000ff)) = (v :: u64)"
  by (rule u64_eqI) (simp add: byte_masks bit_simps upt_0_2)

lemma read_write_uint16:
  assumes "write_uint16 v buf = Inr (n, buf')"
  shows "read_uint16 buf' = Inr v \<and> n = 2 \<and> length buf' = length buf"
proof -
  have "\<not> length buf < 2" using assms by (auto simp: write_uint16_def split: if_splits)
  then have "buf \<noteq> []" "\<not> length buf < 2" by auto
  with assms show ?thesis
    using join_bytes16 [of v] by (auto simp: write_uint16_def read_uint16_def nth_list_update)
qed

lemma read_write_uint32:
  assumes "write_uint32 v buf = Inr (n, buf')"
  shows "read_uint32 buf' = Inr v \<and> n = 4 \<and> length buf' = length buf"
proof -
  have "\<not> length buf < 4" using assms by (auto simp: write_uint32_def split: if_splits)
  then have "buf \<noteq> []" "\<not> length buf < 4" by auto
  with assms show ?thesis
    using join_bytes32 [of v] by (auto simp: write_uint32_def read_uint32_def nth_list_update)
qed

lemma read_write_uint64:
  assumes "write_uint64 v buf = Inr (n, buf')"
  shows "read_uint64 buf' = Inr v \<and> n = 8 \<and> length buf' = length buf"
proof -
  have "\<not> length buf < 8" using assms by (auto simp: write_uint64_def split: if_splits)
  then have "buf \<noteq> []" "\<not> length buf < 8" by auto
  with assms show ?thesis
    using join_bytes64 [of v] by (auto simp: write_uint64_def read_uint64_def nth_list_update)
qed

text \<open>\<open>from_bytes\<close> stores the first byte most significant, \<open>to_string\<close> prints it last.\<close>

lemma from_bytes_octets:
  "ip4_octets (from_bytes a b c d) = [ucast d, ucast c, ucast b, ucast a]"
  unfolding ip4_octets_def from_bytes_def ip4_addr.sel byte_masks list.inject
  by (intro conjI; (rule u32_eqI)?) (simp_all add: bit_simps upt_0_2 bit_u8_high)

text \<open>An address is determined by its octets.\<close>

lemma ip4_octets_inject: "ip4_octets a = ip4_octets b \<longleftrightarrow> a = b"
proof
  assume eq: "ip4_octets a = ip4_octets b"
  have join: "ip_addr x = ip4_octets x ! 0 OR push_bit 8 (ip4_octets x ! 1)
      OR push_bit 16 (ip4_octets x ! 2) OR push_bit 24 (ip4_octets x ! 3)" for x
    by (rule u32_eqI) (simp add: ip4_octets_def byte_masks bit_simps upt_0_2)
  have "ip_addr a = ip_addr b" unfolding join eq ..
  then show "a = b" by (rule ip4_addr.expand)
qed simp

section \<open>Orders\<close>

text \<open>
  \<open>operator<\<close> of \<open>ip4_addr\<close> is a linear order, so addresses can be keys of ordered containers. The one of
  \<open>mac_addr\<close> is not an order at all: it compares the bytes by a disjunction.
\<close>

instantiation ip4_addr :: linorder
begin

definition less_ip4_addr :: "ip4_addr \<Rightarrow> ip4_addr \<Rightarrow> bool" where
  "less_ip4_addr = ip4_less"

definition less_eq_ip4_addr :: "ip4_addr \<Rightarrow> ip4_addr \<Rightarrow> bool" where
  "less_eq_ip4_addr a b \<longleftrightarrow> ip4_less a b \<or> a = b"

instance
  by standard (auto simp: less_ip4_addr_def less_eq_ip4_addr_def ip4_less_def intro: ip4_addr.expand)

end

lemma mac_less_not_asym: "mac_less (Mac 0 1 0 0 0 0) (Mac 1 0 0 0 0 0) \<and> mac_less (Mac 1 0 0 0 0 0) (Mac 0 1 0 0 0 0)"
  by simp

end
