(* ===== verification/Sub_Container.thy ===== *)
theory Sub_Container
  imports Local_Stats Om_Net
begin

text \<open>
  \<open>SubContainer.h\<close>, \<open>SubContainer.cpp\<close>: what the controller knows about one container (a cgroup on
  some node). \<open>ContainerId::operator==\<close> and the hash look at the cgroup id and the node address
  only; \<open>cid_key\<close> is that part of the identifier and the key of every map over containers.

  A \<open>system_clock::time_point\<close> is an integer number of nanoseconds. The mutexes of the class guard
  single accessors and carry no data.
\<close>

section \<open>Identifiers\<close>

record ContainerId =
  cid_cgroup_id :: u32
  cid_server_ip :: ip4_addr
  cid_docker_id :: string

definition ContainerId_default :: ContainerId where
  "ContainerId_default = \<lparr>cid_cgroup_id = 0, cid_server_ip = ip4_default, cid_docker_id = []\<rparr>"

definition ContainerId_new :: "u32 \<Rightarrow> ip4_addr \<Rightarrow> ContainerId" where
  "ContainerId_new cg ip = \<lparr>cid_cgroup_id = cg, cid_server_ip = ip, cid_docker_id = []\<rparr>"

definition ContainerId_of_string :: "(string \<Rightarrow> u32) \<Rightarrow> u32 \<Rightarrow> string \<Rightarrow> ContainerId result" where
  "ContainerId_of_string inet_addr cg ip =
     bind_r (from_string inet_addr ip) (\<lambda>a. Inr (ContainerId_new cg a))"

type_synonym cid_key_t = "u32 \<times> ip4_addr"

definition cid_key :: "ContainerId \<Rightarrow> cid_key_t" where
  "cid_key c = (cid_cgroup_id c, cid_server_ip c)"

definition cid_eq :: "ContainerId \<Rightarrow> ContainerId \<Rightarrow> bool" where
  "cid_eq a b \<longleftrightarrow> cid_cgroup_id a = cid_cgroup_id b \<and> cid_server_ip a = cid_server_ip b"

definition cid_hash :: "ContainerId \<Rightarrow> u64" where
  "cid_hash c = ucast (cid_cgroup_id c) XOR hash_ip4 (cid_server_ip c)"

section \<open>State and operations\<close>

record SubContainer =
  c_id :: ContainerId
  fd :: i32
  inserted :: bool
  cpu :: cpu_l
  mem :: mem_l
  quota_mismatch_counter :: i32
  counter :: i32
  last_seen_ts :: int

definition SubContainer_new :: "int \<Rightarrow> u32 \<Rightarrow> u32 \<Rightarrow> i32 \<Rightarrow> SubContainer" where
  "SubContainer_new now cg ip f = \<lparr>c_id = ContainerId_new cg (from_net ip), fd = f, inserted = False,
     cpu = cpu_l_default, mem = mem_l_new, quota_mismatch_counter = 0, counter = 0, last_seen_ts = now\<rparr>"

definition SubContainer_new_quota :: "int \<Rightarrow> u32 \<Rightarrow> u32 \<Rightarrow> i32 \<Rightarrow> u64 \<Rightarrow> u32 \<Rightarrow> SubContainer" where
  "SubContainer_new_quota now cg ip f q throttled = \<lparr>c_id = ContainerId_new cg (from_net ip), fd = f,
     inserted = False, cpu = cpu_l_new q throttled, mem = mem_l_new, quota_mismatch_counter = 0,
     counter = 0, last_seen_ts = now\<rparr>"

definition get_thr_incr_and_set_thr :: "u32 \<Rightarrow> SubContainer \<Rightarrow> u32 \<times> SubContainer" where
  "get_thr_incr_and_set_thr throttled sc =
     (let incr = get_throttle_increase throttled (cpu sc)
      in (incr, if incr \<noteq> 0 then sc\<lparr>cpu := cpu_set_throttled throttled (cpu sc)\<rparr> else sc))"

definition get_quota :: "SubContainer \<Rightarrow> u64" where
  "get_quota sc = quota (cpu sc)"

definition set_quota :: "u64 \<Rightarrow> SubContainer \<Rightarrow> SubContainer" where
  "set_quota q sc = sc\<lparr>cpu := cpu_set_quota q (cpu sc)\<rparr>"

definition sc_set_quota_flag :: "bool \<Rightarrow> SubContainer \<Rightarrow> SubContainer" where
  "sc_set_quota_flag b sc = sc\<lparr>cpu := set_set_quota_flag b (cpu sc)\<rparr>"

definition sc_flush :: "SubContainer \<Rightarrow> SubContainer" where
  "sc_flush sc = sc\<lparr>cpu := cpu_flush (cpu sc)\<rparr>"

definition set_docker_id :: "string \<Rightarrow> SubContainer \<Rightarrow> SubContainer" where
  "set_docker_id d sc = sc\<lparr>c_id := (c_id sc)\<lparr>cid_docker_id := d\<rparr>\<rparr>"

definition incr_counter :: "SubContainer \<Rightarrow> SubContainer" where
  "incr_counter sc = sc\<lparr>counter := counter sc + 1\<rparr>"

definition get_mem_limit_in_pages :: "SubContainer \<Rightarrow> u64" where
  "get_mem_limit_in_pages sc = mem_limit_in_pages (mem sc)"

definition set_mem_limit_in_pages :: "u64 \<Rightarrow> SubContainer \<Rightarrow> SubContainer" where
  "set_mem_limit_in_pages n sc = sc\<lparr>mem := mem_set_limit n (mem sc)\<rparr>"

definition sc_incr_mem_limit :: "u64 \<Rightarrow> SubContainer \<Rightarrow> SubContainer" where
  "sc_incr_mem_limit n sc = sc\<lparr>mem := incr_mem_limit n (mem sc)\<rparr>"

definition sc_decr_mem_limit :: "u64 \<Rightarrow> SubContainer \<Rightarrow> SubContainer" where
  "sc_decr_mem_limit n sc = sc\<lparr>mem := decr_mem_limit n (mem sc)\<rparr>"

definition set_sc_inserted :: "bool \<Rightarrow> SubContainer \<Rightarrow> SubContainer" where
  "set_sc_inserted b sc = sc\<lparr>inserted := b\<rparr>"

definition incr_cpustat_seq_num :: "SubContainer \<Rightarrow> SubContainer" where
  "incr_cpustat_seq_num sc = sc\<lparr>cpu := incr_seq_num (cpu sc)\<rparr>"

definition set_cpustat_seq_num :: "u64 \<Rightarrow> SubContainer \<Rightarrow> SubContainer" where
  "set_cpustat_seq_num v sc = sc\<lparr>cpu := set_seq_num v (cpu sc)\<rparr>"

definition get_seq_num :: "SubContainer \<Rightarrow> u64" where
  "get_seq_num sc = seq_num (cpu sc)"

text \<open>The post-increment: the value returned is the one before.\<close>

definition incr_quota_mismatch_counter :: "SubContainer \<Rightarrow> i32 \<times> SubContainer" where
  "incr_quota_mismatch_counter sc =
     (quota_mismatch_counter sc, sc\<lparr>quota_mismatch_counter := quota_mismatch_counter sc + 1\<rparr>)"

definition reset_quota_mismatch_counter :: "SubContainer \<Rightarrow> SubContainer" where
  "reset_quota_mismatch_counter sc = sc\<lparr>quota_mismatch_counter := 0\<rparr>"

text \<open>\<open>duration_cast\<close> to microseconds truncates towards zero.\<close>

definition check_if_idle :: "int \<Rightarrow> SubContainer \<Rightarrow> bool" where
  "check_if_idle now sc =
     (let d = now - last_seen_ts sc; time_diff = (if 0 \<le> d then d div 1000 else - (- d div 1000))
      in 2000000 < time_diff)"

definition update_last_seen_ts :: "int \<Rightarrow> SubContainer \<Rightarrow> SubContainer" where
  "update_last_seen_ts now sc = sc\<lparr>last_seen_ts := now\<rparr>"

section \<open>Lemmas\<close>

lemma cid_eq_iff_key: "cid_eq a b \<longleftrightarrow> cid_key a = cid_key b"
  by (simp add: cid_eq_def cid_key_def)

lemma cid_key_simps [simp]:
  "cid_key (ContainerId_new cg ip) = (cg, ip)"
  "cid_key (c\<lparr>cid_docker_id := d\<rparr>) = cid_key c"
  by (simp_all add: cid_key_def ContainerId_new_def)

lemmas sc_defs [state_defs] = set_quota_def sc_set_quota_flag_def sc_flush_def set_docker_id_def
  set_mem_limit_in_pages_def set_sc_inserted_def incr_cpustat_seq_num_def set_cpustat_seq_num_def
  reset_quota_mismatch_counter_def update_last_seen_ts_def get_quota_def get_seq_num_def
  get_mem_limit_in_pages_def

text \<open>No update of a container changes the key it is filed under.\<close>

lemma c_id_key_frames [simp]:
  "cid_key (c_id (set_quota q sc)) = cid_key (c_id sc)"
  "cid_key (c_id (sc_set_quota_flag b sc)) = cid_key (c_id sc)"
  "cid_key (c_id (sc_flush sc)) = cid_key (c_id sc)"
  "cid_key (c_id (set_docker_id d sc)) = cid_key (c_id sc)"
  "cid_key (c_id (set_mem_limit_in_pages n sc)) = cid_key (c_id sc)"
  "cid_key (c_id (set_sc_inserted b sc)) = cid_key (c_id sc)"
  "cid_key (c_id (incr_cpustat_seq_num sc)) = cid_key (c_id sc)"
  "cid_key (c_id (set_cpustat_seq_num v sc)) = cid_key (c_id sc)"
  "cid_key (c_id (reset_quota_mismatch_counter sc)) = cid_key (c_id sc)"
  "cid_key (c_id (update_last_seen_ts t sc)) = cid_key (c_id sc)"
  "cid_key (c_id (snd (incr_quota_mismatch_counter sc))) = cid_key (c_id sc)"
  by (simp_all add: state_defs incr_quota_mismatch_counter_def)

lemma get_quota_frames [simp]:
  "get_quota (set_quota q sc) = q"
  "get_quota (sc_set_quota_flag b sc) = get_quota sc"
  "get_quota (sc_flush sc) = get_quota sc"
  "get_quota (set_docker_id d sc) = get_quota sc"
  "get_quota (set_mem_limit_in_pages n sc) = get_quota sc"
  "get_quota (set_sc_inserted b sc) = get_quota sc"
  "get_quota (incr_cpustat_seq_num sc) = get_quota sc"
  "get_quota (set_cpustat_seq_num v sc) = get_quota sc"
  "get_quota (reset_quota_mismatch_counter sc) = get_quota sc"
  "get_quota (update_last_seen_ts t sc) = get_quota sc"
  "get_quota (snd (incr_quota_mismatch_counter sc)) = get_quota sc"
  by (simp_all add: state_defs incr_quota_mismatch_counter_def)

lemma inserted_frames [simp]:
  "inserted (set_quota q sc) = inserted sc"
  "inserted (sc_set_quota_flag b sc) = inserted sc"
  "inserted (sc_flush sc) = inserted sc"
  "inserted (set_docker_id d sc) = inserted sc"
  "inserted (set_mem_limit_in_pages n sc) = inserted sc"
  "inserted (set_sc_inserted b sc) = b"
  "inserted (incr_cpustat_seq_num sc) = inserted sc"
  "inserted (set_cpustat_seq_num v sc) = inserted sc"
  "inserted (reset_quota_mismatch_counter sc) = inserted sc"
  "inserted (update_last_seen_ts t sc) = inserted sc"
  "inserted (snd (incr_quota_mismatch_counter sc)) = inserted sc"
  by (simp_all add: state_defs incr_quota_mismatch_counter_def)

text \<open>Equal identifiers hash alike, as \<open>std::unordered_map\<close> requires.\<close>

lemma cid_hash_respects_eq: "cid_eq a b \<Longrightarrow> cid_hash a = cid_hash b"
  by (simp add: cid_eq_def cid_hash_def)

text \<open>Idle means that more than two seconds (and a full microsecond) have passed.\<close>

lemma check_if_idle_iff: "check_if_idle now sc \<longleftrightarrow> 2000001000 \<le> now - last_seen_ts sc"
  unfolding check_if_idle_def Let_def by auto

end
