(* ===== verification/Json_Facade.thy ===== *)
theory Json_Facade
  imports Gcm_Prelude
begin

text \<open>
  \<open>jsonSDK/src/JSONFacade.cpp\<close> and \<open>cAdvisorSDK/src/cAdvisorFacade.cpp\<close>: reading the configuration
  file and asking a node's cAdvisor service about a container.

  The JSON and HTTP library (cpprest) is not part of the sources. Its values are the type
  parameter \<open>'v\<close> and the functions that are called on them are the fields of \<open>'v json_lib\<close>; each
  that can throw returns a \<open>result\<close>. The outcome of a GET request is an argument
  (\<open>'v http_outcome\<close>), a function of the events so far and of the URL.
\<close>

section \<open>What is used of cpprest\<close>

record 'v json_lib =
  js_null :: 'v
  js_is_null :: "'v \<Rightarrow> bool"
  js_parse :: "string \<Rightarrow> 'v result"
  js_serialize :: "'v \<Rightarrow> string"
  js_as_object :: "'v \<Rightarrow> (string \<times> 'v) list result"
  js_at :: "'v \<Rightarrow> string \<Rightarrow> 'v result"
  js_as_array :: "'v \<Rightarrow> 'v list result"
  js_as_string :: "'v \<Rightarrow> string result"
  js_as_integer :: "'v \<Rightarrow> i32 result"
  js_to_uint64 :: "'v \<Rightarrow> u64 result"

text \<open>
  A GET request ends with a response (a status code and the outcome of \<open>extract_json\<close>, \<open>None\<close> for
  an \<open>http_exception\<close>), with an \<open>http_exception\<close>, or with an exception of another kind.
\<close>

datatype 'v http_outcome =
    Http_Response u16 "'v option"
  | Http_Exception
  | Other_Exception

section \<open>Requests\<close>

definition getJSONRequest :: "'v json_lib \<Rightarrow> (string \<Rightarrow> 'v http_outcome) \<Rightarrow> string \<Rightarrow> string result" where
  "getJSONRequest js http url =
     bind_r (case http url of
               Http_Response status body \<Rightarrow>
                 Inr (if status = 200 then (case body of Some v \<Rightarrow> v | None \<Rightarrow> js_null js) else js_null js)
             | Http_Exception \<Rightarrow> Inr (js_null js)
             | Other_Exception \<Rightarrow> Inl Uncaught_Exception)
       (\<lambda>json_return. Inr (if js_is_null js json_return then [] else js_serialize js json_return))"

text \<open>\<open>as_object().cbegin()->second\<close>: of an empty object the end iterator is dereferenced.\<close>

definition js_first_member :: "'v json_lib \<Rightarrow> 'v \<Rightarrow> 'v result" where
  "js_first_member js v = bind_r (js_as_object js v) (\<lambda>ms. case ms of
     [] \<Rightarrow> Inl Undefined_Behaviour
   | (name, x) # _ \<Rightarrow> Inr x)"

definition parseCAdvisorResponseSpecs :: "'v json_lib \<Rightarrow> string \<Rightarrow> string \<Rightarrow> string \<Rightarrow> u64 result" where
  "parseCAdvisorResponseSpecs js jsonResp resource ty =
     bind_r (js_parse js jsonResp) (\<lambda>v. bind_r (js_first_member js v) (\<lambda>k.
     bind_r (js_at js k ''spec'') (\<lambda>a. bind_r (js_at js a resource) (\<lambda>b.
     bind_r (js_at js b ty) (js_to_uint64 js)))))"

text \<open>\<open>as_array().at(len-1)\<close>: on an empty array the index wraps and \<open>at\<close> throws.\<close>

definition js_last :: "'v list \<Rightarrow> 'v result" where
  "js_last vs = (if vs = [] then Inl Uncaught_Exception else Inr (vs ! (length vs - 1)))"

definition parseCAdvisorCPUResponseStats :: "'v json_lib \<Rightarrow> string \<Rightarrow> string \<Rightarrow> string \<Rightarrow> u64 result" where
  "parseCAdvisorCPUResponseStats js jsonResp resource ty =
     bind_r (js_parse js jsonResp) (\<lambda>v. bind_r (js_first_member js v) (\<lambda>k.
     bind_r (js_at js k ''stats'') (\<lambda>st. bind_r (js_as_array js st) (\<lambda>vs. bind_r (js_last vs) (\<lambda>lst.
     bind_r (js_at js lst resource) (\<lambda>a. bind_r (js_at js a ''cfs'') (\<lambda>b.
     bind_r (js_at js b ty) (js_to_uint64 js))))))))"

definition parseCAdvisorResponseStats :: "'v json_lib \<Rightarrow> string \<Rightarrow> string \<Rightarrow> string \<Rightarrow> u64 result" where
  "parseCAdvisorResponseStats js jsonResp resource ty =
     bind_r (js_parse js jsonResp) (\<lambda>v. bind_r (js_first_member js v) (\<lambda>k.
     bind_r (js_at js k ''stats'') (\<lambda>st. bind_r (js_as_array js st) (\<lambda>vs. bind_r (js_last vs) (\<lambda>lst.
     bind_r (js_at js lst resource) (\<lambda>a.
     bind_r (js_at js a ty) (js_to_uint64 js)))))))"

definition parseCAdvisorMachineStats :: "'v json_lib \<Rightarrow> string \<Rightarrow> string \<Rightarrow> u64 result" where
  "parseCAdvisorMachineStats js jsonResp ty =
     bind_r (js_parse js jsonResp) (\<lambda>v. bind_r (js_at js v ty) (js_to_uint64 js))"

section \<open>cAdvisor\<close>

definition docker_url :: "string \<Rightarrow> string \<Rightarrow> string" where
  "docker_url agent_ip docker_container_id =
     ''http://'' @ agent_ip @ '':8080/api/v1.3/docker/'' @ docker_container_id"

definition cadvisor_query ::
  "'v json_lib \<Rightarrow> (string \<Rightarrow> 'v http_outcome) \<Rightarrow> string \<Rightarrow> (string \<Rightarrow> u64 result) \<Rightarrow> u64 result" where
  "cadvisor_query js http url parse =
     bind_r (getJSONRequest js http url) (\<lambda>res. if res = [] then Inr 0 else parse res)"

definition getContCPUThrottledPeriods ::
  "'v json_lib \<Rightarrow> (string \<Rightarrow> 'v http_outcome) \<Rightarrow> string \<Rightarrow> string \<Rightarrow> u64 result" where
  "getContCPUThrottledPeriods js http ip dock = cadvisor_query js http (docker_url ip dock)
     (\<lambda>res. parseCAdvisorCPUResponseStats js res ''cpu'' ''throttled_periods'')"

definition getContCPUQuota ::
  "'v json_lib \<Rightarrow> (string \<Rightarrow> 'v http_outcome) \<Rightarrow> string \<Rightarrow> string \<Rightarrow> u64 result" where
  "getContCPUQuota js http ip dock = cadvisor_query js http (docker_url ip dock)
     (\<lambda>res. parseCAdvisorResponseSpecs js res ''cpu'' ''quota'')"

definition getContCPUShares ::
  "'v json_lib \<Rightarrow> (string \<Rightarrow> 'v http_outcome) \<Rightarrow> string \<Rightarrow> string \<Rightarrow> u64 result" where
  "getContCPUShares js http ip dock = cadvisor_query js http (docker_url ip dock)
     (\<lambda>res. parseCAdvisorResponseSpecs js res ''cpu'' ''limit'')"

definition getContMemLimit ::
  "'v json_lib \<Rightarrow> (string \<Rightarrow> 'v http_outcome) \<Rightarrow> string \<Rightarrow> string \<Rightarrow> u64 result" where
  "getContMemLimit js http ip dock = cadvisor_query js http (docker_url ip dock)
     (\<lambda>res. parseCAdvisorResponseSpecs js res ''memory'' ''limit'')"

definition getContMemUsage ::
  "'v json_lib \<Rightarrow> (string \<Rightarrow> 'v http_outcome) \<Rightarrow> string \<Rightarrow> string \<Rightarrow> u64 result" where
  "getContMemUsage js http ip dock = cadvisor_query js http (docker_url ip dock)
     (\<lambda>res. parseCAdvisorResponseStats js res ''memory'' ''usage'')"

definition getMachineFreeMem ::
  "'v json_lib \<Rightarrow> (string \<Rightarrow> 'v http_outcome) \<Rightarrow> string \<Rightarrow> u64 result" where
  "getMachineFreeMem js http ip = cadvisor_query js http (''http://'' @ ip @ '':8080/api/v1.3/machine'')
     (\<lambda>res. parseCAdvisorMachineStats js res ''memory_free'')"

section \<open>The configuration file\<close>

text \<open>
  The members \<open>main\<close> reads. A field that is not yet written holds an indeterminate value (the
  integers) or is empty; \<open>parseFile\<close> writes all of them, or fails, or skips all of them where
  the file holds the JSON value \<open>null\<close>.
\<close>

record 'v json_config =
  jc_val :: 'v
  app_name :: string
  agent_ips :: "string list"
  gcm_ip_str :: string
  num_tenants :: i32
  num_containers :: i32

definition parseAppName :: "'v json_lib \<Rightarrow> 'v json_config \<Rightarrow> 'v json_config result" where
  "parseAppName js c = (if js_is_null js (jc_val c) then Inr c
     else bind_r (js_at js (jc_val c) ''name'') (\<lambda>v. bind_r (js_as_string js v) (\<lambda>s.
          Inr (c\<lparr>app_name := s\<rparr>))))"

fun push_strings :: "'v json_lib \<Rightarrow> 'v list \<Rightarrow> string list \<Rightarrow> string list result" where
  "push_strings js [] acc = Inr acc"
| "push_strings js (v # vs) acc = bind_r (js_as_string js v) (\<lambda>s. push_strings js vs (acc @ [s]))"

definition parseIPAddresses :: "'v json_lib \<Rightarrow> 'v json_config \<Rightarrow> 'v json_config result" where
  "parseIPAddresses js c = (if js_is_null js (jc_val c) then Inr c
     else bind_r (js_at js (jc_val c) ''agentIPs'') (\<lambda>v. bind_r (js_as_array js v) (\<lambda>vs.
          bind_r (push_strings js vs (agent_ips c)) (\<lambda>ips. Inr (c\<lparr>agent_ips := ips\<rparr>)))))"

definition parseGCMIPAddress :: "'v json_lib \<Rightarrow> 'v json_config \<Rightarrow> 'v json_config result" where
  "parseGCMIPAddress js c = (if js_is_null js (jc_val c) then Inr c
     else bind_r (js_at js (jc_val c) ''gcmIP'') (\<lambda>v. bind_r (js_as_string js v) (\<lambda>s.
          Inr (c\<lparr>gcm_ip_str := s\<rparr>))))"

definition parseNumTenants :: "'v json_lib \<Rightarrow> 'v json_config \<Rightarrow> 'v json_config result" where
  "parseNumTenants js c = (if js_is_null js (jc_val c) then Inr c
     else bind_r (js_at js (jc_val c) ''tenants'') (\<lambda>v. bind_r (js_as_integer js v) (\<lambda>n.
          Inr (c\<lparr>num_tenants := n\<rparr>))))"

definition parseNumContainers :: "'v json_lib \<Rightarrow> 'v json_config \<Rightarrow> 'v json_config result" where
  "parseNumContainers js c = (if js_is_null js (jc_val c) then Inr c
     else bind_r (js_at js (jc_val c) ''num_containers'') (\<lambda>v. bind_r (js_as_integer js v) (\<lambda>n.
          Inr (c\<lparr>num_containers := n\<rparr>))))"

text \<open>
  \<open>parseFile\<close> catches every exception and returns \<open>__ERROR__\<close>; the object then keeps what was
  written before the throw, which no caller reads. \<open>content\<close> is the text of the file, empty
  where the file cannot be opened.
\<close>

definition parse_members :: "'v json_lib \<Rightarrow> 'v json_config \<Rightarrow> 'v json_config result" where
  "parse_members js c =
     bind_r (parseAppName js c) (\<lambda>c. bind_r (parseIPAddresses js c) (\<lambda>c.
     bind_r (parseGCMIPAddress js c) (\<lambda>c. bind_r (parseNumTenants js c) (parseNumContainers js))))"

definition parseFile :: "'v json_lib \<Rightarrow> string \<Rightarrow> 'v json_config \<Rightarrow> i32 \<times> 'v json_config" where
  "parseFile js content c =
     (case bind_r (js_parse js content) (\<lambda>v. parse_members js (c\<lparr>jc_val := v\<rparr>)) of
        Inl e \<Rightarrow> (- 1, c) | Inr c' \<Rightarrow> (0, c'))"

section \<open>Lemmas\<close>

text \<open>A node whose cAdvisor does not answer with a document is reported as zero.\<close>

lemma getJSONRequest_no_document:
  assumes "js_is_null js (js_null js)"
    and "http url = Http_Exception \<or> (\<exists>st b. http url = Http_Response st b \<and> (st \<noteq> 200 \<or> b = None))"
  shows "getJSONRequest js http url = Inr []"
  using assms by (auto simp: getJSONRequest_def)

lemma cadvisor_query_no_document:
  assumes "js_is_null js (js_null js)"
    and "http url = Http_Exception \<or> (\<exists>st b. http url = Http_Response st b \<and> (st \<noteq> 200 \<or> b = None))"
  shows "cadvisor_query js http url parse = Inr 0"
  using getJSONRequest_no_document [of js http url] assms by (simp add: cadvisor_query_def)

lemma cadvisor_query_document:
  assumes "http url = Http_Response 200 (Some v)" and "\<not> js_is_null js v" and "js_serialize js v \<noteq> []"
  shows "cadvisor_query js http url parse = parse (js_serialize js v)"
  using assms by (simp add: cadvisor_query_def getJSONRequest_def)

lemma push_strings_append:
  "push_strings js vs acc = Inr r \<Longrightarrow> \<exists>ss. r = acc @ ss \<and> length ss = length vs"
proof (induction vs arbitrary: acc)
  case (Cons v vs)
  then obtain s where "js_as_string js v = Inr s" "push_strings js vs (acc @ [s]) = Inr r"
    by (auto simp: bind_r_eq_Inr)
  with Cons.IH [of "acc @ [s]"] show ?case by fastforce
qed simp

text \<open>\<open>parseFile\<close> reports success exactly when every member was read.\<close>

lemma parseFile_ok_iff:
  "fst (parseFile js content c) = 0 \<longleftrightarrow>
     (\<exists>v c'. js_parse js content = Inr v \<and> parse_members js (c\<lparr>jc_val := v\<rparr>) = Inr c')"
  by (cases "js_parse js content") (auto simp: parseFile_def split: sum.splits)

end
