(* ===== verification/Agent_Clients.thy ===== *)
theory Agent_Clients
  imports Om_Net Json_Facade
begin

text \<open>
  \<open>Agents/Agent.h\<close>, \<open>AgentClient.h\<close>, \<open>AgentClient.cpp\<close>, \<open>AgentClientDB.h\<close>, \<open>AgentClientDB.cpp\<close>:
  the controller's side of the RPC connection to the agent on each node, and the directory of
  these connections by node address.

  gRPC and the agents are outside the sources. Every request that leaves the controller is
  appended to an event log, and what comes back is a function of the log up to and including the
  request (\<open>'v agent_env\<close>), so that the environment may answer every request differently:
  \<^item> \<open>quota_status\<close>: the status code that \<open>updateContainerQuota\<close> reads right after starting the
    asynchronous call (zero until the call has failed);
  \<^item> \<open>resize_ok\<close> and \<open>resize_errorcode\<close>: how the resize call, whose completion
    \<open>resizeMemoryLimitPages\<close> waits for, ends;
  \<^item> \<open>usage_reply\<close>, \<open>limit_reply\<close>: what the reply message holds when it is read right after the call
    was started (zero unless the reply has already arrived);
  \<^item> \<open>http\<close>: the outcome of a GET request to cAdvisor.

  The threads that drain the completion queues only log and free the call objects; they, and threads
  that use one client at the same time, are the subject of \<open>Agent_Calls\<close>.
\<close>

section \<open>Agents and their clients\<close>

record Agent =
  ag_ip :: ip4_addr
  ag_port :: u16
  ag_sockfd :: i32

definition Agent_new :: "(string \<Rightarrow> u32) \<Rightarrow> string \<Rightarrow> Agent result" where
  "Agent_new inet_addr s =
     bind_r (from_string inet_addr s) (\<lambda>a. Inr \<lparr>ag_ip = a, ag_port = 4448, ag_sockfd = 0\<rparr>)"

definition ag_set_port :: "u16 \<Rightarrow> Agent \<Rightarrow> Agent" where
  "ag_set_port p a = a\<lparr>ag_port := p\<rparr>"

definition ag_set_sockfd :: "i32 \<Rightarrow> Agent \<Rightarrow> Agent" where
  "ag_set_sockfd f a = a\<lparr>ag_sockfd := f\<rparr>"

text \<open>Clients are compared by address, \<open>ac_ptr\<close>.\<close>

record AgentClient =
  ac_ptr :: nat
  ac_agent :: Agent
  ac_test_cc :: i32

definition AgentClient_new :: "nat \<Rightarrow> Agent \<Rightarrow> AgentClient" where
  "AgentClient_new p a = \<lparr>ac_ptr = p, ac_agent = a, ac_test_cc = 0\<rparr>"

definition get_agent_ip :: "AgentClient \<Rightarrow> ip4_addr" where
  "get_agent_ip c = ag_ip (ac_agent c)"

definition get_agent_port :: "AgentClient \<Rightarrow> u16" where
  "get_agent_port c = ag_port (ac_agent c)"

definition ac_hash :: "AgentClient \<Rightarrow> u64" where
  "ac_hash c = hash_ip4 (get_agent_ip c) XOR ucast (get_agent_port c)"

section \<open>Requests\<close>

datatype event =
    Req_Quota_Update nat i32 u64 string i32
  | Req_Resize_Max_Mem nat i32 u64
  | Req_Read_Mem_Usage nat i32
  | Req_Read_Mem_Limit nat i32
  | Http_Get string

record 'v agent_env =
  json :: "'v json_lib"
  http :: "event list \<Rightarrow> string \<Rightarrow> 'v http_outcome"
  quota_status :: "event list \<Rightarrow> i32"
  resize_ok :: "event list \<Rightarrow> bool"
  resize_errorcode :: "event list \<Rightarrow> i32"
  usage_reply :: "event list \<Rightarrow> i64"
  limit_reply :: "event list \<Rightarrow> i64"

definition updateContainerQuota ::
  "'v agent_env \<Rightarrow> AgentClient \<Rightarrow> u32 \<Rightarrow> u64 \<Rightarrow> string \<Rightarrow> u32 \<Rightarrow> event list \<Rightarrow> i32 \<times> event list" where
  "updateContainerQuota env ac cg new_quota change seq l =
     (let l' = l @ [Req_Quota_Update (ac_ptr ac) cg new_quota change seq] in (quota_status env l', l'))"

text \<open>
  When the resize call fails, the loop frees the call object and waits for the next completion,
  which never comes: the queue holds this call only and is never shut down. \<open>Agent_Calls.resize_alone\<close>
  derives this from the loop; what happens when two threads resize at once is shown there, too.
\<close>

definition resizeMemoryLimitPages ::
  "'v agent_env \<Rightarrow> AgentClient \<Rightarrow> u32 \<Rightarrow> u64 \<Rightarrow> event list \<Rightarrow> (i64 \<times> event list) result" where
  "resizeMemoryLimitPages env ac cg new_mem_limit l =
     (let l' = l @ [Req_Resize_Max_Mem (ac_ptr ac) cg new_mem_limit] in
      if resize_ok env l' then Inr (scast (resize_errorcode env l'), l') else Inl Never_Returns)"

definition getMemoryUsageBytes ::
  "'v agent_env \<Rightarrow> AgentClient \<Rightarrow> u32 \<Rightarrow> event list \<Rightarrow> i64 \<times> event list" where
  "getMemoryUsageBytes env ac cg l =
     (let l' = l @ [Req_Read_Mem_Usage (ac_ptr ac) cg] in (usage_reply env l', l'))"

definition getMemoryLimitBytes ::
  "'v agent_env \<Rightarrow> AgentClient \<Rightarrow> u32 \<Rightarrow> event list \<Rightarrow> i64 \<times> event list" where
  "getMemoryLimitBytes env ac cg l =
     (let l' = l @ [Req_Read_Mem_Limit (ac_ptr ac) cg] in (limit_reply env l', l'))"

section \<open>The directory\<close>

type_synonym AgentClientDB = "(ip4_addr \<times> AgentClient) list"

abbreviation db_find :: "AgentClientDB \<Rightarrow> ip4_addr \<Rightarrow> AgentClient option" where
  "db_find db ip \<equiv> um_find id db ip"

text \<open>The singleton: the instance is created on first use.\<close>

definition get_agent_client_db_instance :: "AgentClientDB option \<Rightarrow> AgentClientDB" where
  "get_agent_client_db_instance inst = (case inst of None \<Rightarrow> [] | Some db \<Rightarrow> db)"

definition add_agent_client :: "AgentClient \<Rightarrow> AgentClientDB \<Rightarrow> AgentClientDB" where
  "add_agent_client ac db =
     (if db_find db (get_agent_ip ac) \<noteq> None then db else um_insert id (get_agent_ip ac) ac db)"

definition remove_agent_client :: "AgentClient \<Rightarrow> AgentClientDB \<Rightarrow> AgentClientDB" where
  "remove_agent_client ac db = um_erase id (get_agent_ip ac) db"

definition get_agent_client_by_ip :: "AgentClientDB \<Rightarrow> ip4_addr \<Rightarrow> AgentClient option" where
  "get_agent_client_by_ip db ip = db_find db ip"

definition get_agent_clients_db_size :: "AgentClientDB \<Rightarrow> u32" where
  "get_agent_clients_db_size db = of_nat (length db)"

section \<open>The directory is a first-wins store\<close>

text \<open>
  The invariant of the directory: one entry per address, and every client is filed under the
  address of its own agent.
\<close>

definition db_wf :: "AgentClientDB \<Rightarrow> bool" where
  "db_wf db \<longleftrightarrow> um_wf id db \<and> (\<forall>e \<in> set db. fst e = get_agent_ip (snd e))"

lemma add_agent_client_eq: "add_agent_client ac db = um_insert id (get_agent_ip ac) ac db"
  by (auto simp: add_agent_client_def um_insert_def split: option.splits)

lemma db_wf_Nil [simp]: "db_wf []"
  by (simp add: db_wf_def um_simps)

lemma db_wf_add: "db_wf db \<Longrightarrow> db_wf (add_agent_client ac db)"
  unfolding db_wf_def add_agent_client_eq
  by (auto intro: um.invar_insert_new) (auto simp: um_insert_def split: option.splits)

lemma db_wf_remove: "db_wf db \<Longrightarrow> db_wf (remove_agent_client ac db)"
  unfolding db_wf_def remove_agent_client_def
  by (auto intro: um.invar_erase) (auto simp: um_erase_def)

text \<open>
  Lookups after registration and removal, from the contract of the map: the first client
  registered for an address stays until it is removed.
\<close>

lemma get_after_add:
  "get_agent_client_by_ip (add_agent_client ac db) ip =
     (if ip = get_agent_ip ac then
        (case get_agent_client_by_ip db ip of None \<Rightarrow> Some ac | Some c \<Rightarrow> Some c)
      else get_agent_client_by_ip db ip)"
  by (simp add: get_agent_client_by_ip_def add_agent_client_eq um_simps)

lemma get_after_remove:
  "get_agent_client_by_ip (remove_agent_client ac db) ip =
     (if ip = get_agent_ip ac then None else get_agent_client_by_ip db ip)"
  by (simp add: get_agent_client_by_ip_def remove_agent_client_def um_simps)

lemma get_agent_client_ip: "db_wf db \<Longrightarrow> get_agent_client_by_ip db ip = Some ac \<Longrightarrow> get_agent_ip ac = ip"
  unfolding get_agent_client_by_ip_def db_wf_def by (force dest: um_find_in_set)

lemma length_add_agent_client:
  "length (add_agent_client ac db) =
     length db + (if get_agent_client_by_ip db (get_agent_ip ac) = None then 1 else 0)"
  by (auto simp: add_agent_client_def get_agent_client_by_ip_def um_insert_def)

end
