(* ===== verification/Global_Stats.thy ===== *)
theory Global_Stats
  imports Gcm_Prelude
begin

text \<open>
  \<open>stats/global/cpu_g.h\<close>, \<open>cpu_g.cpp\<close>, \<open>mem_g.h\<close>, \<open>mem_g.cpp\<close>: the CPU and memory pools of one
  elastic container. Every accessor of the C++ classes takes the mutex of the field it touches,
  so each is one atomic operation on that field; the mutexes themselves carry no data.

  The decrements test the sign of a two's complement difference and clamp at zero; each of the
  counters is an interpretation of \<open>signed_clamp_counter\<close> (or of \<open>unsigned_clamp_counter\<close> for the
  memory limit, whose decrement compares unsigned).
\<close>

section \<open>CPU pool\<close>

record cpu_g =
  slice_size :: u64
  unallocated_rt :: u64
  total_cpu :: u64
  overrun :: u64
  alloc_rt :: u64

definition cpu_g_default :: cpu_g where
  "cpu_g_default = \<lparr>slice_size = 30000000, unallocated_rt = 0, total_cpu = 0, overrun = 0, alloc_rt = 0\<rparr>"

definition cpu_g_new :: "u64 \<Rightarrow> cpu_g" where
  "cpu_g_new sl =
     \<lparr>slice_size = sl, unallocated_rt = 0, total_cpu = 0, overrun = 0, alloc_rt = 0\<rparr>"

definition cpu_set_slice_size :: "u64 \<Rightarrow> cpu_g \<Rightarrow> cpu_g" where
  "cpu_set_slice_size n c = c\<lparr>slice_size := n\<rparr>"

definition cpu_decr_unallocated_rt :: "u64 \<Rightarrow> cpu_g \<Rightarrow> cpu_g" where
  "cpu_decr_unallocated_rt n c =
     (if sint (unallocated_rt c - n) < 0 then c\<lparr>unallocated_rt := 0\<rparr>
      else c\<lparr>unallocated_rt := unallocated_rt c - n\<rparr>)"

definition cpu_incr_unallocated_rt :: "u64 \<Rightarrow> cpu_g \<Rightarrow> cpu_g" where
  "cpu_incr_unallocated_rt n c = c\<lparr>unallocated_rt := unallocated_rt c + n\<rparr>"

definition cpu_set_unallocated_rt :: "u64 \<Rightarrow> cpu_g \<Rightarrow> cpu_g" where
  "cpu_set_unallocated_rt n c = c\<lparr>unallocated_rt := n\<rparr>"

definition cpu_set_total_cpu :: "u64 \<Rightarrow> cpu_g \<Rightarrow> cpu_g" where
  "cpu_set_total_cpu n c = c\<lparr>total_cpu := n\<rparr>"

definition cpu_incr_total_cpu :: "u64 \<Rightarrow> cpu_g \<Rightarrow> cpu_g" where
  "cpu_incr_total_cpu n c = c\<lparr>total_cpu := total_cpu c + n\<rparr>"

definition cpu_decr_total_cpu :: "u64 \<Rightarrow> cpu_g \<Rightarrow> cpu_g" where
  "cpu_decr_total_cpu n c =
     (if sint (total_cpu c - n) < 0 then c\<lparr>total_cpu := 0\<rparr> else c\<lparr>total_cpu := total_cpu c - n\<rparr>)"

definition cpu_incr_overrun :: "u64 \<Rightarrow> cpu_g \<Rightarrow> cpu_g" where
  "cpu_incr_overrun n c = c\<lparr>overrun := overrun c + n\<rparr>"

definition cpu_decr_overrun :: "u64 \<Rightarrow> cpu_g \<Rightarrow> cpu_g" where
  "cpu_decr_overrun n c =
     (if sint (overrun c - n) < 0 then c\<lparr>overrun := 0\<rparr> else c\<lparr>overrun := overrun c - n\<rparr>)"

definition cpu_set_overrun :: "u64 \<Rightarrow> cpu_g \<Rightarrow> cpu_g" where
  "cpu_set_overrun n c = c\<lparr>overrun := n\<rparr>"

definition cpu_incr_alloc_rt :: "u64 \<Rightarrow> cpu_g \<Rightarrow> cpu_g" where
  "cpu_incr_alloc_rt n c = c\<lparr>alloc_rt := alloc_rt c + n\<rparr>"

definition cpu_decr_alloc_rt :: "u64 \<Rightarrow> cpu_g \<Rightarrow> cpu_g" where
  "cpu_decr_alloc_rt n c =
     (if sint (alloc_rt c - n) < 0 then c\<lparr>alloc_rt := 0\<rparr> else c\<lparr>alloc_rt := alloc_rt c - n\<rparr>)"

section \<open>Memory pool\<close>

record mem_g =
  memory_limit_in_pages :: u64
  mem_slice_size :: u64
  unallocated_memory_in_pages :: i64
  allocated_memory_in_pages :: i64

definition mem_g_default :: mem_g where
  "mem_g_default = \<lparr>memory_limit_in_pages = 0, mem_slice_size = 5000,
     unallocated_memory_in_pages = 0, allocated_memory_in_pages = 0\<rparr>"

definition mem_g_new :: "u64 \<Rightarrow> i64 \<Rightarrow> u64 \<Rightarrow> mem_g" where
  "mem_g_new mem_lim alloc_pages sl = \<lparr>memory_limit_in_pages = mem_lim,
     mem_slice_size = sl, unallocated_memory_in_pages = mem_lim,
     allocated_memory_in_pages = alloc_pages\<rparr>"

definition mem_set_slice_size :: "u64 \<Rightarrow> mem_g \<Rightarrow> mem_g" where
  "mem_set_slice_size n m = m\<lparr>mem_slice_size := n\<rparr>"

definition mem_set_memory_limit :: "u64 \<Rightarrow> mem_g \<Rightarrow> mem_g" where
  "mem_set_memory_limit n m = m\<lparr>memory_limit_in_pages := n\<rparr>"

definition mem_incr_memory_limit :: "u64 \<Rightarrow> mem_g \<Rightarrow> mem_g" where
  "mem_incr_memory_limit n m = m\<lparr>memory_limit_in_pages := memory_limit_in_pages m + n\<rparr>"

definition mem_decr_memory_limit :: "u64 \<Rightarrow> mem_g \<Rightarrow> mem_g" where
  "mem_decr_memory_limit n m =
     (if memory_limit_in_pages m < n then m\<lparr>memory_limit_in_pages := 0\<rparr>
      else m\<lparr>memory_limit_in_pages := memory_limit_in_pages m - n\<rparr>)"

definition mem_set_unallocated :: "i64 \<Rightarrow> mem_g \<Rightarrow> i64 \<times> mem_g" where
  "mem_set_unallocated n m =
     (let m' = m\<lparr>unallocated_memory_in_pages := n\<rparr> in (unallocated_memory_in_pages m', m'))"

definition mem_incr_unallocated :: "u64 \<Rightarrow> mem_g \<Rightarrow> mem_g" where
  "mem_incr_unallocated n m = m\<lparr>unallocated_memory_in_pages := unallocated_memory_in_pages m + n\<rparr>"

definition mem_decr_unallocated :: "u64 \<Rightarrow> mem_g \<Rightarrow> mem_g" where
  "mem_decr_unallocated n m =
     (let res = unallocated_memory_in_pages m - n
      in m\<lparr>unallocated_memory_in_pages := (if sint res < 0 then 0 else res)\<rparr>)"

definition mem_set_allocated :: "i64 \<Rightarrow> mem_g \<Rightarrow> mem_g" where
  "mem_set_allocated n m = m\<lparr>allocated_memory_in_pages := n\<rparr>"

definition mem_incr_allocated :: "i64 \<Rightarrow> mem_g \<Rightarrow> mem_g" where
  "mem_incr_allocated n m = m\<lparr>allocated_memory_in_pages := allocated_memory_in_pages m + n\<rparr>"

definition mem_decr_allocated :: "i64 \<Rightarrow> mem_g \<Rightarrow> mem_g" where
  "mem_decr_allocated n m =
     (let res = allocated_memory_in_pages m - n
      in m\<lparr>allocated_memory_in_pages := (if sint res < 0 then 0 else res)\<rparr>)"

section \<open>The counters meet their contracts\<close>

interpretation unalloc_ctr: signed_clamp_counter unallocated_rt cpu_incr_unallocated_rt cpu_decr_unallocated_rt
  by unfold_locales (simp_all add: cpu_incr_unallocated_rt_def cpu_decr_unallocated_rt_def)

interpretation total_ctr: signed_clamp_counter total_cpu cpu_incr_total_cpu cpu_decr_total_cpu
  by unfold_locales (simp_all add: cpu_incr_total_cpu_def cpu_decr_total_cpu_def)

interpretation overrun_ctr: signed_clamp_counter overrun cpu_incr_overrun cpu_decr_overrun
  by unfold_locales (simp_all add: cpu_incr_overrun_def cpu_decr_overrun_def)

interpretation alloc_ctr: signed_clamp_counter alloc_rt cpu_incr_alloc_rt cpu_decr_alloc_rt
  by unfold_locales (simp_all add: cpu_incr_alloc_rt_def cpu_decr_alloc_rt_def)

interpretation mem_unalloc_ctr: signed_clamp_counter
  unallocated_memory_in_pages mem_incr_unallocated mem_decr_unallocated
  by unfold_locales (simp_all add: mem_incr_unallocated_def mem_decr_unallocated_def Let_def)

interpretation mem_alloc_ctr: signed_clamp_counter
  allocated_memory_in_pages mem_incr_allocated mem_decr_allocated
  by unfold_locales (simp_all add: mem_incr_allocated_def mem_decr_allocated_def Let_def)

interpretation mem_limit_ctr: unsigned_clamp_counter
  memory_limit_in_pages mem_incr_memory_limit mem_decr_memory_limit
  by unfold_locales (simp_all add: mem_incr_memory_limit_def mem_decr_memory_limit_def)

text \<open>Each operation writes one field only.\<close>

lemma cpu_g_frames [stat_simps]:
  "unallocated_rt (cpu_incr_alloc_rt n c) = unallocated_rt c"
  "unallocated_rt (cpu_decr_alloc_rt n c) = unallocated_rt c"
  "unallocated_rt (cpu_incr_overrun n c) = unallocated_rt c"
  "unallocated_rt (cpu_decr_overrun n c) = unallocated_rt c"
  "alloc_rt (cpu_incr_unallocated_rt n c) = alloc_rt c"
  "alloc_rt (cpu_decr_unallocated_rt n c) = alloc_rt c"
  "alloc_rt (cpu_set_unallocated_rt n c) = alloc_rt c"
  "alloc_rt (cpu_incr_overrun n c) = alloc_rt c"
  "alloc_rt (cpu_decr_overrun n c) = alloc_rt c"
  "overrun (cpu_incr_alloc_rt n c) = overrun c"
  "overrun (cpu_decr_alloc_rt n c) = overrun c"
  "overrun (cpu_incr_unallocated_rt n c) = overrun c"
  "overrun (cpu_decr_unallocated_rt n c) = overrun c"
  "overrun (cpu_set_unallocated_rt n c) = overrun c"
  "total_cpu (cpu_incr_alloc_rt n c) = total_cpu c"
  "total_cpu (cpu_decr_alloc_rt n c) = total_cpu c"
  "total_cpu (cpu_incr_overrun n c) = total_cpu c"
  "total_cpu (cpu_decr_overrun n c) = total_cpu c"
  "total_cpu (cpu_incr_unallocated_rt n c) = total_cpu c"
  "total_cpu (cpu_decr_unallocated_rt n c) = total_cpu c"
  "total_cpu (cpu_set_unallocated_rt n c) = total_cpu c"
  "slice_size (cpu_incr_alloc_rt n c) = slice_size c"
  "slice_size (cpu_decr_alloc_rt n c) = slice_size c"
  "slice_size (cpu_incr_overrun n c) = slice_size c"
  "slice_size (cpu_decr_overrun n c) = slice_size c"
  "slice_size (cpu_incr_unallocated_rt n c) = slice_size c"
  "slice_size (cpu_decr_unallocated_rt n c) = slice_size c"
  "slice_size (cpu_set_unallocated_rt n c) = slice_size c"
  "unallocated_rt (cpu_set_unallocated_rt n c) = n"
  by (simp_all add: cpu_incr_alloc_rt_def cpu_decr_alloc_rt_def cpu_incr_overrun_def
      cpu_decr_overrun_def cpu_incr_unallocated_rt_def cpu_decr_unallocated_rt_def
      cpu_set_unallocated_rt_def)

lemma mem_g_frames [stat_simps]:
  "allocated_memory_in_pages (mem_incr_unallocated n m) = allocated_memory_in_pages m"
  "allocated_memory_in_pages (mem_decr_unallocated n m) = allocated_memory_in_pages m"
  "unallocated_memory_in_pages (mem_incr_allocated n m) = unallocated_memory_in_pages m"
  "unallocated_memory_in_pages (mem_decr_allocated n m) = unallocated_memory_in_pages m"
  "memory_limit_in_pages (mem_incr_unallocated n m) = memory_limit_in_pages m"
  "memory_limit_in_pages (mem_decr_unallocated n m) = memory_limit_in_pages m"
  "memory_limit_in_pages (mem_incr_allocated n m) = memory_limit_in_pages m"
  "memory_limit_in_pages (mem_decr_allocated n m) = memory_limit_in_pages m"
  "mem_slice_size (mem_incr_unallocated n m) = mem_slice_size m"
  "mem_slice_size (mem_decr_unallocated n m) = mem_slice_size m"
  "mem_slice_size (mem_incr_allocated n m) = mem_slice_size m"
  "mem_slice_size (mem_decr_allocated n m) = mem_slice_size m"
  by (simp_all add: mem_incr_unallocated_def mem_decr_unallocated_def mem_incr_allocated_def
      mem_decr_allocated_def Let_def)

text \<open>The contracts' equations, used as rewrite rules by the components above.\<close>

lemmas pool_counter_simps [stat_simps] =
  unalloc_ctr.get_incr overrun_ctr.get_incr alloc_ctr.get_incr total_ctr.get_incr
  mem_unalloc_ctr.get_incr mem_alloc_ctr.get_incr

section \<open>Ledgers\<close>

text \<open>
  What is handed out and what is left, against what the application owns plus what was handed out
  beyond it. Zero when the books balance.
\<close>

definition cpu_ledger :: "cpu_g \<Rightarrow> u64" where
  "cpu_ledger c = alloc_rt c + unallocated_rt c - overrun c - total_cpu c"

definition mem_ledger :: "mem_g \<Rightarrow> u64" where
  "mem_ledger m = allocated_memory_in_pages m + unallocated_memory_in_pages m - memory_limit_in_pages m"

text \<open>Every quantity of a pool is below \<open>2^62\<close> (146 years of CPU time in nanoseconds).\<close>

definition cpu_small :: "cpu_g \<Rightarrow> bool" where
  "cpu_small c \<longleftrightarrow> unat (unallocated_rt c) < 2 ^ 62 \<and> unat (alloc_rt c) < 2 ^ 62 \<and>
     unat (overrun c) < 2 ^ 62 \<and> unat (total_cpu c) < 2 ^ 62"

lemma cpu_ledger_incr [stat_simps]:
  "cpu_ledger (cpu_incr_alloc_rt n c) = cpu_ledger c + n"
  "cpu_ledger (cpu_incr_unallocated_rt n c) = cpu_ledger c + n"
  "cpu_ledger (cpu_incr_overrun n c) = cpu_ledger c - n"
  by (simp_all add: cpu_ledger_def stat_simps)

lemma decr_exact:
  assumes "unat (a :: u64) < 2 ^ 63" and "unat n \<le> unat a"
  shows "\<not> sint (a - n) < 0"
  using sint_minus_neg_iff [OF assms(1), of n] assms by simp

lemma cpu_ledger_decr:
  "\<not> sint (alloc_rt c - n) < 0 \<Longrightarrow> cpu_ledger (cpu_decr_alloc_rt n c) = cpu_ledger c - n"
  "\<not> sint (unallocated_rt c - n) < 0 \<Longrightarrow> cpu_ledger (cpu_decr_unallocated_rt n c) = cpu_ledger c - n"
  "\<not> sint (overrun c - n) < 0 \<Longrightarrow> cpu_ledger (cpu_decr_overrun n c) = cpu_ledger c + n"
  by (simp_all add: cpu_ledger_def stat_simps alloc_ctr.get_decr unalloc_ctr.get_decr overrun_ctr.get_decr)

lemma mem_ledger_incr [stat_simps]:
  "mem_ledger (mem_incr_allocated n m) = mem_ledger m + n"
  "mem_ledger (mem_incr_unallocated n m) = mem_ledger m + n"
  by (simp_all add: mem_ledger_def stat_simps)

lemma mem_ledger_decr:
  "\<not> sint (allocated_memory_in_pages m - n) < 0 \<Longrightarrow> mem_ledger (mem_decr_allocated n m) = mem_ledger m - n"
  "\<not> sint (unallocated_memory_in_pages m - n) < 0 \<Longrightarrow> mem_ledger (mem_decr_unallocated n m) = mem_ledger m - n"
  by (simp_all add: mem_ledger_def stat_simps mem_alloc_ctr.get_decr mem_unalloc_ctr.get_decr)

end
