(* ===== verification/Elastic_Container.thy ===== *)
theory Elastic_Container
  imports Sub_Container Agent_Clients Global_Stats
begin

text \<open>
  \<open>ElasticContainer.h\<close>, \<open>ElasticContainer.cpp\<close>: the application whose containers share one CPU and
  one memory pool.

  Containers are objects on a heap (\<open>sc_heap\<close>, addresses of type \<open>sc_ptr\<close>), because the sources
  keep several pointers to one container: the queue in \<open>subcontainers\<close>, the threads that were
  started for it and the handlers. \<open>delete\<close> removes the object; using a pointer afterwards is
  \<open>Undefined_Behaviour\<close>. A \<open>std::queue\<close> is the list of its elements, front first. The pointer
  values of \<open>sc_ac_map\<close> are optional: \<open>operator[]\<close> inserts a null pointer for a missing key.
\<close>

section \<open>State\<close>

type_synonym sc_ptr = nat

record ElasticContainer =
  ec_id :: u32
  subcontainers :: "(ContainerId \<times> sc_ptr list) list"
  sc_ac_map :: "(ContainerId \<times> AgentClient option) list"
  fair_cpu_share :: u64
  ec_mem :: mem_g
  ec_cpu :: cpu_g
  sc_heap :: "sc_ptr \<Rightarrow> SubContainer option"
  sc_next :: sc_ptr

definition ElasticContainer_new :: "u32 \<Rightarrow> ElasticContainer" where
  "ElasticContainer_new i = \<lparr>ec_id = i, subcontainers = [], sc_ac_map = [], fair_cpu_share = 0,
     ec_mem = mem_g_default, ec_cpu = cpu_g_default, sc_heap = Map.empty, sc_next = 0\<rparr>"

text \<open>
  The second constructor ignores the agent clients it is given. The destructor frees the queues but
  not the containers in them, which stay on the heap.
\<close>

definition ElasticContainer_new_agents :: "u32 \<Rightarrow> AgentClient list \<Rightarrow> ElasticContainer" where
  "ElasticContainer_new_agents i agent_clients = (ElasticContainer_new i)\<lparr>subcontainers := [], sc_ac_map := []\<rparr>"

definition ElasticContainer_destroy :: "ElasticContainer \<Rightarrow> ElasticContainer" where
  "ElasticContainer_destroy e = e\<lparr>subcontainers := []\<rparr>"

text \<open>Dereferencing, and updating the object behind a pointer that has been dereferenced.\<close>

definition sc_deref :: "ElasticContainer \<Rightarrow> sc_ptr \<Rightarrow> SubContainer result" where
  "sc_deref e p = (case sc_heap e p of None \<Rightarrow> Inl Undefined_Behaviour | Some sc \<Rightarrow> Inr sc)"

definition sc_upd :: "sc_ptr \<Rightarrow> (SubContainer \<Rightarrow> SubContainer) \<Rightarrow> ElasticContainer \<Rightarrow> ElasticContainer" where
  "sc_upd p f e = e\<lparr>sc_heap := (sc_heap e)(p := map_option f (sc_heap e p))\<rparr>"

abbreviation find_queue :: "ElasticContainer \<Rightarrow> ContainerId \<Rightarrow> sc_ptr list option" where
  "find_queue e k \<equiv> um_find cid_key (subcontainers e) k"

section \<open>Pools\<close>

definition on_cpu :: "(cpu_g \<Rightarrow> cpu_g) \<Rightarrow> ElasticContainer \<Rightarrow> ElasticContainer" where
  "on_cpu f e = e\<lparr>ec_cpu := f (ec_cpu e)\<rparr>"

definition on_mem :: "(mem_g \<Rightarrow> mem_g) \<Rightarrow> ElasticContainer \<Rightarrow> ElasticContainer" where
  "on_mem f e = e\<lparr>ec_mem := f (ec_mem e)\<rparr>"

definition set_slice_size :: "u64 \<Rightarrow> ElasticContainer \<Rightarrow> ElasticContainer" where
  "set_slice_size n = on_cpu (cpu_set_slice_size n)"

definition incr_unallocated_rt :: "u64 \<Rightarrow> ElasticContainer \<Rightarrow> ElasticContainer" where
  "incr_unallocated_rt n = on_cpu (cpu_incr_unallocated_rt n)"

definition decr_unallocated_rt :: "u64 \<Rightarrow> ElasticContainer \<Rightarrow> ElasticContainer" where
  "decr_unallocated_rt n = on_cpu (cpu_decr_unallocated_rt n)"

definition set_unallocated_rt :: "u64 \<Rightarrow> ElasticContainer \<Rightarrow> ElasticContainer" where
  "set_unallocated_rt n = on_cpu (cpu_set_unallocated_rt n)"

definition set_total_cpu :: "u64 \<Rightarrow> ElasticContainer \<Rightarrow> ElasticContainer" where
  "set_total_cpu n = on_cpu (cpu_set_total_cpu n)"

definition incr_total_cpu :: "u64 \<Rightarrow> ElasticContainer \<Rightarrow> ElasticContainer" where
  "incr_total_cpu n = on_cpu (cpu_incr_total_cpu n)"

definition decr_total_cpu :: "u64 \<Rightarrow> ElasticContainer \<Rightarrow> ElasticContainer" where
  "decr_total_cpu n = on_cpu (cpu_decr_total_cpu n)"

definition incr_overrun :: "u64 \<Rightarrow> ElasticContainer \<Rightarrow> ElasticContainer" where
  "incr_overrun n = on_cpu (cpu_incr_overrun n)"

definition decr_overrun :: "u64 \<Rightarrow> ElasticContainer \<Rightarrow> ElasticContainer" where
  "decr_overrun n = on_cpu (cpu_decr_overrun n)"

definition set_overrun :: "u64 \<Rightarrow> ElasticContainer \<Rightarrow> ElasticContainer" where
  "set_overrun n = on_cpu (cpu_set_overrun n)"

definition incr_alloc_rt :: "u64 \<Rightarrow> ElasticContainer \<Rightarrow> ElasticContainer" where
  "incr_alloc_rt n = on_cpu (cpu_incr_alloc_rt n)"

definition decr_alloc_rt :: "u64 \<Rightarrow> ElasticContainer \<Rightarrow> ElasticContainer" where
  "decr_alloc_rt n = on_cpu (cpu_decr_alloc_rt n)"

definition set_memory_limit_in_pages :: "i64 \<Rightarrow> ElasticContainer \<Rightarrow> ElasticContainer" where
  "set_memory_limit_in_pages n = on_mem (mem_set_memory_limit n)"

definition incr_memory_limit_in_pages :: "u64 \<Rightarrow> ElasticContainer \<Rightarrow> ElasticContainer" where
  "incr_memory_limit_in_pages n = on_mem (mem_incr_memory_limit n)"

definition decr_memory_limit_in_pages :: "u64 \<Rightarrow> ElasticContainer \<Rightarrow> ElasticContainer" where
  "decr_memory_limit_in_pages n = on_mem (mem_decr_memory_limit n)"

definition set_unalloc_memory_in_pages :: "u64 \<Rightarrow> ElasticContainer \<Rightarrow> i64 \<times> ElasticContainer" where
  "set_unalloc_memory_in_pages n e =
     (case mem_set_unallocated n (ec_mem e) of (r, m) \<Rightarrow> (r, e\<lparr>ec_mem := m\<rparr>))"

definition incr_unalloc_memory_in_pages :: "u64 \<Rightarrow> ElasticContainer \<Rightarrow> ElasticContainer" where
  "incr_unalloc_memory_in_pages n = on_mem (mem_incr_unallocated n)"

definition decr_unalloc_memory_in_pages :: "u64 \<Rightarrow> ElasticContainer \<Rightarrow> ElasticContainer" where
  "decr_unalloc_memory_in_pages n = on_mem (mem_decr_unallocated n)"

definition set_alloc_memory_in_pages :: "i64 \<Rightarrow> ElasticContainer \<Rightarrow> ElasticContainer" where
  "set_alloc_memory_in_pages n = on_mem (mem_set_allocated n)"

definition incr_alloc_memory_in_pages :: "i64 \<Rightarrow> ElasticContainer \<Rightarrow> ElasticContainer" where
  "incr_alloc_memory_in_pages n = on_mem (mem_incr_allocated n)"

definition decr_alloc_memory_in_pages :: "i64 \<Rightarrow> ElasticContainer \<Rightarrow> ElasticContainer" where
  "decr_alloc_memory_in_pages n = on_mem (mem_decr_allocated n)"

section \<open>Containers\<close>

definition get_num_subcontainers :: "ElasticContainer \<Rightarrow> i32" where
  "get_num_subcontainers e = of_nat (length (subcontainers e))"

text \<open>\<open>new SubContainer\<close>: a fresh address.\<close>

definition create_new_sc :: "int \<Rightarrow> u32 \<Rightarrow> u32 \<Rightarrow> i32 \<Rightarrow> ElasticContainer \<Rightarrow> sc_ptr \<times> ElasticContainer" where
  "create_new_sc now cg host_ip sockfd e =
     (sc_next e, e\<lparr>sc_heap := (sc_heap e)(sc_next e \<mapsto> SubContainer_new now cg host_ip sockfd),
        sc_next := Suc (sc_next e)\<rparr>)"

definition create_new_sc_quota ::
  "int \<Rightarrow> u32 \<Rightarrow> u32 \<Rightarrow> i32 \<Rightarrow> u64 \<Rightarrow> u32 \<Rightarrow> ElasticContainer \<Rightarrow> sc_ptr \<times> ElasticContainer" where
  "create_new_sc_quota now cg host_ip sockfd q throttled e =
     (sc_next e, e\<lparr>sc_heap := (sc_heap e)(sc_next e \<mapsto> SubContainer_new_quota now cg host_ip sockfd q throttled),
        sc_next := Suc (sc_next e)\<rparr>)"

definition queue_front :: "sc_ptr list \<Rightarrow> sc_ptr result" where
  "queue_front q = (case q of [] \<Rightarrow> Inl Undefined_Behaviour | p # ps \<Rightarrow> Inr p)"

definition queue_back :: "sc_ptr list \<Rightarrow> sc_ptr result" where
  "queue_back q = (if q = [] then Inl Undefined_Behaviour else Inr (last q))"

definition get_subcontainer_front :: "ElasticContainer \<Rightarrow> ContainerId \<Rightarrow> SubContainer result" where
  "get_subcontainer_front e k = (case find_queue e k of
     None \<Rightarrow> Inl Exit_Failure | Some q \<Rightarrow> bind_r (queue_front q) (sc_deref e))"

definition get_subcontainer_back :: "ElasticContainer \<Rightarrow> ContainerId \<Rightarrow> SubContainer result" where
  "get_subcontainer_back e k = (case find_queue e k of
     None \<Rightarrow> Inl Exit_Failure | Some q \<Rightarrow> bind_r (queue_back q) (sc_deref e))"

definition get_sc_for_update_back :: "ElasticContainer \<Rightarrow> ContainerId \<Rightarrow> sc_ptr result" where
  "get_sc_for_update_back e k = (case find_queue e k of
     None \<Rightarrow> Inl Exit_Failure | Some q \<Rightarrow> queue_back q)"

definition ALLOC_FAILED :: i32 where "ALLOC_FAILED = 0"
definition ALLOC_SUCCESS :: i32 where "ALLOC_SUCCESS = 1"
definition ALLOC_INIT :: i32 where "ALLOC_INIT = 2"
definition ALLOC_MEM_FAILED :: i32 where "ALLOC_MEM_FAILED = 3"

definition insert_sc :: "sc_ptr \<Rightarrow> ElasticContainer \<Rightarrow> (i32 \<times> ElasticContainer) result" where
  "insert_sc p e = bind_r (sc_deref e p) (\<lambda>sc.
     case find_queue e (c_id sc) of
       Some q \<Rightarrow>
         let m = um_set cid_key (c_id sc) (q @ [p]) (subcontainers e)
         in Inr (ALLOC_INIT, e\<lparr>subcontainers := um_insert cid_key (c_id sc) (q @ [p]) m\<rparr>)
     | None \<Rightarrow> Inr (ALLOC_INIT, e\<lparr>subcontainers := um_insert cid_key (c_id sc) [p] (subcontainers e)\<rparr>))"

definition add_to_sc_ac_map :: "ContainerId \<Rightarrow> AgentClient \<Rightarrow> ElasticContainer \<Rightarrow> ElasticContainer" where
  "add_to_sc_ac_map k ac e = e\<lparr>sc_ac_map := um_insert cid_key k (Some ac) (sc_ac_map e)\<rparr>"

definition get_corres_agent_client :: "ContainerId \<Rightarrow> ElasticContainer \<Rightarrow> AgentClient option \<times> ElasticContainer" where
  "get_corres_agent_client k e =
     (case um_index cid_key k None (sc_ac_map e) of (c, m) \<Rightarrow> (c, e\<lparr>sc_ac_map := m\<rparr>))"

definition get_sc_from_agent :: "ElasticContainer \<Rightarrow> AgentClient option \<Rightarrow> ContainerId list \<Rightarrow> ContainerId list result" where
  "get_sc_from_agent e client res = (if sc_ac_map e = [] then Inl Exit_Failure
     else Inr (res @ map fst (filter (\<lambda>i. map_option ac_ptr (snd i) = map_option ac_ptr client) (sc_ac_map e))))"

definition update_fair_cpu_share :: "ElasticContainer \<Rightarrow> ElasticContainer" where
  "update_fair_cpu_share e =
     (if subcontainers e = [] then e\<lparr>fair_cpu_share := total_cpu (ec_cpu e)\<rparr>
      else e\<lparr>fair_cpu_share := total_cpu (ec_cpu e) div of_nat (length (subcontainers e))\<rparr>)"

definition ec_delete_from_subcontainers_map :: "ContainerId \<Rightarrow> ElasticContainer \<Rightarrow> (i32 \<times> ElasticContainer) result" where
  "ec_delete_from_subcontainers_map k e = (case find_queue e k of
     Some q \<Rightarrow>
       if 1 < length q then
         bind_r (queue_front q) (\<lambda>p.
           Inr (0, e\<lparr>subcontainers := um_set cid_key k (tl q) (subcontainers e),
                     sc_heap := (sc_heap e)(p := None)\<rparr>))
       else Inr (0, e\<lparr>subcontainers := um_erase cid_key k (subcontainers e)\<rparr>)
   | None \<Rightarrow> Inr (- 1, e))"

section \<open>Questions to cAdvisor\<close>

definition get_sc_memory_limit_in_bytes ::
  "'v agent_env \<Rightarrow> ContainerId \<Rightarrow> ElasticContainer \<Rightarrow> event list \<Rightarrow> (u64 \<times> ElasticContainer \<times> event list) result" where
  "get_sc_memory_limit_in_bytes env k e l = (case get_corres_agent_client k e of (ac, e') \<Rightarrow>
    (case ac of None \<Rightarrow> Inr (0, e', l)
     | Some ac \<Rightarrow>
         if cid_docker_id k = [] then Inr (0, e', l)
         else let url = docker_url (ip4_to_string (get_agent_ip ac)) (cid_docker_id k); l' = l @ [Http_Get url]
              in bind_r (getContMemLimit (json env) (http env l') (ip4_to_string (get_agent_ip ac)) (cid_docker_id k))
                   (\<lambda>r. Inr (r, e', l'))))"

definition get_sc_memory_usage_in_bytes ::
  "'v agent_env \<Rightarrow> ContainerId \<Rightarrow> string \<Rightarrow> ElasticContainer \<Rightarrow> event list \<Rightarrow> (u64 \<times> ElasticContainer \<times> event list) result" where
  "get_sc_memory_usage_in_bytes env k docker_id e l = (case get_corres_agent_client k e of (ac, e') \<Rightarrow>
    (case ac of None \<Rightarrow> Inr (0, e', l)
     | Some ac \<Rightarrow>
         if docker_id = [] then Inr (0, e', l)
         else let url = docker_url (ip4_to_string (get_agent_ip ac)) docker_id; l' = l @ [Http_Get url]
              in bind_r (getContMemUsage (json env) (http env l') (ip4_to_string (get_agent_ip ac)) docker_id)
                   (\<lambda>r. Inr (r, e', l'))))"

text \<open>The loop over the map; \<open>ceil\<close> of the integer quotient is the quotient.\<close>

fun sum_mem_limits ::
  "'v agent_env \<Rightarrow> ContainerId list \<Rightarrow> u64 \<Rightarrow> ElasticContainer \<Rightarrow> event list \<Rightarrow> (u64 \<times> ElasticContainer \<times> event list) result" where
  "sum_mem_limits env [] tot e l = Inr (tot, e, l)"
| "sum_mem_limits env (k # ks) tot e l =
     bind_r (get_sc_memory_limit_in_bytes env k e l) (\<lambda>(tmp, e, l). sum_mem_limits env ks (tot + tmp) e l)"

definition get_tot_mem_alloc_in_pages ::
  "'v agent_env \<Rightarrow> ElasticContainer \<Rightarrow> event list \<Rightarrow> (u64 \<times> ElasticContainer \<times> event list) result" where
  "get_tot_mem_alloc_in_pages env e l =
     bind_r (sum_mem_limits env (map fst (subcontainers e)) 0 e l) (\<lambda>(tot, e, l).
     bind_r (d_to_u64 (d_of_u64 (tot div 4096))) (\<lambda>r. Inr (r, e, l)))"

section \<open>Well-formedness\<close>

text \<open>
  Every queue is non-empty and holds live containers filed under their own key; no container is
  in two places; addresses at or above \<open>sc_next\<close> are unused.
\<close>

definition ec_wf :: "ElasticContainer \<Rightarrow> bool" where
  "ec_wf e \<longleftrightarrow> um_wf cid_key (subcontainers e) \<and> um_wf cid_key (sc_ac_map e) \<and>
     (\<forall>x \<in> set (subcontainers e). snd x \<noteq> []) \<and>
     (\<forall>x \<in> set (subcontainers e). \<forall>p \<in> set (snd x).
        \<exists>sc. sc_heap e p = Some sc \<and> cid_key (c_id sc) = cid_key (fst x)) \<and>
     (\<forall>x \<in> set (subcontainers e). distinct (snd x)) \<and>
     dom (sc_heap e) \<subseteq> {..< sc_next e}"

lemma ec_wfI:
  assumes "um_wf cid_key (subcontainers e)" "um_wf cid_key (sc_ac_map e)"
    and "\<And>k q. (k, q) \<in> set (subcontainers e) \<Longrightarrow> q \<noteq> []"
    and "\<And>k q p. (k, q) \<in> set (subcontainers e) \<Longrightarrow> p \<in> set q \<Longrightarrow>
           \<exists>sc. sc_heap e p = Some sc \<and> cid_key (c_id sc) = cid_key k"
    and "\<And>k q. (k, q) \<in> set (subcontainers e) \<Longrightarrow> distinct q"
    and "dom (sc_heap e) \<subseteq> {..< sc_next e}"
  shows "ec_wf e"
  using assms unfolding ec_wf_def by auto

lemma ec_wf_new: "ec_wf (ElasticContainer_new i)"
  by (simp add: ec_wf_def ElasticContainer_new_def um_simps)

lemma ec_wf_queue:
  assumes "ec_wf e" and "find_queue e k = Some q"
  shows "q \<noteq> []" and "distinct q"
    and "\<And>p. p \<in> set q \<Longrightarrow> \<exists>sc. sc_heap e p = Some sc \<and> cid_key (c_id sc) = cid_key k"
proof -
  obtain a where a: "(a, q) \<in> set (subcontainers e)" "cid_key a = cid_key k"
    using um_find_in_set [OF assms(2)] by auto
  with assms(1) show "q \<noteq> []" "distinct q"
    and "\<And>p. p \<in> set q \<Longrightarrow> \<exists>sc. sc_heap e p = Some sc \<and> cid_key (c_id sc) = cid_key k"
    unfolding ec_wf_def by fastforce+
qed

text \<open>On well-formed states lookups succeed exactly on the registered keys.\<close>

lemma get_back_wf:
  assumes "ec_wf e" and "find_queue e k = Some q"
  obtains sc where "get_sc_for_update_back e k = Inr (last q)" and "sc_heap e (last q) = Some sc"
    and "cid_key (c_id sc) = cid_key k"
  using ec_wf_queue(1,3) [OF assms] assms(2) that last_in_set [of q]
  by (fastforce simp: get_sc_for_update_back_def queue_back_def)

lemma get_back_missing: "find_queue e k = None \<Longrightarrow> get_sc_for_update_back e k = Inl Exit_Failure"
  by (simp add: get_sc_for_update_back_def)

text \<open>What the operations keep of well-formedness.\<close>

lemma ec_wf_frame:
  assumes "ec_wf e" and "subcontainers e' = subcontainers e" "sc_ac_map e' = sc_ac_map e"
    and "sc_heap e' = sc_heap e" "sc_next e' = sc_next e"
  shows "ec_wf e'"
  using assms by (simp add: ec_wf_def)

lemma ec_wf_sc_upd:
  assumes "ec_wf e" and "\<And>sc. cid_key (c_id (f sc)) = cid_key (c_id sc)"
  shows "ec_wf (sc_upd p f e)"
  using assms unfolding ec_wf_def sc_upd_def by (fastforce split: if_splits)

lemma ec_wf_pools [simp]:
  "ec_wf (on_cpu f e) = ec_wf e" "ec_wf (on_mem g e) = ec_wf e"
  "ec_wf (e\<lparr>ec_cpu := c\<rparr>) = ec_wf e" "ec_wf (e\<lparr>ec_mem := m\<rparr>) = ec_wf e"
  "ec_wf (e\<lparr>fair_cpu_share := n\<rparr>) = ec_wf e"
  by (simp_all add: ec_wf_def on_cpu_def on_mem_def)

lemma ec_wf_fair [simp]: "ec_wf (update_fair_cpu_share e) = ec_wf e"
  by (simp add: update_fair_cpu_share_def)

lemma ec_wf_sc_ac: "ec_wf e \<Longrightarrow> um_wf cid_key m \<Longrightarrow> ec_wf (e\<lparr>sc_ac_map := m\<rparr>)"
  by (simp add: ec_wf_def)

lemma ec_wf_um_ac: "ec_wf e \<Longrightarrow> um_wf cid_key (sc_ac_map e)"
  by (simp add: ec_wf_def)

lemma ec_wf_add_to_sc_ac_map: "ec_wf e \<Longrightarrow> ec_wf (add_to_sc_ac_map k ac e)"
  by (simp add: add_to_sc_ac_map_def ec_wf_sc_ac um.invar_insert_new ec_wf_um_ac)

lemma get_corres_snd: "snd (get_corres_agent_client k e) = e\<lparr>sc_ac_map := snd (um_index cid_key k None (sc_ac_map e))\<rparr>"
  by (simp add: get_corres_agent_client_def split: prod.splits)

lemma get_corres_fst:
  "fst (get_corres_agent_client k e) =
     (case um_find cid_key (sc_ac_map e) k of Some c \<Rightarrow> c | None \<Rightarrow> None)"
  using fst_um_index [of cid_key k None "sc_ac_map e"]
  by (auto simp: get_corres_agent_client_def split: prod.splits)

lemma ec_wf_get_corres: "ec_wf e \<Longrightarrow> ec_wf (snd (get_corres_agent_client k e))"
  unfolding get_corres_snd by (intro ec_wf_sc_ac um_wf_index ec_wf_um_ac)

lemma ec_wf_create:
  assumes "ec_wf e"
  shows "ec_wf (snd (create_new_sc_quota now cg ip f q t e))"
proof -
  have fresh: "sc_heap e p \<noteq> None \<Longrightarrow> p \<noteq> sc_next e" for p
    using assms unfolding ec_wf_def by blast
  show ?thesis
    using assms fresh unfolding create_new_sc_quota_def ec_wf_def by (fastforce simp: less_Suc_eq)
qed

section \<open>Changes that leave the registry alone\<close>

text \<open>
  The view of an elastic container that the registry's invariants speak about: the key of every
  live container, and the links from keys to agent clients. \<open>operator[]\<close> on the map of links leaves
  an entry without a client behind, which is no link. A change is quiet when it keeps all of this.
\<close>

definition live_keys :: "ElasticContainer \<Rightarrow> sc_ptr \<Rightarrow> cid_key_t option" where
  "live_keys e p = map_option (\<lambda>sc. cid_key (c_id sc)) (sc_heap e p)"

definition links :: "ElasticContainer \<Rightarrow> (cid_key_t \<times> AgentClient) set" where
  "links e = {(cid_key k, ac) | k ac. (k, Some ac) \<in> set (sc_ac_map e)}"

definition quiet :: "ElasticContainer \<Rightarrow> ElasticContainer \<Rightarrow> bool" where
  "quiet e e' \<longleftrightarrow> subcontainers e' = subcontainers e \<and> sc_next e' = sc_next e \<and> live_keys e' = live_keys e \<and>
     links e' = links e \<and> (um_wf cid_key (sc_ac_map e) \<longrightarrow> um_wf cid_key (sc_ac_map e'))"

lemma quiet_refl [simp]: "quiet e e"
  by (simp add: quiet_def)

lemma quiet_trans [trans]: "quiet e e' \<Longrightarrow> quiet e' e'' \<Longrightarrow> quiet e e''"
  by (simp add: quiet_def)

lemma quiet_pools [simp]:
  "quiet e (e'\<lparr>ec_cpu := c\<rparr>) = quiet e e'" "quiet e (on_cpu f e') = quiet e e'"
  "quiet e (e'\<lparr>ec_mem := m\<rparr>) = quiet e e'" "quiet e (on_mem g e') = quiet e e'"
  "quiet e (update_fair_cpu_share e') = quiet e e'"
  by (simp_all add: quiet_def live_keys_def [abs_def] links_def on_cpu_def on_mem_def update_fair_cpu_share_def)

lemma quiet_sc_upd:
  assumes "quiet e e'" and "\<And>sc. cid_key (c_id (f sc)) = cid_key (c_id sc)"
  shows "quiet e (sc_upd p f e')"
proof -
  have "live_keys (sc_upd p f e') = live_keys e'"
    using assms(2) by (auto simp: fun_eq_iff live_keys_def sc_upd_def option.map_comp comp_def)
  moreover have "subcontainers (sc_upd p f e') = subcontainers e'" "sc_next (sc_upd p f e') = sc_next e'"
    "sc_ac_map (sc_upd p f e') = sc_ac_map e'"
    by (simp_all add: sc_upd_def split: option.splits)
  ultimately show ?thesis using assms(1) by (simp add: quiet_def links_def)
qed

lemma quiet_get_corres: "quiet e (snd (get_corres_agent_client k e))"
  unfolding get_corres_snd quiet_def
  by (auto simp: live_keys_def links_def um_wf_index) (auto simp: um_index_def split: option.splits)

lemma quiet_live:
  assumes "quiet e e'"
  shows "(\<exists>sc. sc_heap e' p = Some sc \<and> cid_key (c_id sc) = k) \<longleftrightarrow> (\<exists>sc. sc_heap e p = Some sc \<and> cid_key (c_id sc) = k)"
    and "dom (sc_heap e') = dom (sc_heap e)"
proof -
  have live: "(\<exists>sc. sc_heap d p = Some sc \<and> cid_key (c_id sc) = k) \<longleftrightarrow> live_keys d p = Some k" for d
    by (auto simp: live_keys_def)
  have "dom (sc_heap d) = dom (live_keys d)" for d by (auto simp: live_keys_def dom_def)
  with assms show "dom (sc_heap e') = dom (sc_heap e)" by (simp add: quiet_def)
  show "(\<exists>sc. sc_heap e' p = Some sc \<and> cid_key (c_id sc) = k) \<longleftrightarrow> (\<exists>sc. sc_heap e p = Some sc \<and> cid_key (c_id sc) = k)"
    unfolding live using assms by (simp add: quiet_def)
qed

lemma ec_wf_quiet: "quiet e e' \<Longrightarrow> ec_wf e \<Longrightarrow> ec_wf e'"
  unfolding ec_wf_def quiet_live by (simp add: quiet_def)

section \<open>The registry of containers\<close>

text \<open>
  The contract of \<open>subcontainers\<close>: per key, the containers in the order in which they connected.
  An absent key and an empty queue are the same thing to a client. \<open>push\<close> registers a container,
  \<open>pop\<close> drops the oldest one.
\<close>

locale fifo_registry =
  fixes look :: "'s \<Rightarrow> 'k \<Rightarrow> 'p list"
    and push :: "'k \<Rightarrow> 'p \<Rightarrow> 's \<Rightarrow> 's"
    and pop :: "'k \<Rightarrow> 's \<Rightarrow> 's"
    and ok :: "'k \<Rightarrow> 'p \<Rightarrow> 's \<Rightarrow> bool"
    and invar :: "'s \<Rightarrow> bool"
  assumes look_push: "invar s \<Longrightarrow> ok k p s \<Longrightarrow> look (push k p s) = (look s)(k := look s k @ [p])"
    and look_pop: "invar s \<Longrightarrow> look (pop k s) = (look s)(k := tl (look s k))"
    and invar_push: "invar s \<Longrightarrow> ok k p s \<Longrightarrow> invar (push k p s)"
    and invar_pop: "invar s \<Longrightarrow> invar (pop k s)"
begin

lemma newest_after_push: "invar s \<Longrightarrow> ok k p s \<Longrightarrow> last (look (push k p s) k) = p"
  by (simp add: look_push)

lemma push_keeps_oldest: "invar s \<Longrightarrow> ok k p s \<Longrightarrow> look s k \<noteq> [] \<Longrightarrow> hd (look (push k p s) k) = hd (look s k)"
  by (simp add: look_push)

lemma pop_keeps_newest: "invar s \<Longrightarrow> look (pop k s) k \<noteq> [] \<Longrightarrow> last (look (pop k s) k) = last (look s k)"
  by (auto simp: look_pop last_tl)

lemma pop_push_restart: "invar s \<Longrightarrow> ok k p s \<Longrightarrow> look s k = [old] \<Longrightarrow> look (pop k (push k p s)) k = [p]"
  by (simp add: look_push look_pop invar_push)

lemma pops_drop: "invar s \<Longrightarrow> look ((pop k ^^ n) s) k = drop n (look s k) \<and> invar ((pop k ^^ n) s)"
  by (induction n) (auto simp: look_pop invar_pop tl_drop drop_Suc)

end

definition reg_look :: "ElasticContainer \<Rightarrow> cid_key_t \<Rightarrow> sc_ptr list" where
  "reg_look e k = (case map_of (map (\<lambda>x. (cid_key (fst x), snd x)) (subcontainers e)) k of
     None \<Rightarrow> [] | Some q \<Rightarrow> q)"

definition key_id :: "cid_key_t \<Rightarrow> ContainerId" where
  "key_id k = ContainerId_new (fst k) (snd k)"

definition reg_push :: "cid_key_t \<Rightarrow> sc_ptr \<Rightarrow> ElasticContainer \<Rightarrow> ElasticContainer" where
  "reg_push k p e = (case insert_sc p e of Inr (r, e') \<Rightarrow> e' | Inl err \<Rightarrow> e)"

definition reg_pop :: "cid_key_t \<Rightarrow> ElasticContainer \<Rightarrow> ElasticContainer" where
  "reg_pop k e = (case ec_delete_from_subcontainers_map (key_id k) e of Inr (r, e') \<Rightarrow> e' | Inl err \<Rightarrow> e)"

text \<open>A container may be registered under its own key, once.\<close>

definition reg_ok :: "cid_key_t \<Rightarrow> sc_ptr \<Rightarrow> ElasticContainer \<Rightarrow> bool" where
  "reg_ok k p e \<longleftrightarrow> (\<exists>sc. sc_heap e p = Some sc \<and> cid_key (c_id sc) = k) \<and> p \<notin> set (reg_look e k)"

lemma key_id_key [simp]: "cid_key (key_id k) = k"
  by (simp add: key_id_def)

lemma reg_look_find: "reg_look e (cid_key k) = (case find_queue e k of None \<Rightarrow> [] | Some q \<Rightarrow> q)"
  by (simp add: reg_look_def um_find_def)

lemma reg_look_eqI:
  assumes "\<And>j. find_queue e' j = (if cid_key j = k then r else find_queue e j)"
  shows "reg_look e' = (reg_look e)(k := case r of None \<Rightarrow> [] | Some q \<Rightarrow> q)"
proof
  fix j
  show "reg_look e' j = ((reg_look e)(k := case r of None \<Rightarrow> [] | Some q \<Rightarrow> q)) j"
    using assms [of "key_id j"] reg_look_find [of e' "key_id j"] reg_look_find [of e "key_id j"] by simp
qed

text \<open>The effect of \<open>insert_sc\<close>, whichever branch is taken.\<close>

lemma insert_sc_eq:
  assumes "sc_heap e p = Some sc"
  shows "insert_sc p e = Inr (ALLOC_INIT, reg_push (cid_key (c_id sc)) p e)"
    and "find_queue (reg_push (cid_key (c_id sc)) p e) j =
      (if cid_key j = cid_key (c_id sc) then Some (reg_look e (cid_key (c_id sc)) @ [p]) else find_queue e j)"
  using assms
  by (auto simp: insert_sc_def sc_deref_def reg_push_def reg_look_find Let_def um_simps split: option.splits)

lemma reg_push_frame:
  "sc_ac_map (reg_push k p e) = sc_ac_map e" "sc_heap (reg_push k p e) = sc_heap e"
  "sc_next (reg_push k p e) = sc_next e" "ec_cpu (reg_push k p e) = ec_cpu e"
  "ec_mem (reg_push k p e) = ec_mem e" "fair_cpu_share (reg_push k p e) = fair_cpu_share e"
  by (auto simp: reg_push_def insert_sc_def sc_deref_def Let_def split: option.splits)

lemma um_wf_reg_push: "um_wf cid_key (subcontainers e) \<Longrightarrow> um_wf cid_key (subcontainers (reg_push k p e))"
  by (auto simp: reg_push_def insert_sc_def sc_deref_def Let_def um_simps split: option.splits)

text \<open>Well-formedness in terms of the registry's lookup.\<close>

lemma ec_wf_look:
  assumes "ec_wf e"
  shows "distinct (reg_look e k)" and "find_queue e j \<noteq> Some []"
    and "p \<in> set (reg_look e k) \<Longrightarrow> \<exists>sc. sc_heap e p = Some sc \<and> cid_key (c_id sc) = k"
  using ec_wf_queue [OF assms, of "key_id k"] ec_wf_queue(1) [OF assms, of j] reg_look_find [of e "key_id k"]
  by (auto split: option.splits)

lemma destroy_leaks:
  assumes "ec_wf e" and "p \<in> set (reg_look e k)"
  shows "sc_heap (ElasticContainer_destroy e) p \<noteq> None \<and> reg_look (ElasticContainer_destroy e) j = []"
  using ec_wf_look(3) [OF assms] by (auto simp: ElasticContainer_destroy_def reg_look_def)

lemma ec_wf_lookI:
  assumes "um_wf cid_key (subcontainers e)" "um_wf cid_key (sc_ac_map e)"
    and "\<And>j. find_queue e j \<noteq> Some []" and "\<And>k. distinct (reg_look e k)"
    and "\<And>k p. p \<in> set (reg_look e k) \<Longrightarrow> \<exists>sc. sc_heap e p = Some sc \<and> cid_key (c_id sc) = k"
    and "dom (sc_heap e) \<subseteq> {..< sc_next e}"
  shows "ec_wf e"
proof (rule ec_wfI)
  fix k q assume "(k, q) \<in> set (subcontainers e)"
  with assms(1) have f: "find_queue e k = Some q" by (simp add: um_find_of_member)
  with assms(3) show "q \<noteq> []" by auto
  from f have l: "reg_look e (cid_key k) = q" by (simp add: reg_look_find)
  show "distinct q" using assms(4) [of "cid_key k"] l by simp
  show "p \<in> set q \<Longrightarrow> \<exists>sc. sc_heap e p = Some sc \<and> cid_key (c_id sc) = cid_key k" for p
    using assms(5) [of p "cid_key k"] l by simp
qed (use assms in auto)

lemma reg_push_look:
  assumes "reg_ok k p e"
  shows "reg_look (reg_push k p e) = (reg_look e)(k := reg_look e k @ [p])"
proof -
  obtain sc where sc: "sc_heap e p = Some sc" "k = cid_key (c_id sc)"
    using assms by (auto simp: reg_ok_def)
  then show ?thesis
    using reg_look_eqI [of "reg_push k p e" k "Some (reg_look e k @ [p])" e] insert_sc_eq(2) [OF sc(1)]
    by simp
qed

lemma ec_wf_reg_push:
  assumes w: "ec_wf e" and ok: "reg_ok k p e"
  shows "ec_wf (reg_push k p e)"
proof (rule ec_wf_lookI)
  obtain sc where sc: "sc_heap e p = Some sc" "k = cid_key (c_id sc)"
    using ok by (auto simp: reg_ok_def)
  show "find_queue (reg_push k p e) j \<noteq> Some []" for j
    using ec_wf_look(2) [OF w] insert_sc_eq(2) [OF sc(1), of j] sc(2) by simp
  show "distinct (reg_look (reg_push k p e) j)" for j
    using ec_wf_look(1) [OF w] ok by (simp add: reg_push_look reg_ok_def)
  show "\<exists>sc. sc_heap (reg_push k p e) x = Some sc \<and> cid_key (c_id sc) = j"
    if "x \<in> set (reg_look (reg_push k p e) j)" for x j
    using that ec_wf_look(3) [OF w, of x j] sc unfolding reg_push_look [OF ok] reg_push_frame
    by (auto split: if_splits)
qed (use w in \<open>auto simp: ec_wf_def reg_push_frame um_wf_reg_push\<close>)

text \<open>The effect of \<open>ec_delete_from_subcontainers_map\<close>, whichever branch is taken.\<close>

lemma delete_eq:
  assumes "ec_wf e"
  shows "ec_delete_from_subcontainers_map k e =
           Inr (if find_queue e k = None then - 1 else 0, reg_pop (cid_key k) e)"
    and "find_queue (reg_pop (cid_key k) e) j =
      (if cid_key j = cid_key k then (case find_queue e k of
           Some (p # p' # ps) \<Rightarrow> Some (p' # ps) | _ \<Rightarrow> None) else find_queue e j)"
    and "sc_heap (reg_pop (cid_key k) e) =
      (case find_queue e k of Some (p # p' # ps) \<Rightarrow> (sc_heap e)(p := None) | _ \<Rightarrow> sc_heap e)"
proof -
  have id: "find_queue e (key_id (cid_key k)) = find_queue e k" by (simp add: um_find_def)
  have sets: "um_set cid_key (key_id (cid_key k)) v m = um_set cid_key k v m"
    "um_erase cid_key (key_id (cid_key k)) m = um_erase cid_key k m" for v m
    by (simp_all add: um_set_def um_erase_def)
  have "find_queue e k \<noteq> Some []" using ec_wf_queue(1) [OF assms] by blast
  then consider "find_queue e k = None" | p where "find_queue e k = Some [p]"
    | p p' ps where "find_queue e k = Some (p # p' # ps)"
    by (metis list.exhaust option.exhaust)
  note cs = this
  show "ec_delete_from_subcontainers_map k e =
           Inr (if find_queue e k = None then - 1 else 0, reg_pop (cid_key k) e)"
    by (rule cs) (simp_all add: ec_delete_from_subcontainers_map_def reg_pop_def id sets queue_front_def)
  show "find_queue (reg_pop (cid_key k) e) j =
      (if cid_key j = cid_key k then (case find_queue e k of
           Some (p # p' # ps) \<Rightarrow> Some (p' # ps) | _ \<Rightarrow> None) else find_queue e j)"
    by (rule cs)
      (auto simp: ec_delete_from_subcontainers_map_def reg_pop_def id sets queue_front_def um_simps
        dest: um_find_cong [where m = "subcontainers e"])
  show "sc_heap (reg_pop (cid_key k) e) =
      (case find_queue e k of Some (p # p' # ps) \<Rightarrow> (sc_heap e)(p := None) | _ \<Rightarrow> sc_heap e)"
    by (rule cs) (simp_all add: ec_delete_from_subcontainers_map_def reg_pop_def id sets queue_front_def)
qed

lemma reg_pop_frame:
  "sc_ac_map (reg_pop k e) = sc_ac_map e" "sc_next (reg_pop k e) = sc_next e"
  "ec_cpu (reg_pop k e) = ec_cpu e" "ec_mem (reg_pop k e) = ec_mem e"
  "fair_cpu_share (reg_pop k e) = fair_cpu_share e"
  by (auto simp: reg_pop_def ec_delete_from_subcontainers_map_def queue_front_def
      split: option.splits list.splits)

lemma um_wf_reg_pop: "um_wf cid_key (subcontainers e) \<Longrightarrow> um_wf cid_key (subcontainers (reg_pop k e))"
  by (auto simp: reg_pop_def ec_delete_from_subcontainers_map_def queue_front_def um_simps
      split: option.splits list.splits)

lemma reg_pop_look:
  assumes "ec_wf e"
  shows "reg_look (reg_pop k e) = (reg_look e)(k := tl (reg_look e k))"
proof -
  have "reg_look (reg_pop k e) = (reg_look e)(k := case
      (case find_queue e (key_id k) of Some (p # p' # ps) \<Rightarrow> Some (p' # ps) | _ \<Rightarrow> None) of
      None \<Rightarrow> [] | Some q \<Rightarrow> q)"
    using delete_eq(2) [OF assms, of "key_id k"] by (intro reg_look_eqI) simp
  then show ?thesis
    using reg_look_find [of e "key_id k"] by (simp split: option.splits list.splits)
qed

text \<open>The freed container is in no queue any more.\<close>

lemma popped_not_queued:
  assumes w: "ec_wf e" and f: "reg_look e k = p0 # ps" and p: "p \<in> set (reg_look (reg_pop k e) j)"
  shows "p \<noteq> p0"
proof
  assume "p = p0"
  have "p \<in> set (reg_look e j)"
    using p unfolding reg_pop_look [OF w] by (auto split: if_splits intro: list.set_sel(2))
  then obtain sc where "sc_heap e p = Some sc" "cid_key (c_id sc) = j"
    using ec_wf_look(3) [OF w] by blast
  moreover obtain sc' where "sc_heap e p0 = Some sc'" "cid_key (c_id sc') = k"
    using ec_wf_look(3) [OF w, of p0 k] f by auto
  ultimately have "j = k" using \<open>p = p0\<close> by simp
  with p f have "p0 \<in> set ps" unfolding reg_pop_look [OF w] \<open>p = p0\<close> by simp
  with ec_wf_look(1) [OF w, of k] f show False by simp
qed

lemma ec_wf_reg_pop:
  assumes w: "ec_wf e"
  shows "ec_wf (reg_pop k e)"
proof (rule ec_wf_lookI)
  note heap = delete_eq(3) [OF w, of "key_id k", simplified]
  show "find_queue (reg_pop k e) j \<noteq> Some []" for j
    using ec_wf_look(2) [OF w, of j] delete_eq(2) [OF w, of "key_id k" j]
    by (auto split: option.splits list.splits)
  show "distinct (reg_look (reg_pop k e) j)" for j
    using ec_wf_look(1) [OF w] unfolding reg_pop_look [OF w] by (simp add: distinct_tl)
  show "\<exists>sc. sc_heap (reg_pop k e) p = Some sc \<and> cid_key (c_id sc) = j"
    if p: "p \<in> set (reg_look (reg_pop k e) j)" for p j
  proof -
    have "p \<in> set (reg_look e j)"
      using p unfolding reg_pop_look [OF w] by (auto split: if_splits intro: list.set_sel(2))
    then obtain sc where "sc_heap e p = Some sc" "cid_key (c_id sc) = j"
      using ec_wf_look(3) [OF w] by blast
    moreover have "sc_heap (reg_pop k e) p = sc_heap e p"
      using popped_not_queued [OF w _ p] reg_look_find [of e "key_id k"] unfolding heap
      by (auto split: option.splits list.splits)
    ultimately show ?thesis by simp
  qed
  show "dom (sc_heap (reg_pop k e)) \<subseteq> {..< sc_next (reg_pop k e)}"
    using w unfolding heap reg_pop_frame ec_wf_def by (auto split: option.splits list.splits)
qed (use w in \<open>auto simp: ec_wf_def reg_pop_frame um_wf_reg_pop\<close>)

interpretation registry: fifo_registry reg_look reg_push reg_pop reg_ok ec_wf
  by unfold_locales (simp_all add: reg_push_look reg_pop_look ec_wf_reg_push ec_wf_reg_pop)

section \<open>Changes to one container\<close>

text \<open>
  What most handlers do to the elastic container: the pools and the data of one container change,
  but no container appears, disappears or changes its identity.
\<close>

definition local_change :: "sc_ptr \<Rightarrow> ElasticContainer \<Rightarrow> ElasticContainer \<Rightarrow> bool" where
  "local_change p e e' \<longleftrightarrow> subcontainers e' = subcontainers e \<and> sc_ac_map e' = sc_ac_map e \<and>
     sc_next e' = sc_next e \<and> fair_cpu_share e' = fair_cpu_share e \<and>
     (\<forall>p'. p' \<noteq> p \<longrightarrow> sc_heap e' p' = sc_heap e p') \<and>
     map_option (\<lambda>sc. (c_id sc, inserted sc)) (sc_heap e' p) = map_option (\<lambda>sc. (c_id sc, inserted sc)) (sc_heap e p)"

lemma local_change_refl [simp]: "local_change p e e"
  by (simp add: local_change_def)

lemma local_change_trans: "local_change p e e' \<Longrightarrow> local_change p e' e'' \<Longrightarrow> local_change p e e''"
  by (simp add: local_change_def)

lemma local_change_pools [simp]:
  "local_change p e (e'\<lparr>ec_cpu := c\<rparr>) = local_change p e e'" "local_change p e (on_cpu f e') = local_change p e e'"
  "local_change p e (e'\<lparr>ec_mem := m\<rparr>) = local_change p e e'" "local_change p e (on_mem g e') = local_change p e e'"
  by (simp_all add: local_change_def on_cpu_def on_mem_def)

lemma local_change_upd:
  assumes "local_change p e e'" and "\<And>sc. sc_heap e' p = Some sc \<Longrightarrow> c_id (f sc) = c_id sc \<and> inserted (f sc) = inserted sc"
  shows "local_change p e (sc_upd p f e')"
  using assms by (cases "sc_heap e' p") (auto simp: local_change_def sc_upd_def)

lemma local_change_sc:
  assumes "local_change p e e'" and "sc_heap e p = Some sc"
  shows "\<exists>sc'. sc_heap e' p = Some sc' \<and> c_id sc' = c_id sc \<and> inserted sc' = inserted sc"
  using assms by (auto simp: local_change_def map_option_eq_Some)

lemma local_change_back: "local_change p e e' \<Longrightarrow> get_sc_for_update_back e' k = get_sc_for_update_back e k"
  by (simp add: local_change_def get_sc_for_update_back_def)

lemma local_change_heap:
  assumes "local_change p e e'"
  shows "map_option (\<lambda>sc. cid_key (c_id sc)) (sc_heap e' p') = map_option (\<lambda>sc. cid_key (c_id sc)) (sc_heap e p')"
proof (cases "p' = p")
  case True
  have "map_option (cid_key \<circ> fst) (map_option (\<lambda>sc. (c_id sc, inserted sc)) (sc_heap e' p)) =
    map_option (cid_key \<circ> fst) (map_option (\<lambda>sc. (c_id sc, inserted sc)) (sc_heap e p))"
    using assms by (simp only: local_change_def)
  then show ?thesis using True by (simp add: option.map_comp comp_def)
qed (use assms in \<open>simp add: local_change_def\<close>)

lemma local_change_quiet: "local_change p e e' \<Longrightarrow> quiet e e'"
  using local_change_heap [of p e e']
  by (simp add: quiet_def local_change_def live_keys_def [abs_def] links_def)

lemma ec_wf_local_change: "local_change p e e' \<Longrightarrow> ec_wf e \<Longrightarrow> ec_wf e'"
  by (rule ec_wf_quiet [OF local_change_quiet])

end
