(* ===== verification/Msg_Types.thy ===== *)
theory Msg_Types
  imports Om_Net
begin

text \<open>
  \<open>types/msg.h\<close>, \<open>msg.cpp\<close>, \<open>k_msg.h\<close>, \<open>ports.h\<close>: the message the kernel modules exchange with the
  controller, and its layout in the 56-byte buffer that \<open>Server\<close> reads and writes with
  \<open>reinterpret_cast\<close> (LP64, little-endian: the fields at offsets 0, 4, 8, 16, 24, 32, 40, 48, with
  four padding bytes before \<open>rsrc_amnt\<close> and before \<open>runtime_remaining\<close>).

  The user-provided copy constructor does not mention \<open>sock_addr\<close>, so the copy holds an
  indeterminate value there: an argument of \<open>msg_copy\<close>.
\<close>

record msg_t =
  client_ip :: ip4_addr
  cgroup_id :: u32
  req_type :: u32
  rsrc_amnt :: u64
  request :: u32
  runtime_remaining :: u64
  cpustat_seq_num :: u64
  sock_addr :: i64

definition msg_copy :: "i64 \<Rightarrow> msg_t \<Rightarrow> msg_t" where
  "msg_copy indeterminate m = \<lparr>client_ip = client_ip m, cgroup_id = cgroup_id m,
     req_type = req_type m, rsrc_amnt = rsrc_amnt m, request = request m,
     runtime_remaining = runtime_remaining m, cpustat_seq_num = cpustat_seq_num m,
     sock_addr = indeterminate\<rparr>"

definition msg_from_net :: "msg_t \<Rightarrow> msg_t" where
  "msg_from_net m = m\<lparr>client_ip := ip4_reverse_byte_order (client_ip m)\<rparr>"

definition set_ip_from_net :: "u32 \<Rightarrow> msg_t \<Rightarrow> msg_t" where
  "set_ip_from_net ip m = m\<lparr>client_ip := from_net ip\<rparr>"

definition set_ip_from_host :: "u32 \<Rightarrow> msg_t \<Rightarrow> msg_t" where
  "set_ip_from_host ip m = m\<lparr>client_ip := from_host ip\<rparr>"

definition set_ip_from_string :: "(string \<Rightarrow> u32) \<Rightarrow> string \<Rightarrow> msg_t \<Rightarrow> msg_t result" where
  "set_ip_from_string inet_addr ip m =
     bind_r (from_string inet_addr ip) (\<lambda>a. Inr (m\<lparr>client_ip := a\<rparr>))"

record k_msg_t =
  k_client_ip :: u32
  k_cgroup_id :: u32
  k_req_type :: u32
  k_rsrc_amnt :: u64
  k_request :: u32

definition k_msg_new :: "u32 \<Rightarrow> u32 \<Rightarrow> u8 \<Rightarrow> u64 \<Rightarrow> u8 \<Rightarrow> k_msg_t" where
  "k_msg_new ip cg is_mem amnt req = \<lparr>k_client_ip = ip, k_cgroup_id = cg, k_req_type = ucast is_mem,
     k_rsrc_amnt = amnt, k_request = ucast req\<rparr>"

record ports_t =
  tcp :: u16
  udp :: u16

definition ports_new :: "u16 \<Rightarrow> u16 \<Rightarrow> ports_t" where
  "ports_new t u = \<lparr>tcp = t, udp = u\<rparr>"

section \<open>Layout\<close>

definition le32_at :: "u8 list \<Rightarrow> nat \<Rightarrow> u32" where
  "le32_at b i = ucast (b ! i) OR push_bit 8 (ucast (b ! (i + 1))) OR push_bit 16 (ucast (b ! (i + 2)))
     OR push_bit 24 (ucast (b ! (i + 3)))"

definition le64_at :: "u8 list \<Rightarrow> nat \<Rightarrow> u64" where
  "le64_at b i = ucast (le32_at b i) OR push_bit 32 (ucast (le32_at b (i + 4)))"

definition le32 :: "u32 \<Rightarrow> u8 list" where
  "le32 w = [ucast w, ucast (drop_bit 8 w), ucast (drop_bit 16 w), ucast (drop_bit 24 w)]"

definition le64 :: "u64 \<Rightarrow> u8 list" where
  "le64 w = le32 (ucast w) @ le32 (ucast (drop_bit 32 w))"

definition decode_msg :: "u8 list \<Rightarrow> msg_t" where
  "decode_msg b = \<lparr>client_ip = Ip4 (le32_at b 0), cgroup_id = le32_at b 4, req_type = le32_at b 8,
     rsrc_amnt = le64_at b 16, request = le32_at b 24, runtime_remaining = le64_at b 32,
     cpustat_seq_num = le64_at b 40, sock_addr = le64_at b 48\<rparr>"

definition encode_msg :: "u32 \<Rightarrow> u32 \<Rightarrow> msg_t \<Rightarrow> u8 list" where
  "encode_msg pad1 pad2 m = le32 (ip_addr (client_ip m)) @ le32 (cgroup_id m) @ le32 (req_type m)
     @ le32 pad1 @ le64 (rsrc_amnt m) @ le32 (request m) @ le32 pad2 @ le64 (runtime_remaining m)
     @ le64 (cpustat_seq_num m) @ le64 (sock_addr m)"

section \<open>Lemmas\<close>

lemma length_le32 [simp]: "length (le32 w) = 4"
  by (simp add: le32_def)

lemma length_le64 [simp]: "length (le64 w) = 8"
  by (simp add: le64_def)

lemma length_encode_msg: "length (encode_msg p1 p2 m) = 56"
  by (simp add: encode_msg_def)

text \<open>Reading a field skips the fields before it.\<close>

lemma le32_at_skip: "length xs \<le> i \<Longrightarrow> le32_at (xs @ ys) i = le32_at ys (i - length xs)"
  by (simp add: le32_at_def nth_append Suc_diff_le)

lemma le64_at_skip: "length xs \<le> i \<Longrightarrow> le64_at (xs @ ys) i = le64_at ys (i - length xs)"
  by (simp add: le64_at_def le32_at_skip)

lemma le32_at_head: "le32_at (le32 w @ ys) 0 = w"
  by (rule u32_eqI) (simp add: le32_at_def le32_def bit_simps upt_0_2 bit_u8_high)

lemma le64_at_head: "le64_at (le64 w @ ys) 0 = w"
  by (rule u64_eqI) (simp add: le64_at_def le64_def le32_at_head le32_at_skip bit_simps upt_0_2)

lemma decode_encode_msg: "decode_msg (encode_msg p1 p2 m) = m"
  by (simp add: decode_msg_def encode_msg_def le32_at_skip le64_at_skip le32_at_head le64_at_head
      le64_at_head [where ys = "[]", simplified])

end
