(* ===== verification/Ecapi.thy ===== *)
theory Ecapi
  imports Elastic_Container Msg_Types
begin

text \<open>
  \<open>ECAPI.h\<close>, \<open>ECAPI.cpp\<close>: the operations a controller performs on its elastic container.

  The state of the class is extended by the two things outside the object that its operations
  touch: the singleton directory of agent clients and the log of requests sent. \<open>_ec\<close> is set by
  \<open>create_ec\<close>, which every thread that uses it comes after. The member \<open>pod_conn_check\<close> is never
  used and has no counterpart. Operations are generic in the record extension, so that they apply
  to the derived class \<open>Manager\<close> as they are.
\<close>

section \<open>State\<close>

record ECAPI =
  rpc_log :: "event list"
  agent_db :: "AgentClientDB option"
  ecapi_id :: i32
  ec :: ElasticContainer

definition on_ec :: "(ElasticContainer \<Rightarrow> ElasticContainer) \<Rightarrow> 'a ECAPI_scheme \<Rightarrow> 'a ECAPI_scheme" where
  "on_ec f s = s\<lparr>ec := f (ec s)\<rparr>"

abbreviation on_sc :: "sc_ptr \<Rightarrow> (SubContainer \<Rightarrow> SubContainer) \<Rightarrow> 'a ECAPI_scheme \<Rightarrow> 'a ECAPI_scheme" where
  "on_sc p f \<equiv> on_ec (sc_upd p f)"

definition create_ec :: "'a ECAPI_scheme \<Rightarrow> i32 \<times> 'a ECAPI_scheme" where
  "create_ec s = (0, s\<lparr>ec := ElasticContainer_new (ecapi_id s)\<rparr>)"

section \<open>Pools\<close>

definition ec_get_cpu_unallocated_rt :: "'a ECAPI_scheme \<Rightarrow> u64" where
  "ec_get_cpu_unallocated_rt s = unallocated_rt (ec_cpu (ec s))"

definition ec_get_cpu_slice :: "'a ECAPI_scheme \<Rightarrow> u64" where
  "ec_get_cpu_slice s = slice_size (ec_cpu (ec s))"

definition ec_get_fair_cpu_share :: "'a ECAPI_scheme \<Rightarrow> u64" where
  "ec_get_fair_cpu_share s = fair_cpu_share (ec s)"

definition ec_get_overrun :: "'a ECAPI_scheme \<Rightarrow> u64" where
  "ec_get_overrun s = overrun (ec_cpu (ec s))"

definition ec_get_total_cpu :: "'a ECAPI_scheme \<Rightarrow> u64" where
  "ec_get_total_cpu s = total_cpu (ec_cpu (ec s))"

definition ec_get_alloc_rt :: "'a ECAPI_scheme \<Rightarrow> u64" where
  "ec_get_alloc_rt s = alloc_rt (ec_cpu (ec s))"

definition ec_get_unalloc_memory_in_pages :: "'a ECAPI_scheme \<Rightarrow> u64" where
  "ec_get_unalloc_memory_in_pages s = unallocated_memory_in_pages (ec_mem (ec s))"

definition ec_get_alloc_memory_in_pages :: "'a ECAPI_scheme \<Rightarrow> u64" where
  "ec_get_alloc_memory_in_pages s = allocated_memory_in_pages (ec_mem (ec s))"

definition ec_get_memory_slice :: "'a ECAPI_scheme \<Rightarrow> u64" where
  "ec_get_memory_slice s = mem_slice_size (ec_mem (ec s))"

definition ec_get_mem_limit_in_pages :: "'a ECAPI_scheme \<Rightarrow> u64" where
  "ec_get_mem_limit_in_pages s = memory_limit_in_pages (ec_mem (ec s))"

definition ec_resize_slice :: "u64 \<Rightarrow> 'a ECAPI_scheme \<Rightarrow> 'a ECAPI_scheme" where
  "ec_resize_slice n = on_ec (set_slice_size n)"

definition ec_incr_unallocated_rt :: "u64 \<Rightarrow> 'a ECAPI_scheme \<Rightarrow> 'a ECAPI_scheme" where
  "ec_incr_unallocated_rt n = on_ec (incr_unallocated_rt n)"

definition ec_decr_unallocated_rt :: "u64 \<Rightarrow> 'a ECAPI_scheme \<Rightarrow> 'a ECAPI_scheme" where
  "ec_decr_unallocated_rt n = on_ec (decr_unallocated_rt n)"

definition ec_incr_total_cpu :: "u64 \<Rightarrow> 'a ECAPI_scheme \<Rightarrow> 'a ECAPI_scheme" where
  "ec_incr_total_cpu n = on_ec (incr_total_cpu n)"

definition ec_decr_total_cpu :: "u64 \<Rightarrow> 'a ECAPI_scheme \<Rightarrow> 'a ECAPI_scheme" where
  "ec_decr_total_cpu n = on_ec (decr_total_cpu n)"

definition ec_incr_overrun :: "u64 \<Rightarrow> 'a ECAPI_scheme \<Rightarrow> 'a ECAPI_scheme" where
  "ec_incr_overrun n = on_ec (incr_overrun n)"

definition ec_decr_overrun :: "u64 \<Rightarrow> 'a ECAPI_scheme \<Rightarrow> 'a ECAPI_scheme" where
  "ec_decr_overrun n = on_ec (decr_overrun n)"

definition ec_set_overrun :: "u64 \<Rightarrow> 'a ECAPI_scheme \<Rightarrow> 'a ECAPI_scheme" where
  "ec_set_overrun n = on_ec (set_overrun n)"

definition ec_set_unallocated_rt :: "u64 \<Rightarrow> 'a ECAPI_scheme \<Rightarrow> 'a ECAPI_scheme" where
  "ec_set_unallocated_rt n = on_ec (set_unallocated_rt n)"

definition ec_incr_alloc_rt :: "u64 \<Rightarrow> 'a ECAPI_scheme \<Rightarrow> 'a ECAPI_scheme" where
  "ec_incr_alloc_rt n = on_ec (incr_alloc_rt n)"

definition ec_decr_alloc_rt :: "u64 \<Rightarrow> 'a ECAPI_scheme \<Rightarrow> 'a ECAPI_scheme" where
  "ec_decr_alloc_rt n = on_ec (decr_alloc_rt n)"

definition ec_set_memory_limit_in_pages :: "i64 \<Rightarrow> 'a ECAPI_scheme \<Rightarrow> 'a ECAPI_scheme" where
  "ec_set_memory_limit_in_pages n = on_ec (set_memory_limit_in_pages n)"

definition ec_incr_memory_limit_in_pages :: "u64 \<Rightarrow> 'a ECAPI_scheme \<Rightarrow> 'a ECAPI_scheme" where
  "ec_incr_memory_limit_in_pages n = on_ec (incr_memory_limit_in_pages n)"

definition ec_decr_memory_limit_in_pages :: "u64 \<Rightarrow> 'a ECAPI_scheme \<Rightarrow> 'a ECAPI_scheme" where
  "ec_decr_memory_limit_in_pages n = on_ec (decr_memory_limit_in_pages n)"

definition ec_decr_unalloc_memory_in_pages :: "u64 \<Rightarrow> 'a ECAPI_scheme \<Rightarrow> 'a ECAPI_scheme" where
  "ec_decr_unalloc_memory_in_pages n = on_ec (decr_unalloc_memory_in_pages n)"

definition ec_incr_unalloc_memory_in_pages :: "u64 \<Rightarrow> 'a ECAPI_scheme \<Rightarrow> 'a ECAPI_scheme" where
  "ec_incr_unalloc_memory_in_pages n = on_ec (incr_unalloc_memory_in_pages n)"

definition ec_set_alloc_memory_in_pages :: "u64 \<Rightarrow> 'a ECAPI_scheme \<Rightarrow> 'a ECAPI_scheme" where
  "ec_set_alloc_memory_in_pages n = on_ec (set_alloc_memory_in_pages n)"

definition ec_incr_alloc_memory_in_pages :: "u64 \<Rightarrow> 'a ECAPI_scheme \<Rightarrow> 'a ECAPI_scheme" where
  "ec_incr_alloc_memory_in_pages n = on_ec (incr_alloc_memory_in_pages n)"

definition ec_decr_alloc_memory_in_pages :: "u64 \<Rightarrow> 'a ECAPI_scheme \<Rightarrow> 'a ECAPI_scheme" where
  "ec_decr_alloc_memory_in_pages n = on_ec (decr_alloc_memory_in_pages n)"

definition ec_set_unalloc_memory_in_pages :: "u64 \<Rightarrow> 'a ECAPI_scheme \<Rightarrow> u64 \<times> 'a ECAPI_scheme" where
  "ec_set_unalloc_memory_in_pages n s =
     (case set_unalloc_memory_in_pages n (ec s) of (r, e) \<Rightarrow> (r, s\<lparr>ec := e\<rparr>))"

definition ec_update_alloc_memory_in_pages :: "u64 \<Rightarrow> 'a ECAPI_scheme \<Rightarrow> 'a ECAPI_scheme" where
  "ec_update_alloc_memory_in_pages n s =
     ec_incr_alloc_memory_in_pages n (ec_decr_unalloc_memory_in_pages n s)"

definition ec_update_reclaim_memory_in_pages :: "u64 \<Rightarrow> 'a ECAPI_scheme \<Rightarrow> 'a ECAPI_scheme" where
  "ec_update_reclaim_memory_in_pages n s =
     ec_decr_alloc_memory_in_pages n (ec_incr_unalloc_memory_in_pages n s)"

section \<open>Containers and agents\<close>

definition ec_get_sc_for_update :: "'a ECAPI_scheme \<Rightarrow> ContainerId \<Rightarrow> sc_ptr result" where
  "ec_get_sc_for_update s k = get_sc_for_update_back (ec s) k"

definition sc_set_memory_limit_in_pages ::
  "ContainerId \<Rightarrow> u64 \<Rightarrow> 'a ECAPI_scheme \<Rightarrow> 'a ECAPI_scheme result" where
  "sc_set_memory_limit_in_pages k n s =
     bind_r (ec_get_sc_for_update s k) (\<lambda>p. bind_r (sc_deref (ec s) p) (\<lambda>sc.
       Inr (on_sc p (set_mem_limit_in_pages n) s)))"

definition sc_get_memory_limit_in_bytes_cadvisor ::
  "'v agent_env \<Rightarrow> ContainerId \<Rightarrow> 'a ECAPI_scheme \<Rightarrow> (u64 \<times> 'a ECAPI_scheme) result" where
  "sc_get_memory_limit_in_bytes_cadvisor env k s =
     bind_r (get_sc_memory_limit_in_bytes env k (ec s) (rpc_log s)) (\<lambda>(r, e, l).
       Inr (r, s\<lparr>ec := e, rpc_log := l\<rparr>))"

definition sc_get_memory_usage_in_bytes_cadvisor ::
  "'v agent_env \<Rightarrow> ContainerId \<Rightarrow> string \<Rightarrow> 'a ECAPI_scheme \<Rightarrow> (u64 \<times> 'a ECAPI_scheme) result" where
  "sc_get_memory_usage_in_bytes_cadvisor env k docker_id s =
     bind_r (get_sc_memory_usage_in_bytes env k docker_id (ec s) (rpc_log s)) (\<lambda>(r, e, l).
       Inr (r, s\<lparr>ec := e, rpc_log := l\<rparr>))"

text \<open>
  \<open>set_sc_quota_syscall\<close>: the busy wait \<open>while(!sc->sc_inserted())\<close> is never left by the thread
  that runs the handler, and no other thread sets the flag.
\<close>

definition set_sc_quota_syscall ::
  "'v agent_env \<Rightarrow> sc_ptr option \<Rightarrow> u64 \<Rightarrow> u32 \<Rightarrow> 'a ECAPI_scheme \<Rightarrow> (i64 \<times> 'a ECAPI_scheme) result" where
  "set_sc_quota_syscall env sc q seq_number s = (case sc of
     None \<Rightarrow> Inl Exit_Failure
   | Some p \<Rightarrow> bind_r (sc_deref (ec s) p) (\<lambda>sc.
       let diff_quota = q - get_quota sc;
           change = (if sint diff_quota < 0 then ''decr'' else ''incr'')
       in if \<not> inserted sc then Inl Never_Returns
          else (case get_corres_agent_client (c_id sc) (ec s) of (agent, e) \<Rightarrow>
                 (case agent of
                    None \<Rightarrow> Inl Exit_Failure
                  | Some ac \<Rightarrow>
                      (case updateContainerQuota env ac (cid_cgroup_id (c_id sc)) q change seq_number (rpc_log s) of
                         (ret, l) \<Rightarrow> Inr (scast ret, s\<lparr>ec := e, rpc_log := l\<rparr>))))))"

definition sc_resize_memory_limit_in_pages ::
  "'v agent_env \<Rightarrow> ContainerId \<Rightarrow> u64 \<Rightarrow> 'a ECAPI_scheme \<Rightarrow> (i64 \<times> 'a ECAPI_scheme) result" where
  "sc_resize_memory_limit_in_pages env k new_mem_limit s =
     (case get_corres_agent_client k (ec s) of (agent, e) \<Rightarrow>
       (case agent of
          None \<Rightarrow> Inl Exit_Failure
        | Some ac \<Rightarrow> bind_r (resizeMemoryLimitPages env ac (cid_cgroup_id k) new_mem_limit (rpc_log s))
            (\<lambda>(r, l). Inr (r, s\<lparr>ec := e, rpc_log := l\<rparr>))))"

definition PAGE_SIZE :: i64 where
  "PAGE_SIZE = 4096"

definition syscall_get_memory_usage_in_bytes ::
  "'v agent_env \<Rightarrow> ContainerId \<Rightarrow> 'a ECAPI_scheme \<Rightarrow> (u64 \<times> 'a ECAPI_scheme) result" where
  "syscall_get_memory_usage_in_bytes env k s =
     (case get_corres_agent_client k (ec s) of (agent, e) \<Rightarrow>
       (case agent of
          None \<Rightarrow> Inl Exit_Failure
        | Some ac \<Rightarrow> (case getMemoryUsageBytes env ac (cid_cgroup_id k) (rpc_log s) of
            (r, l) \<Rightarrow> Inr (r * PAGE_SIZE, s\<lparr>ec := e, rpc_log := l\<rparr>))))"

definition syscall_get_memory_limit_in_bytes ::
  "'v agent_env \<Rightarrow> ContainerId \<Rightarrow> 'a ECAPI_scheme \<Rightarrow> (u64 \<times> 'a ECAPI_scheme) result" where
  "syscall_get_memory_limit_in_bytes env k s =
     (case get_corres_agent_client k (ec s) of (agent, e) \<Rightarrow>
       (case agent of
          None \<Rightarrow> Inl Exit_Failure
        | Some ac \<Rightarrow> (case getMemoryLimitBytes env ac (cid_cgroup_id k) (rpc_log s) of
            (r, l) \<Rightarrow> Inr (r * PAGE_SIZE, s\<lparr>ec := e, rpc_log := l\<rparr>))))"

section \<open>A container connects\<close>

text \<open>The flag, the quota granted (the reference parameter) and the state.\<close>

definition determine_quota_for_new_pod :: "u64 \<Rightarrow> 'a ECAPI_scheme \<Rightarrow> i32 \<times> u64 \<times> 'a ECAPI_scheme" where
  "determine_quota_for_new_pod req_quota s =
     (if req_quota \<le> ec_get_cpu_unallocated_rt s then
        (0, req_quota, ec_incr_alloc_rt req_quota (ec_decr_unallocated_rt req_quota s))
      else if ec_get_cpu_unallocated_rt s = 0 then
        let q = ec_get_cpu_slice s in (1, q, ec_incr_alloc_rt q (ec_incr_overrun q s))
      else if req_quota > ec_get_cpu_unallocated_rt s then
        let q = ec_get_cpu_unallocated_rt s in (1, q, ec_incr_alloc_rt q (ec_set_unallocated_rt 0 s))
      else (0, req_quota, s))"

text \<open>The base class's handler; \<open>Manager\<close> overrides it.\<close>

definition ecapi_handle_add_cgroup_to_ec ::
  "'v agent_env \<Rightarrow> int \<Rightarrow> msg_t option \<Rightarrow> msg_t option \<Rightarrow> u32 \<Rightarrow> i32 \<Rightarrow> 'a ECAPI_scheme \<Rightarrow>
     (i32 \<times> msg_t option \<times> 'a ECAPI_scheme) result" where
  "ecapi_handle_add_cgroup_to_ec env now req res ip f s = (case (req, res) of
     (Some rq, Some rs) \<Rightarrow>
       (case determine_quota_for_new_pod (rsrc_amnt rq) s of (update_quota, q, s) \<Rightarrow>
        (case create_new_sc_quota now (msg_t.cgroup_id rq) ip f q (request rq) (ec s) of (p, e) \<Rightarrow>
        bind_r (insert_sc p e) (\<lambda>(ret, e).
        let s = s\<lparr>ec := update_fair_cpu_share e, agent_db := Some (get_agent_client_db_instance (agent_db s))\<rparr>
        in bind_r (sc_deref (ec s) p) (\<lambda>sc.
        let s = (case get_agent_client_by_ip (get_agent_client_db_instance (agent_db s)) (cid_server_ip (c_id sc)) of
                   Some ac \<Rightarrow> on_ec (add_to_sc_ac_map (c_id sc) ac) s | None \<Rightarrow> s)
        in bind_r (if update_quota \<noteq> 0 then set_sc_quota_syscall env (Some p) q 13 s else Inr (0, s))
             (\<lambda>(sys_ret, s). Inr (ret, Some (rs\<lparr>request := 0\<rparr>), s))))))
   | _ \<Rightarrow> Inr (ALLOC_FAILED, res, s))"

section \<open>Lemmas\<close>

lemmas forwarding [api_defs] =
  on_ec_def on_cpu_def on_mem_def set_slice_size_def incr_unallocated_rt_def
    decr_unallocated_rt_def set_unallocated_rt_def set_total_cpu_def incr_total_cpu_def
    decr_total_cpu_def incr_overrun_def decr_overrun_def set_overrun_def incr_alloc_rt_def
    decr_alloc_rt_def set_memory_limit_in_pages_def incr_memory_limit_in_pages_def
    decr_memory_limit_in_pages_def set_unalloc_memory_in_pages_def
    incr_unalloc_memory_in_pages_def decr_unalloc_memory_in_pages_def
    set_alloc_memory_in_pages_def incr_alloc_memory_in_pages_def decr_alloc_memory_in_pages_def
    ec_get_cpu_unallocated_rt_def ec_get_cpu_slice_def ec_get_fair_cpu_share_def
    ec_get_overrun_def ec_get_total_cpu_def ec_get_alloc_rt_def
    ec_get_unalloc_memory_in_pages_def ec_get_alloc_memory_in_pages_def ec_get_memory_slice_def
    ec_get_mem_limit_in_pages_def ec_resize_slice_def ec_incr_unallocated_rt_def
    ec_decr_unallocated_rt_def ec_incr_total_cpu_def ec_decr_total_cpu_def ec_incr_overrun_def
    ec_decr_overrun_def ec_set_overrun_def ec_set_unallocated_rt_def ec_incr_alloc_rt_def
    ec_decr_alloc_rt_def ec_set_memory_limit_in_pages_def ec_incr_memory_limit_in_pages_def
    ec_decr_memory_limit_in_pages_def ec_decr_unalloc_memory_in_pages_def
    ec_incr_unalloc_memory_in_pages_def ec_set_alloc_memory_in_pages_def
    ec_incr_alloc_memory_in_pages_def ec_decr_alloc_memory_in_pages_def
    ec_update_alloc_memory_in_pages_def ec_update_reclaim_memory_in_pages_def

lemmas sc_upd_api [api_defs] = sc_upd_def

text \<open>A container that is registered, marked as inserted and linked to an agent client.\<close>

definition connected :: "ElasticContainer \<Rightarrow> sc_ptr \<Rightarrow> SubContainer \<Rightarrow> AgentClient \<Rightarrow> bool" where
  "connected e p sc ac \<longleftrightarrow> sc_heap e p = Some sc \<and> inserted sc \<and>
     um_find cid_key (sc_ac_map e) (c_id sc) = Some (Some ac)"

lemma um_index_found: "um_find kf m k = Some v \<Longrightarrow> um_index kf k d m = (v, m)"
  by (simp add: um_index_def)

lemma get_corres_found:
  "um_find cid_key (sc_ac_map e) k = Some c \<Longrightarrow> get_corres_agent_client k e = (c, e)"
  by (simp add: get_corres_agent_client_def um_index_found)

text \<open>The request that a change of quota sends.\<close>

definition quota_request :: "SubContainer \<Rightarrow> AgentClient \<Rightarrow> u64 \<Rightarrow> u32 \<Rightarrow> event" where
  "quota_request sc ac q seq = Req_Quota_Update (ac_ptr ac) (cid_cgroup_id (c_id sc)) q
     (if sint (q - get_quota sc) < 0 then ''decr'' else ''incr'') seq"

lemma set_sc_quota_syscall_connected:
  assumes "connected (ec s) p sc ac"
  shows "set_sc_quota_syscall env (Some p) q seq s =
     (let l = rpc_log s @ [quota_request sc ac q seq] in Inr (scast (quota_status env l), s\<lparr>rpc_log := l\<rparr>))"
  using assms
  by (simp add: connected_def set_sc_quota_syscall_def sc_deref_def get_corres_found
      updateContainerQuota_def quota_request_def Let_def)

text \<open>It returns on connected containers only.\<close>

lemma set_sc_quota_syscall_Inr:
  assumes "set_sc_quota_syscall env (Some p) q seq s = Inr r"
  obtains sc ac where "connected (ec s) p sc ac"
  using assms that
  by (auto simp: set_sc_quota_syscall_def bind_r_eq_Inr sc_deref_def Let_def connected_def
      get_corres_agent_client_def um_index_def split: option.splits if_splits prod.splits)

subsection \<open>The quota of a new container\<close>

lemma determine_quota_cases:
  fixes s :: "'a ECAPI_scheme"
  defines "u \<equiv> unallocated_rt (ec_cpu (ec s))"
  shows "determine_quota_for_new_pod req s =
     (if req \<le> u then (0, req, ec_incr_alloc_rt req (ec_decr_unallocated_rt req s))
      else if u = 0 then
        (1, slice_size (ec_cpu (ec s)), ec_incr_alloc_rt (slice_size (ec_cpu (ec s)))
           (ec_incr_overrun (slice_size (ec_cpu (ec s))) s))
      else (1, u, ec_incr_alloc_rt u (ec_set_unallocated_rt 0 s)))"
  by (auto simp: determine_quota_for_new_pod_def ec_get_cpu_unallocated_rt_def ec_get_cpu_slice_def
      u_def Let_def)

lemma determine_quota_frame:
  assumes "determine_quota_for_new_pod req s = (flag, q, s')"
  shows "\<exists>c. s' = s\<lparr>ec := (ec s)\<lparr>ec_cpu := c\<rparr>\<rparr> \<and> total_cpu c = total_cpu (ec_cpu (ec s)) \<and>
     slice_size c = slice_size (ec_cpu (ec s)) \<and> alloc_rt c = alloc_rt (ec_cpu (ec s)) + q"
  using assms unfolding determine_quota_cases by (auto simp: api_defs stat_simps split: if_splits)

text \<open>No CPU time is created or lost when a container connects.\<close>

lemma determine_quota_ledger:
  assumes "determine_quota_for_new_pod req s = (flag, q, s')" and "cpu_small (ec_cpu (ec s))"
  shows "cpu_ledger (ec_cpu (ec s')) = cpu_ledger (ec_cpu (ec s))"
proof -
  have "unat (unallocated_rt (ec_cpu (ec s))) < 2 ^ 63"
    using assms(2) by (simp add: cpu_small_def)
  then have "req \<le> unallocated_rt (ec_cpu (ec s)) \<Longrightarrow> \<not> sint (unallocated_rt (ec_cpu (ec s)) - req) < 0"
    by (intro decr_exact) (simp_all add: word_le_nat_alt)
  then show ?thesis
    using assms(1) unfolding determine_quota_cases
    by (auto simp: api_defs stat_simps cpu_ledger_decr split: if_splits)
       (simp add: cpu_ledger_def stat_simps)
qed

end
