(* ===== verification/Manager_Cpu.thy ===== *)
theory Manager_Cpu
  imports Ecapi
begin

text \<open>
  \<open>Manager.h\<close>, \<open>Manager.cpp\<close>, first part: the state of a controller, the handler of CPU usage
  reports and the check for idle containers.

  \<open>handle_cpu_usage_report\<close> is split along its branches: each \<open>cpu_*\<close> definition below is one
  block of the function, and the handler composes them in the order of the source. A handler runs
  without interleaving. Signed 64-bit arithmetic wraps; the theorems about it stay in ranges where
  it does not.

  The threads that were detached (\<open>determine_mem_limit_for_new_pod\<close>) are the list \<open>mem_limit_jobs\<close>.
\<close>

section \<open>State\<close>

record Manager = ECAPI +
  manager_id :: i32
  syscall_sequence_number :: i64
  cpuleak :: i64
  deploy_service_ip :: string
  grpc_port :: i32
  mem_limit_jobs :: "(sc_ptr \<times> i32) list"

definition req_CPU :: u32 where "req_CPU = 0"
definition req_MEM :: u32 where "req_MEM = 1"
definition req_INIT :: u32 where "req_INIT = 2"

definition MAX_CPU_LOSS_IN_NS :: int where "MAX_CPU_LOSS_IN_NS = 1000"
definition MAX_UNUSED_RT_IN_NS :: u64 where "MAX_UNUSED_RT_IN_NS = 5000000"

section \<open>Changing a quota\<close>

text \<open>
  The pattern of every branch: ask the agent, and update the books only when the call was
  accepted (\<open>int ret\<close> keeps the low 32 bits).
\<close>

definition with_quota_syscall ::
  "'v agent_env \<Rightarrow> sc_ptr \<Rightarrow> u64 \<Rightarrow> u32 \<Rightarrow> ('a ECAPI_scheme \<Rightarrow> 'a ECAPI_scheme) \<Rightarrow>
     'a ECAPI_scheme \<Rightarrow> 'a ECAPI_scheme result" where
  "with_quota_syscall env p q seq commit s =
     bind_r (set_sc_quota_syscall env (Some p) q seq s) (\<lambda>(ret, s).
       Inr (if (ucast ret :: i32) \<noteq> 0 then s else commit s))"

section \<open>Blocks of the handler\<close>

text \<open>Lines 113 to 135: \<open>True\<close> when the handler returns here.\<close>

definition cpu_check_mismatch :: "sc_ptr \<Rightarrow> u64 \<Rightarrow> 'a ECAPI_scheme \<Rightarrow> (bool \<times> 'a ECAPI_scheme) result" where
  "cpu_check_mismatch p rx_quota s = bind_r (sc_deref (ec s) p) (\<lambda>sc.
     if rx_quota div 1000 \<noteq> get_quota sc div 1000 then
       (case incr_quota_mismatch_counter sc of (old, sc') \<Rightarrow>
          let s = on_sc p (\<lambda>_. sc') s in
          if 2 < sint old then
            let s = (if rx_quota < get_quota sc then
                       let diff = get_quota sc - rx_quota in
                       ec_incr_unallocated_rt diff (ec_decr_alloc_rt diff
                         (on_sc p sc_flush (on_sc p (set_quota rx_quota) s)))
                     else
                       let diff = rx_quota - get_quota sc in
                       ec_incr_alloc_rt diff (on_sc p sc_flush (on_sc p (set_quota rx_quota)
                         (ec_decr_unallocated_rt diff s))))
            in Inr (False, on_sc p reset_quota_mismatch_counter s)
          else Inr (True, s))
     else Inr (False, s))"

text \<open>Lines 137 to 144.\<close>

definition cpu_fix_leak :: "'a Manager_scheme \<Rightarrow> 'a Manager_scheme" where
  "cpu_fix_leak s =
     (let total_rt_in_sys = ec_get_alloc_rt s + ec_get_cpu_unallocated_rt s;
          leak = cpuleak s + (ec_get_total_cpu s - total_rt_in_sys);
          s = s\<lparr>cpuleak := leak\<rparr>
      in if MAX_CPU_LOSS_IN_NS \<le> sint leak then (ec_incr_unallocated_rt leak s)\<lparr>cpuleak := 0\<rparr> else s)"

text \<open>Lines 146 and 147.\<close>

definition cpu_insert_stats ::
  "sc_ptr \<Rightarrow> u64 \<Rightarrow> u32 \<Rightarrow> 'a ECAPI_scheme \<Rightarrow> (u64 \<times> double \<times> 'a ECAPI_scheme) result" where
  "cpu_insert_stats p rt_remaining throttled s = bind_r (sc_deref (ec s) p) (\<lambda>sc.
     bind_r (insert_rt_stats rt_remaining (cpu sc)) (\<lambda>(rt_mean, c).
     case insert_th_stats throttled c of (thr_mean, c) \<Rightarrow>
       Inr (rt_mean, thr_mean, on_sc p (\<lambda>sc. sc\<lparr>cpu := c\<rparr>) s)))"

text \<open>Lines 150 to 167: a container that was idle gets up to one core.\<close>

definition cpu_wake_idle ::
  "'v agent_env \<Rightarrow> sc_ptr \<Rightarrow> u64 \<Rightarrow> u32 \<Rightarrow> 'a ECAPI_scheme \<Rightarrow> 'a ECAPI_scheme result" where
  "cpu_wake_idle env p rx_quota seq s =
     (let new_quota = min (ec_get_cpu_unallocated_rt s) 100000000; extra_rt = new_quota - rx_quota
      in if 0 < extra_rt then
           with_quota_syscall env p new_quota seq (\<lambda>s.
             ec_incr_alloc_rt extra_rt (on_sc p sc_flush (on_sc p (set_quota new_quota)
               (ec_decr_unallocated_rt extra_rt (on_sc p (sc_set_quota_flag True) s))))) s
         else Inr s)"

text \<open>Lines 169 to 183: how much an over-provisioned container has to give back.\<close>

definition cpu_overrun_to_sub :: "u64 \<Rightarrow> u64 \<Rightarrow> u64 \<Rightarrow> u64 \<Rightarrow> u64 result" where
  "cpu_overrun_to_sub rx_quota fair sl over =
     (let amnt_share_over = rx_quota - fair;
          percent_over = d_div (d_sub (d_of_u64 rx_quota) (d_of_u64 fair)) (d_of_u64 fair)
      in bind_r (if d_less (Fin 1) percent_over then d_to_u64 (d_mul percent_over (d_of_u64 sl))
                 else d_to_u64 (d_mul percent_over (d_of_u64 amnt_share_over)))
           (\<lambda>to_sub. Inr (min over (if to_sub < sl div 2 then amnt_share_over else to_sub))))"

text \<open>Lines 168 to 196.\<close>

definition cpu_reduce_overrun ::
  "'v agent_env \<Rightarrow> sc_ptr \<Rightarrow> u64 \<Rightarrow> u32 \<Rightarrow> 'a ECAPI_scheme \<Rightarrow> 'a ECAPI_scheme result" where
  "cpu_reduce_overrun env p rx_quota seq s =
     bind_r (cpu_overrun_to_sub rx_quota (ec_get_fair_cpu_share s) (ec_get_cpu_slice s) (ec_get_overrun s))
       (\<lambda>to_sub. let updated_quota = rx_quota - to_sub in
          with_quota_syscall env p updated_quota seq (\<lambda>s.
            ec_decr_alloc_rt to_sub (on_sc p (set_quota updated_quota) (ec_decr_overrun to_sub
              (on_sc p sc_flush (on_sc p (sc_set_quota_flag True) s))))) s)"

text \<open>Lines 201 to 207 and 223 to 229: the amount by which a container below its share grows.\<close>

definition percent_under :: "u64 \<Rightarrow> u64 \<Rightarrow> double" where
  "percent_under fair rx_quota = d_div (d_sub (d_of_u64 fair) (d_of_u64 rx_quota)) (d_of_u64 fair)"

definition cpu_fair_to_add :: "u64 \<Rightarrow> u64 \<Rightarrow> u64 \<Rightarrow> u64 \<Rightarrow> u64 result" where
  "cpu_fair_to_add rx_quota fair sl unalloc =
     (let amnt_share_lacking = fair - rx_quota in
      if sl div 2 < amnt_share_lacking then
        bind_r (d_to_u64 (d_mul (percent_under fair rx_quota) (d_of_u64 amnt_share_lacking)))
          (\<lambda>x. Inr (min unalloc x))
      else Inr amnt_share_lacking)"

definition cpu_fair_overrun :: "u64 \<Rightarrow> u64 \<Rightarrow> u64 \<Rightarrow> u64 result" where
  "cpu_fair_overrun rx_quota fair sl =
     (let amnt_share_lacking = fair - rx_quota in
      if sl div 2 < amnt_share_lacking
      then d_to_u64 (d_mul (percent_under fair rx_quota) (d_of_u64 amnt_share_lacking))
      else Inr amnt_share_lacking)"

text \<open>Lines 197 to 243.\<close>

definition cpu_grow_to_fair ::
  "'v agent_env \<Rightarrow> sc_ptr \<Rightarrow> u64 \<Rightarrow> u32 \<Rightarrow> 'a ECAPI_scheme \<Rightarrow> 'a ECAPI_scheme result" where
  "cpu_grow_to_fair env p rx_quota seq s =
     (if 0 < ec_get_cpu_unallocated_rt s then
        bind_r (cpu_fair_to_add rx_quota (ec_get_fair_cpu_share s) (ec_get_cpu_slice s) (ec_get_cpu_unallocated_rt s))
          (\<lambda>to_add. let updated_quota = rx_quota + to_add in
             with_quota_syscall env p updated_quota seq (\<lambda>s.
               ec_incr_alloc_rt to_add (on_sc p sc_flush (on_sc p (set_quota updated_quota)
                 (ec_decr_unallocated_rt to_add (on_sc p (sc_set_quota_flag True) s))))) s)
      else
        bind_r (cpu_fair_overrun rx_quota (ec_get_fair_cpu_share s) (ec_get_cpu_slice s))
          (\<lambda>over. let updated_quota = rx_quota + over in
             with_quota_syscall env p updated_quota seq (\<lambda>s.
               ec_incr_alloc_rt over (on_sc p sc_flush (on_sc p (set_quota updated_quota)
                 (ec_incr_overrun over (on_sc p (sc_set_quota_flag True) s))))) s))"

text \<open>Lines 244 to 260: a throttled container above its share.\<close>

definition cpu_grow_throttled ::
  "'v agent_env \<Rightarrow> sc_ptr \<Rightarrow> u64 \<Rightarrow> double \<Rightarrow> u32 \<Rightarrow> 'a ECAPI_scheme \<Rightarrow> 'a ECAPI_scheme result" where
  "cpu_grow_throttled env p rx_quota thr_mean seq s =
     bind_r (d_to_u64 (d_mul (d_mul (Fin 20) thr_mean) (d_of_u64 (ec_get_cpu_slice s)))) (\<lambda>x.
       let extra_rt = min (ec_get_cpu_unallocated_rt s) x in
       if 0 < extra_rt then
         let updated_quota = rx_quota + extra_rt in
         with_quota_syscall env p updated_quota seq (\<lambda>s.
           ec_incr_alloc_rt extra_rt (on_sc p sc_flush (on_sc p (set_quota updated_quota)
             (ec_decr_unallocated_rt extra_rt (on_sc p (sc_set_quota_flag True) s))))) s
       else Inr s)"

text \<open>Lines 264 to 276 and 281 to 293: give back down to \<open>new_quota\<close>.\<close>

definition cpu_shrink_to ::
  "'v agent_env \<Rightarrow> sc_ptr \<Rightarrow> u64 \<Rightarrow> u64 \<Rightarrow> u32 \<Rightarrow> 'a ECAPI_scheme \<Rightarrow> 'a ECAPI_scheme result" where
  "cpu_shrink_to env p rx_quota new_quota seq s =
     (if new_quota \<noteq> rx_quota then
        with_quota_syscall env p new_quota seq (\<lambda>s.
          ec_decr_alloc_rt (rx_quota - new_quota) (on_sc p sc_flush (on_sc p (set_quota new_quota)
            (ec_incr_unallocated_rt (rx_quota - new_quota) (on_sc p (sc_set_quota_flag True) s))))) s
      else Inr s)"

text \<open>Lines 262 and 263: keep 80 percent, but at least a slice.\<close>

definition cpu_shrunk_quota :: "u64 \<Rightarrow> u64 \<Rightarrow> u64 result" where
  "cpu_shrunk_quota rx_quota sl =
     bind_r (d_to_u64 (d_mul (d_of_u64 rx_quota) (d_sub (Fin 1) (to_double (1 / 5))))) (\<lambda>n. Inr (max sl n))"

text \<open>Lines 150 to 294: the branches.\<close>

definition cpu_adjust ::
  "'v agent_env \<Rightarrow> sc_ptr \<Rightarrow> u64 \<Rightarrow> u64 \<Rightarrow> bool \<Rightarrow> u64 \<Rightarrow> double \<Rightarrow> u32 \<Rightarrow> 'a ECAPI_scheme \<Rightarrow> 'a ECAPI_scheme result" where
  "cpu_adjust env p rx_quota rt_remaining idle_flag rt_mean thr_mean seq s =
     (let percent_decr = d_div (d_of_i64 (rx_quota - (rx_quota - rt_remaining))) (d_of_u64 rx_quota) in
      if idle_flag \<and> 0 < ec_get_cpu_unallocated_rt s then cpu_wake_idle env p rx_quota seq s
      else if 0 < ec_get_overrun s \<and> ec_get_fair_cpu_share s < rx_quota then cpu_reduce_overrun env p rx_quota seq s
      else if rx_quota < ec_get_fair_cpu_share s \<and> d_less (Fin (1 / 2)) thr_mean then cpu_grow_to_fair env p rx_quota seq s
      else if d_leq (to_double (1 / 10)) thr_mean \<and> 0 < ec_get_cpu_unallocated_rt s then
        cpu_grow_throttled env p rx_quota thr_mean seq s
      else if d_less (to_double (1 / 5)) percent_decr \<and> ec_get_cpu_slice s \<le> rx_quota then
        bind_r (cpu_shrunk_quota rx_quota (ec_get_cpu_slice s)) (\<lambda>q. cpu_shrink_to env p rx_quota q seq s)
      else if MAX_UNUSED_RT_IN_NS < rt_mean \<and> ec_get_cpu_slice s < rx_quota then
        cpu_shrink_to env p rx_quota (max (ec_get_cpu_slice s) (rx_quota - MAX_UNUSED_RT_IN_NS)) seq s
      else Inr s)"

text \<open>Lines 94 to 111: what a report changes in the container before anything is decided.\<close>

definition cpu_note_report :: "int \<Rightarrow> u64 \<Rightarrow> SubContainer \<Rightarrow> SubContainer" where
  "cpu_note_report now rx_seq sc =
     (let sc = incr_cpustat_seq_num (update_last_seen_ts now sc)
      in if get_seq_num sc \<noteq> rx_seq then set_cpustat_seq_num rx_seq sc else sc)"

section \<open>The handler\<close>

definition handle_cpu_usage_report ::
  "'v agent_env \<Rightarrow> int \<Rightarrow> msg_t option \<Rightarrow> msg_t option \<Rightarrow> 'a Manager_scheme \<Rightarrow>
     (i32 \<times> msg_t option \<times> 'a Manager_scheme) result" where
  "handle_cpu_usage_report env now req res s = (case (req, res) of
     (Some rq, Some rs) \<Rightarrow>
       if req_type rq \<noteq> req_CPU then Inr (ALLOC_FAILED, res, s)
       else bind_r (ec_get_sc_for_update s (ContainerId_new (msg_t.cgroup_id rq) (client_ip rq))) (\<lambda>p.
            bind_r (sc_deref (ec s) p) (\<lambda>sc.
            let idle_flag = check_if_idle now sc;
                seq = ucast (syscall_sequence_number s);
                s = on_sc p (cpu_note_report now (cpustat_seq_num rq)) s
            in bind_r (cpu_check_mismatch p (rsrc_amnt rq) s) (\<lambda>(stop, s).
               if stop then Inr (ALLOC_SUCCESS, Some (rs\<lparr>request := 1\<rparr>), s)
               else bind_r (cpu_insert_stats p (runtime_remaining rq) (request rq) (cpu_fix_leak s))
                 (\<lambda>(rt_mean, thr_mean, s).
                    bind_r (cpu_adjust env p (rsrc_amnt rq) (runtime_remaining rq) idle_flag rt_mean thr_mean seq s)
                      (\<lambda>s. Inr (ALLOC_SUCCESS, Some (rs\<lparr>request := 1\<rparr>),
                              s\<lparr>syscall_sequence_number := syscall_sequence_number s + 1\<rparr>))))))
   | _ \<Rightarrow> Inl Exit_Failure)"

section \<open>Idle containers\<close>

definition idle_min_quota :: u64 where
  "idle_min_quota = 30000000"

text \<open>
  One pass of the loop in \<open>check_for_idle_containers\<close>: the entries of the map in turn, with the
  thread's own sequence number.
\<close>

fun idle_pass ::
  "'v agent_env \<Rightarrow> int \<Rightarrow> (ContainerId \<times> sc_ptr list) list \<Rightarrow> u32 \<Rightarrow> 'a ECAPI_scheme \<Rightarrow> (u32 \<times> 'a ECAPI_scheme) result" where
  "idle_pass env now [] seq s = Inr (seq, s)"
| "idle_pass env now ((k, q) # m) seq s =
     bind_r (queue_back q) (\<lambda>p. bind_r (sc_deref (ec s) p) (\<lambda>sc.
       if check_if_idle now sc \<and> get_quota sc \<noteq> idle_min_quota then
         let idle_quota = get_quota sc in
         bind_r (with_quota_syscall env p idle_min_quota seq (\<lambda>s.
             ec_decr_alloc_rt (idle_quota - idle_min_quota) (on_sc p sc_flush (on_sc p (set_quota idle_min_quota)
               (ec_incr_unallocated_rt (idle_quota - idle_min_quota) (on_sc p (sc_set_quota_flag True) s))))) s)
           (\<lambda>s. idle_pass env now m (seq + 1) s)
       else idle_pass env now m seq s))"

definition check_for_idle_containers ::
  "'v agent_env \<Rightarrow> int \<Rightarrow> u32 \<Rightarrow> 'a ECAPI_scheme \<Rightarrow> (u32 \<times> 'a ECAPI_scheme) result" where
  "check_for_idle_containers env now seq s = idle_pass env now (subcontainers (ec s)) seq s"

section \<open>Transfers: what the handler promises\<close>

text \<open>
  The abstract view of a change of quota: runtime moves between a container and the pool, or is
  borrowed beyond the application's total and repaid. \<open>apply_transfer\<close> is its effect on the books,
  \<open>transfer_quota\<close> its effect on the container's quota.
\<close>

datatype transfer = Grant u64 | Give_Back u64 | Borrow u64 | Repay u64

fun apply_transfer :: "transfer \<Rightarrow> cpu_g \<Rightarrow> cpu_g" where
  "apply_transfer (Grant n) c = cpu_incr_alloc_rt n (cpu_decr_unallocated_rt n c)"
| "apply_transfer (Give_Back n) c = cpu_decr_alloc_rt n (cpu_incr_unallocated_rt n c)"
| "apply_transfer (Borrow n) c = cpu_incr_alloc_rt n (cpu_incr_overrun n c)"
| "apply_transfer (Repay n) c = cpu_decr_alloc_rt n (cpu_decr_overrun n c)"

fun transfer_quota :: "transfer \<Rightarrow> u64 \<Rightarrow> u64" where
  "transfer_quota (Grant n) q = q + n"
| "transfer_quota (Give_Back n) q = q - n"
| "transfer_quota (Borrow n) q = q + n"
| "transfer_quota (Repay n) q = q - n"

text \<open>No decrement of the transfer is cut off at zero.\<close>

fun transfer_exact :: "transfer \<Rightarrow> cpu_g \<Rightarrow> bool" where
  "transfer_exact (Grant n) c = (\<not> sint (unallocated_rt c - n) < 0)"
| "transfer_exact (Give_Back n) c = (\<not> sint (alloc_rt c - n) < 0)"
| "transfer_exact (Borrow n) c = True"
| "transfer_exact (Repay n) c = (\<not> sint (overrun c - n) < 0 \<and> \<not> sint (alloc_rt c - n) < 0)"

lemma transfer_ledger: "transfer_exact t c \<Longrightarrow> cpu_ledger (apply_transfer t c) = cpu_ledger c"
  by (cases t) (auto simp: stat_simps cpu_ledger_decr)

lemma transfer_alloc:
  "transfer_exact t c \<Longrightarrow> alloc_rt (apply_transfer t c) - alloc_rt c = transfer_quota t q - q"
  by (cases t) (auto simp: stat_simps alloc_ctr.get_decr)

lemma transfer_frame [simp]:
  "total_cpu (apply_transfer t c) = total_cpu c" "slice_size (apply_transfer t c) = slice_size c"
  by (cases t; simp add: stat_simps)+

text \<open>The container after a change of quota.\<close>

definition requota :: "u64 \<Rightarrow> SubContainer \<Rightarrow> SubContainer" where
  "requota q sc = sc_flush (set_quota q (sc_set_quota_flag True sc))"

lemma requota_frame [simp]:
  "get_quota (requota q sc) = q" "cid_key (c_id (requota q sc)) = cid_key (c_id sc)"
  "c_id (requota q sc) = c_id sc" "inserted (requota q sc) = inserted sc"
  by (simp_all add: requota_def) (simp add: state_defs)

lemma flush_set_quota: "set_quota q (sc_flush sc) = sc_flush (set_quota q sc)"
  by (simp add: state_defs)

text \<open>
  A transfer carried out for a container: one request with the new quota goes to the agent of the
  container's node; when it is accepted, the books and the container follow.
\<close>

definition requota_step ::
  "'v agent_env \<Rightarrow> sc_ptr \<Rightarrow> u64 \<Rightarrow> transfer \<Rightarrow> u32 \<Rightarrow> 'a ECAPI_scheme \<Rightarrow> 'a ECAPI_scheme \<Rightarrow> bool" where
  "requota_step env p old t seq s s' \<longleftrightarrow> (\<exists>sc ac. connected (ec s) p sc ac \<and>
     (let q = transfer_quota t old; l = rpc_log s @ [quota_request sc ac q seq] in
      s' = (if quota_status env l \<noteq> 0 then s\<lparr>rpc_log := l\<rparr>
            else s\<lparr>rpc_log := l, ec := (ec s)\<lparr>ec_cpu := apply_transfer t (ec_cpu (ec s)),
                    sc_heap := (sc_heap (ec s))(p \<mapsto> requota q sc)\<rparr>\<rparr>)))"

lemma ucast_scast_i32 [simp]: "(ucast (scast (w :: i32) :: i64) :: i32) = w"
  by (rule bit_word_eqI) (simp add: bit_simps)

lemma with_quota_syscall_step:
  assumes "with_quota_syscall env p (transfer_quota t old) seq commit s = Inr s'"
    and commit: "\<And>sc l. sc_heap (ec s) p = Some sc \<Longrightarrow> commit (s\<lparr>rpc_log := l\<rparr>) =
      s\<lparr>rpc_log := l, ec := (ec s)\<lparr>ec_cpu := apply_transfer t (ec_cpu (ec s)),
          sc_heap := (sc_heap (ec s))(p \<mapsto> requota (transfer_quota t old) sc)\<rparr>\<rparr>"
  shows "requota_step env p old t seq s s'"
proof -
  obtain sc ac where c: "connected (ec s) p sc ac"
    using assms(1) unfolding with_quota_syscall_def bind_r_eq_Inr
    by (auto elim: set_sc_quota_syscall_Inr)
  then have "sc_heap (ec s) p = Some sc" by (simp add: connected_def)
  from commit [OF this] c assms(1) show ?thesis
    unfolding requota_step_def with_quota_syscall_def set_sc_quota_syscall_connected [OF c] Let_def
    by (auto intro!: exI [of _ sc] exI [of _ ac])
qed

subsection \<open>Each branch is one transfer\<close>

lemmas commit_simps = api_defs requota_def flush_set_quota

lemma wake_idle_step:
  assumes "cpu_wake_idle env p rx seq s = Inr s'"
  shows "s' = s \<or> requota_step env p rx (Grant (min (ec_get_cpu_unallocated_rt s) 100000000 - rx)) seq s s'"
  using assms unfolding cpu_wake_idle_def Let_def
  by (auto split: if_splits intro!: with_quota_syscall_step simp: commit_simps)

lemma reduce_overrun_step:
  assumes "cpu_reduce_overrun env p rx seq s = Inr s'"
  shows "\<exists>n. cpu_overrun_to_sub rx (ec_get_fair_cpu_share s) (ec_get_cpu_slice s) (ec_get_overrun s) = Inr n \<and>
     requota_step env p rx (Repay n) seq s s'"
  using assms unfolding cpu_reduce_overrun_def bind_r_eq_Inr Let_def
  by (auto intro!: with_quota_syscall_step simp: commit_simps)

lemma grow_to_fair_step:
  assumes "cpu_grow_to_fair env p rx seq s = Inr s'"
  shows "\<exists>n. 0 < ec_get_cpu_unallocated_rt s \<and>
       cpu_fair_to_add rx (ec_get_fair_cpu_share s) (ec_get_cpu_slice s) (ec_get_cpu_unallocated_rt s) = Inr n \<and>
       requota_step env p rx (Grant n) seq s s' \<or>
     ec_get_cpu_unallocated_rt s = 0 \<and>
       cpu_fair_overrun rx (ec_get_fair_cpu_share s) (ec_get_cpu_slice s) = Inr n \<and>
       requota_step env p rx (Borrow n) seq s s'"
  using assms unfolding cpu_grow_to_fair_def bind_r_eq_Inr Let_def
  by (auto split: if_splits simp: bind_r_eq_Inr commit_simps word_gt_0 intro!: with_quota_syscall_step)

lemma grow_throttled_step:
  assumes "cpu_grow_throttled env p rx thr seq s = Inr s'"
  shows "s' = s \<or> (\<exists>n \<le> ec_get_cpu_unallocated_rt s. requota_step env p rx (Grant n) seq s s')"
proof -
  obtain x where x: "(let extra_rt = min (ec_get_cpu_unallocated_rt s) x in
       if 0 < extra_rt then
         let updated_quota = rx + extra_rt in
         with_quota_syscall env p updated_quota seq (\<lambda>s.
           ec_incr_alloc_rt extra_rt (on_sc p sc_flush (on_sc p (set_quota updated_quota)
             (ec_decr_unallocated_rt extra_rt (on_sc p (sc_set_quota_flag True) s))))) s
       else Inr s) = Inr s'"
    using assms unfolding cpu_grow_throttled_def bind_r_eq_Inr by auto
  then have "s' = s \<or> requota_step env p rx (Grant (min (ec_get_cpu_unallocated_rt s) x)) seq s s'"
    unfolding Let_def by (auto split: if_splits intro!: with_quota_syscall_step simp: commit_simps)
  then show ?thesis by (meson min.cobounded1)
qed

lemma shrink_to_step:
  assumes "cpu_shrink_to env p rx q seq s = Inr s'"
  shows "s' = s \<or> requota_step env p rx (Give_Back (rx - q)) seq s s'"
  using assms unfolding cpu_shrink_to_def
  by (auto split: if_splits intro!: with_quota_syscall_step simp: commit_simps)

subsection \<open>How much is moved\<close>

lemma unat_diff: "b \<le> a \<Longrightarrow> unat (a - b :: u64) = unat a - unat b"
  by (simp add: unat_sub)

text \<open>Repaying never takes more than the overrun; with shares of at least a slice it leaves quota.\<close>

lemma overrun_to_sub_le: "cpu_overrun_to_sub rx fair sl over = Inr n \<Longrightarrow> n \<le> over"
  by (auto simp: cpu_overrun_to_sub_def Let_def bind_r_eq_Inr)

lemma overrun_percent:
  assumes "fair < rx" and "fair \<noteq> 0" and "unat rx \<le> 2 ^ 53"
  shows "d_div (d_sub (d_of_u64 rx) (d_of_u64 fair)) (d_of_u64 fair) =
     Fin (rnd (of_nat (unat rx - unat fair) / of_nat (unat fair)))"
proof -
  have f: "unat fair \<le> 2 ^ 53" "unat rx - unat fair \<le> 2 ^ 53"
    using assms by (simp_all add: word_less_nat_alt)
  show ?thesis
    using d_sub_exact [of fair rx] d_ratio(1) [OF f(2) assms(2) f(1)] assms(1,3) by simp
qed

lemma overrun_to_sub_bound:
  assumes "fair < rx" and "fair \<noteq> 0" and "unat rx \<le> 2 ^ 53" and "sl \<le> fair"
  shows "\<exists>n. cpu_overrun_to_sub rx fair sl over = Inr n \<and> n \<le> over \<and> n < rx"
proof -
  define D where "D = unat rx - unat fair"
  define F where "F = unat fair"
  define P where "P = rnd (of_nat D / of_nat F)"
  define K where "K = (D + F - 1) div F"
  have F: "0 < F" "unat rx = D + F" "unat sl \<le> F"
    using assms by (auto simp: F_def D_def unat_gt_0 word_less_nat_alt word_le_nat_alt)
  have small: "D + F \<le> 2 ^ 53" using assms(3) F(2) by simp
  have K: "D \<le> K * F" "K * F < D + F"
    using dividend_less_div_times [OF F(1), of "D + F - 1"] div_times_less_eq_dividend [of "D + F - 1" F] F(1)
    unfolding K_def [symmetric] by linarith+
  moreover have "K \<le> K * F" using F(1) by simp
  ultimately have K3: "K \<le> 2 ^ 53" "K * unat sl < D + F" "D \<le> 2 ^ 53" "F \<le> 2 ^ 53" "unat sl \<le> 2 ^ 53"
    using small F(3) mult_le_mono2 [OF F(3), of K] by linarith+
  have pc: "d_div (d_sub (d_of_u64 rx) (d_of_u64 fair)) (d_of_u64 fair) = Fin P"
    unfolding P_def D_def F_def by (rule overrun_percent [OF assms(1-3)])
  have P: "0 \<le> P" "P \<le> of_nat K"
    unfolding P_def F_def using d_ratio(2) [OF K3(3) assms(2), of K] d_ratio(3) [OF K3(3) assms(2)] K K3
    by (auto simp: F_def)
  have over: "unat (rx - fair) = D" using assms(1) by (simp add: D_def unat_diff)
  have "\<exists>n. (if d_less (Fin 1) (Fin P) then d_to_u64 (d_mul (Fin P) (d_of_u64 sl))
             else d_to_u64 (d_mul (Fin P) (d_of_u64 (rx - fair)))) = Inr n \<and> unat n < D + F"
  proof (cases "1 < P")
    case True
    have "K * unat sl \<le> 2 ^ 53" using K3(2) small by linarith
    from d_to_u64_scaled [OF P this K3(5)] True K3(2) show ?thesis by auto
  next
    case False
    then have "P \<le> of_nat 1" by simp
    from d_to_u64_scaled [OF P(1) this, of "rx - fair"] False over K3(3) F(1) show ?thesis by auto
  qed
  then obtain n where n: "(if d_less (Fin 1) (Fin P) then d_to_u64 (d_mul (Fin P) (d_of_u64 sl))
             else d_to_u64 (d_mul (Fin P) (d_of_u64 (rx - fair)))) = Inr n" "n < rx"
    by (auto simp: word_less_nat_alt F(2))
  have "rx - fair < rx" using over F(1,2) by (simp add: word_less_nat_alt)
  then show ?thesis
    unfolding cpu_overrun_to_sub_def Let_def pc n(1) using n(2) by (auto simp: min_less_iff_disj)
qed

text \<open>Growing towards the fair share never overshoots it.\<close>

lemma fair_scaled:
  assumes "rx < fair" and "unat fair \<le> 2 ^ 53"
  shows "\<exists>n. d_to_u64 (d_mul (percent_under fair rx) (d_of_u64 (fair - rx))) = Inr n \<and> n \<le> fair - rx"
proof -
  have r: "rx \<le> fair" "unat rx < unat fair" "fair \<noteq> 0"
    using assms(1) by (auto simp: word_less_nat_alt word_le_nat_alt)
  define D where "D = unat fair - unat rx"
  have D: "D \<le> 2 ^ 53" "unat (fair - rx) = D" "D \<le> 1 * unat fair"
    using assms(2) r by (simp_all add: D_def unat_diff)
  have "percent_under fair rx = Fin (rnd (of_nat D / of_nat (unat fair)))"
    unfolding percent_under_def d_sub_exact [OF r(1) assms(2)] D_def [symmetric]
    by (rule d_ratio(1) [OF D(1) r(3) assms(2)])
  moreover from d_ratio(2) [OF D(1) r(3) assms(2), of 1] d_ratio(3) [OF D(1) r(3) assms(2)] D(3)
  have "rnd (of_nat D / of_nat (unat fair)) \<le> of_nat 1" "0 \<le> rnd (of_nat D / of_nat (unat fair))" by simp_all
  ultimately show ?thesis
    using d_to_u64_scaled [of "rnd (of_nat D / of_nat (unat fair))" 1 "fair - rx"] D
    by (auto simp: word_le_nat_alt)
qed

lemma fair_to_add_bound:
  assumes "rx < fair" and "unat fair \<le> 2 ^ 53"
  shows "\<exists>n. cpu_fair_to_add rx fair sl unalloc = Inr n \<and> n \<le> fair - rx"
    and "\<exists>n. cpu_fair_overrun rx fair sl = Inr n \<and> n \<le> fair - rx"
  using fair_scaled [OF assms]
  by (auto simp: cpu_fair_to_add_def cpu_fair_overrun_def Let_def min_le_iff_disj)

text \<open>Shrinking keeps at least a slice and never grows the quota.\<close>

lemma shrunk_quota_bound:
  assumes "sl \<le> rx" and "unat rx \<le> 2 ^ 53"
  shows "\<exists>q. cpu_shrunk_quota rx sl = Inr q \<and> sl \<le> q \<and> q \<le> rx"
proof -
  have c: "d_sub (Fin 1) (to_double (1 / 5)) = Fin (3602879701896397 / 4503599627370496)"
    by (simp add: double_eval)
  have "d_mul (d_of_u64 rx) (Fin x) = d_mul (Fin x) (d_of_u64 rx)" for x
    using assms(2) by (simp add: d_of_u64_exact mult.commute)
  with d_to_u64_scaled [of "3602879701896397 / 4503599627370496" 1 rx] assms(2)
  obtain n where "d_to_u64 (d_mul (d_of_u64 rx) (d_sub (Fin 1) (to_double (1 / 5)))) = Inr n" "unat n \<le> unat rx"
    unfolding c by auto
  with assms(1) show ?thesis by (auto simp: cpu_shrunk_quota_def word_le_nat_alt [symmetric])
qed

lemma minus_le_self: "(q :: u64) \<le> rx \<Longrightarrow> rx - q \<le> rx"
  by (simp add: word_le_nat_alt unat_diff)

lemma shrink_target_bounds:
  assumes "sl \<le> rx \<and> cpu_shrunk_quota rx sl = Inr q \<or> sl < rx \<and> q = max sl (rx - MAX_UNUSED_RT_IN_NS)"
    and "MAX_UNUSED_RT_IN_NS \<le> sl" and "unat rx \<le> 2 ^ 53"
  shows "sl \<le> q \<and> q \<le> rx"
  using assms shrunk_quota_bound [OF _ assms(3), of sl] minus_le_self [of MAX_UNUSED_RT_IN_NS rx] by auto

subsection \<open>The decision as a whole\<close>

lemma if_chain6:
  "(if b1 then x1 else if b2 then x2 else if b3 then x3 else if b4 then x4 else if b5 then x5
    else if b6 then x6 else x7) = r \<Longrightarrow>
   b1 \<and> x1 = r \<or> b2 \<and> x2 = r \<or> b3 \<and> x3 = r \<or> b4 \<and> x4 = r \<or> b5 \<and> x5 = r \<or> b6 \<and> x6 = r \<or> x7 = r"
  by argo

lemma cpu_adjust_cases:
  assumes "cpu_adjust env p rx rt idle rt_mean thr seq s = Inr s'"
  shows "s' = s \<or> 0 < ec_get_cpu_unallocated_rt s \<and> cpu_wake_idle env p rx seq s = Inr s' \<or>
    ec_get_fair_cpu_share s < rx \<and> cpu_reduce_overrun env p rx seq s = Inr s' \<or>
    rx < ec_get_fair_cpu_share s \<and> cpu_grow_to_fair env p rx seq s = Inr s' \<or>
    cpu_grow_throttled env p rx thr seq s = Inr s' \<or>
    (\<exists>q. cpu_shrink_to env p rx q seq s = Inr s' \<and>
       (ec_get_cpu_slice s \<le> rx \<and> cpu_shrunk_quota rx (ec_get_cpu_slice s) = Inr q \<or>
        ec_get_cpu_slice s < rx \<and> q = max (ec_get_cpu_slice s) (rx - MAX_UNUSED_RT_IN_NS)))"
  using if_chain6 [OF assms [unfolded cpu_adjust_def Let_def]] unfolding bind_r_eq_Inr sum.inject by blast

lemma cpu_adjust_step:
  assumes "cpu_adjust env p rx rt idle rt_mean thr seq s = Inr s'"
  shows "s' = s \<or> (\<exists>t. requota_step env p rx t seq s s')"
  using cpu_adjust_cases [OF assms]
  by (elim disjE exE conjE)
    (blast dest: wake_idle_step reduce_overrun_step grow_to_fair_step grow_throttled_step shrink_to_step)+

text \<open>
  When the books are in order for a report of \<open>rx\<close>: everything is in range, the container's quota
  and the overrun are part of what is allocated, and slices are at least the 5 ms that are given
  back at a time.
\<close>

definition cpu_books_ok :: "u64 \<Rightarrow> 'a ECAPI_scheme \<Rightarrow> bool" where
  "cpu_books_ok rx s \<longleftrightarrow> (let c = ec_cpu (ec s); fair = fair_cpu_share (ec s) in
     cpu_small c \<and> unat rx \<le> 2 ^ 53 \<and> unat fair \<le> 2 ^ 53 \<and> rx \<le> alloc_rt c \<and> overrun c \<le> alloc_rt c \<and>
     MAX_UNUSED_RT_IN_NS \<le> slice_size c)"

text \<open>
  A container that lacks at most half a slice to its fair share is topped up with all it lacks
  (line 206), even when less than that is unallocated.
\<close>

definition topup_short :: "u64 \<Rightarrow> 'a ECAPI_scheme \<Rightarrow> bool" where
  "topup_short rx s \<longleftrightarrow> (let c = ec_cpu (ec s); fair = fair_cpu_share (ec s) in
     rx < fair \<and> fair - rx \<le> slice_size c div 2 \<and> 0 < unallocated_rt c \<and> unallocated_rt c < fair - rx)"

lemma sint_nonneg: "unat (a :: u64) < 2 ^ 63 \<Longrightarrow> \<not> sint a < 0"
  by (simp add: unat_less_half_sint)

lemma wake_exact:
  assumes "m \<le> u" and "unat u < 2 ^ 62" and "unat rx < 2 ^ 62"
  shows "\<not> sint (u - (m - rx) :: u64) < 0"
proof (rule sint_nonneg)
  have "unat (u - m) = unat u - unat m" using assms(1) by (rule unat_diff)
  then have "unat (u - m + rx) < 2 ^ 63" using assms(2,3) by (subst unat_plus_no_overflow) simp_all
  then show "unat (u - (m - rx)) < 2 ^ 63" by (simp add: algebra_simps)
qed

lemma grant_exact: "cpu_small c \<Longrightarrow> n \<le> unallocated_rt c \<Longrightarrow> transfer_exact (Grant n) c"
  using decr_exact [of "unallocated_rt c" n] by (simp add: cpu_small_def word_le_nat_alt)

lemma give_back_exact: "cpu_small c \<Longrightarrow> n \<le> alloc_rt c \<Longrightarrow> transfer_exact (Give_Back n) c"
  using decr_exact [of "alloc_rt c" n] by (simp add: cpu_small_def word_le_nat_alt)

lemma repay_exact:
  "cpu_small c \<Longrightarrow> n \<le> overrun c \<Longrightarrow> overrun c \<le> alloc_rt c \<Longrightarrow> transfer_exact (Repay n) c"
  using decr_exact [of "alloc_rt c" n] decr_exact [of "overrun c" n]
  by (simp add: cpu_small_def word_le_nat_alt)

lemma fair_to_add_pool:
  "cpu_fair_to_add rx fair sl u = Inr n \<Longrightarrow> n \<le> u \<or> n = fair - rx \<and> u < n \<and> n \<le> sl div 2"
  by (auto simp: cpu_fair_to_add_def Let_def bind_r_eq_Inr not_less split: if_splits)

lemma short_grant_ledger:
  assumes "cpu_small c" "unallocated_rt c < n" "unat n \<le> 2 ^ 53"
  shows "cpu_ledger (apply_transfer (Grant n) c) = cpu_ledger c + (n - unallocated_rt c)"
proof -
  have "unat n < 2 ^ 63" using assms(3) by (rule le_less_trans) simp
  then have "sint (unallocated_rt c - n) < 0"
    using assms(1,2) by (subst sint_minus_neg_iff) (simp_all add: cpu_small_def word_less_nat_alt)
  then show ?thesis by (simp add: cpu_ledger_def cpu_incr_alloc_rt_def cpu_decr_unallocated_rt_def algebra_simps)
qed

lemma wake_transfer_exact:
  assumes "cpu_small (ec_cpu (ec s))" "unat rx \<le> 2 ^ 53"
  shows "transfer_exact (Grant (min (ec_get_cpu_unallocated_rt s) 100000000 - rx)) (ec_cpu (ec s))"
proof -
  have "unat rx < 2 ^ 62" using assms(2) by (rule le_less_trans) simp
  then show ?thesis
    using assms(1) wake_exact [of "min (unallocated_rt (ec_cpu (ec s))) 100000000" "unallocated_rt (ec_cpu (ec s))" rx]
    by (simp add: cpu_small_def ec_get_cpu_unallocated_rt_def)
qed

lemma fair_transfer_exact:
  assumes run: "cpu_grow_to_fair env p rx seq s = Inr s'" and fair: "rx < fair_cpu_share (ec s)"
    and ok: "cpu_books_ok rx s"
  shows "(\<exists>t. requota_step env p rx t seq s s' \<and> transfer_exact t (ec_cpu (ec s))) \<or>
    topup_short rx s \<and> requota_step env p rx (Grant (fair_cpu_share (ec s) - rx)) seq s s'"
  using grow_to_fair_step [OF run]
proof (elim exE disjE conjE)
  fix n assume n: "0 < ec_get_cpu_unallocated_rt s" "requota_step env p rx (Grant n) seq s s'"
    "cpu_fair_to_add rx (ec_get_fair_cpu_share s) (ec_get_cpu_slice s) (ec_get_cpu_unallocated_rt s) = Inr n"
  have small: "cpu_small (ec_cpu (ec s))" using ok by (auto simp: cpu_books_ok_def Let_def)
  from fair_to_add_pool [OF n(3)] show ?thesis
  proof (elim disjE conjE)
    assume "n \<le> ec_get_cpu_unallocated_rt s"
    with small n(2) grant_exact show ?thesis unfolding ec_get_cpu_unallocated_rt_def by blast
  qed (use n fair in \<open>simp add: topup_short_def Let_def ec_get_cpu_slice_def ec_get_fair_cpu_share_def ec_get_cpu_unallocated_rt_def\<close>)
qed (use transfer_exact.simps(3) in blast)

lemma cpu_adjust_exact:
  assumes run: "cpu_adjust env p rx rt idle rt_mean thr seq s = Inr s'" and ok: "cpu_books_ok rx s"
  shows "s' = s \<or> (\<exists>t. requota_step env p rx t seq s s' \<and> transfer_exact t (ec_cpu (ec s))) \<or>
    topup_short rx s \<and> requota_step env p rx (Grant (fair_cpu_share (ec s) - rx)) seq s s'"
proof -
  define c where "c = ec_cpu (ec s)"
  have b: "cpu_small c" "unat rx \<le> 2 ^ 53" "rx \<le> alloc_rt c" "overrun c \<le> alloc_rt c"
    "MAX_UNUSED_RT_IN_NS \<le> slice_size c"
    using ok by (auto simp: cpu_books_ok_def c_def Let_def)
  note small = conjunct2 [OF shrink_target_bounds [OF _ b(5,2)]]
  consider (same) "s' = s" | (wake) "cpu_wake_idle env p rx seq s = Inr s'"
    | (repay) "cpu_reduce_overrun env p rx seq s = Inr s'"
    | (fair) "rx < fair_cpu_share (ec s)" "cpu_grow_to_fair env p rx seq s = Inr s'"
    | (thr) "cpu_grow_throttled env p rx thr seq s = Inr s'"
    | (shrink) q where "cpu_shrink_to env p rx q seq s = Inr s'" "q \<le> rx"
    using cpu_adjust_cases [OF run] small unfolding ec_get_cpu_slice_def ec_get_fair_cpu_share_def c_def
    by (elim disjE exE conjE) blast+
  then show ?thesis
  proof cases
    case wake
    with wake_idle_step [OF wake] wake_transfer_exact [OF b(1) [unfolded c_def] b(2)] show ?thesis by blast
  next
    case repay
    then obtain n where "cpu_overrun_to_sub rx (ec_get_fair_cpu_share s) (ec_get_cpu_slice s) (ec_get_overrun s) = Inr n"
      "requota_step env p rx (Repay n) seq s s'" using reduce_overrun_step by blast
    then show ?thesis
      using repay_exact [OF b(1) _ b(4), of n] overrun_to_sub_le by (auto simp: ec_get_overrun_def c_def)
  next
    case fair
    then show ?thesis using fair_transfer_exact [OF fair(2,1) ok] by blast
  next
    case thr
    then show ?thesis using grow_throttled_step [OF thr] grant_exact [OF b(1)]
      by (auto simp: ec_get_cpu_unallocated_rt_def c_def)
  next
    case shrink
    then have "transfer_exact (Give_Back (rx - q)) c"
      using give_back_exact [OF b(1)] minus_le_self [OF shrink(2)] b(3) by (meson order_trans)
    with shrink_to_step [OF shrink(1)] show ?thesis unfolding c_def by blast
  qed blast
qed

subsection \<open>The other blocks\<close>

lemma insert_stats_frame:
  assumes "cpu_insert_stats p rt th s = Inr (rt_mean, thr_mean, s')"
  shows "\<exists>sc c. sc_heap (ec s) p = Some sc \<and> quota c = quota (cpu sc) \<and>
     s' = s\<lparr>ec := (ec s)\<lparr>sc_heap := (sc_heap (ec s))(p \<mapsto> sc\<lparr>cpu := c\<rparr>)\<rparr>\<rparr>"
proof -
  obtain sc a c1 where sc: "sc_heap (ec s) p = Some sc" and rt: "insert_rt_stats rt (cpu sc) = Inr (a, c1)"
    and rest: "(case insert_th_stats th c1 of (thr, c) \<Rightarrow>
      Inr (a, thr, on_sc p (\<lambda>sc. sc\<lparr>cpu := c\<rparr>) s)) = (Inr (rt_mean, thr_mean, s') :: (u64 \<times> double \<times> 'a ECAPI_scheme) result)"
    using assms by (auto simp: cpu_insert_stats_def bind_r_eq_Inr sc_deref_def split: option.splits)
  obtain b c where th: "insert_th_stats th c1 = (b, c)" by fastforce
  with rest sc have "s' = s\<lparr>ec := (ec s)\<lparr>sc_heap := (sc_heap (ec s))(p \<mapsto> sc\<lparr>cpu := c\<rparr>)\<rparr>\<rparr>"
    by (auto simp: api_defs)
  then show ?thesis using sc insert_rt_stats_frame(1) [OF rt] insert_th_stats_frame(1) [OF th] by auto
qed

text \<open>The books balance and the accumulated leak is not positive: nothing is to be fixed.\<close>

definition cpu_balanced :: "'a Manager_scheme \<Rightarrow> bool" where
  "cpu_balanced s \<longleftrightarrow> cpu_ledger (ec_cpu (ec s)) = 0 \<and> - (2 ^ 62) \<le> sint (cpuleak s) \<and> sint (cpuleak s) \<le> 0"

lemma sint_diff_u64:
  assumes "- (2 ^ 62) \<le> sint (a :: u64)" and "sint a \<le> 0" and "unat b < 2 ^ 62"
  shows "sint (a - b) = sint a - int (unat b)"
proof -
  have "unat b < 2 ^ 63" using assms(3) by (rule less_trans) simp
  then have b: "sint b = int (unat b)" by (rule unat_less_half_sint)
  have "sint (a - b) = signed_take_bit 63 (sint a - sint b)" by (simp add: sint_word_ariths)
  also have "\<dots> = sint a - sint b"
  proof (rule signed_take_bit_int_eq_self)
    have "int (unat b) < 2 ^ 62" using assms(3) by (metis of_nat_less_iff of_nat_numeral of_nat_power)
    then have "0 \<le> sint b" "sint b < 2 ^ 62" unfolding b by linarith+
    then show "- (2 ^ 63) \<le> sint a - sint b" "sint a - sint b < 2 ^ 63" using assms(1,2) by simp_all
  qed
  finally show ?thesis using b by simp
qed

lemma fix_leak_balanced:
  assumes "cpu_balanced s" and "unat (overrun (ec_cpu (ec s))) < 2 ^ 62"
  shows "cpu_fix_leak s = s\<lparr>cpuleak := cpuleak s - overrun (ec_cpu (ec s))\<rparr>"
    and "sint (cpuleak (cpu_fix_leak s)) \<le> 0"
proof -
  define c where "c = ec_cpu (ec s)"
  have l: "total_cpu c - (alloc_rt c + unallocated_rt c) = - overrun c"
    using assms(1) by (simp add: cpu_balanced_def cpu_ledger_def c_def algebra_simps)
  have sn: "sint (cpuleak s - overrun c) = sint (cpuleak s) - int (unat (overrun c))"
    using assms by (intro sint_diff_u64) (auto simp: cpu_balanced_def c_def)
  then have "\<not> MAX_CPU_LOSS_IN_NS \<le> sint (cpuleak s - overrun c)"
    using assms(1) of_nat_0_le_iff [of "unat (overrun c)", where 'a = int]
    unfolding MAX_CPU_LOSS_IN_NS_def cpu_balanced_def by linarith
  then show "cpu_fix_leak s = s\<lparr>cpuleak := cpuleak s - overrun (ec_cpu (ec s))\<rparr>"
    unfolding cpu_fix_leak_def Let_def ec_get_alloc_rt_def ec_get_cpu_unallocated_rt_def ec_get_total_cpu_def
      c_def [symmetric] l by simp
  then have "sint (cpuleak (cpu_fix_leak s)) = sint (cpuleak s) - int (unat (overrun c))"
    using sn by (simp add: c_def)
  then show "sint (cpuleak (cpu_fix_leak s)) \<le> 0"
    using assms(1) of_nat_0_le_iff [of "unat (overrun c)", where 'a = int] unfolding cpu_balanced_def by linarith
qed

lemma requota_step_pools:
  assumes "requota_step env p old t seq s s'"
  shows "ec_cpu (ec s') = ec_cpu (ec s) \<or> ec_cpu (ec s') = apply_transfer t (ec_cpu (ec s))"
  using assms by (auto simp: requota_step_def Let_def)

lemma cpu_adjust_ledger:
  assumes run: "cpu_adjust env p rx rt idle rt_mean thr seq s = Inr s'" and ok: "cpu_books_ok rx s"
  shows "cpu_ledger (ec_cpu (ec s')) = cpu_ledger (ec_cpu (ec s)) \<or>
    topup_short rx s \<and> cpu_ledger (ec_cpu (ec s')) =
      cpu_ledger (ec_cpu (ec s)) + (fair_cpu_share (ec s) - rx - unallocated_rt (ec_cpu (ec s)))"
  using cpu_adjust_exact [OF run ok]
proof (elim disjE exE conjE)
  assume short: "topup_short rx s" and step: "requota_step env p rx (Grant (fair_cpu_share (ec s) - rx)) seq s s'"
  let ?n = "fair_cpu_share (ec s) - rx"
  have "unat ?n \<le> unat (fair_cpu_share (ec s))" using short by (auto simp: topup_short_def Let_def unat_diff)
  then have "unat ?n \<le> 2 ^ 53" "cpu_small (ec_cpu (ec s))" using ok by (simp_all add: cpu_books_ok_def Let_def)
  moreover have "unallocated_rt (ec_cpu (ec s)) < ?n" using short by (simp add: topup_short_def Let_def)
  ultimately show ?thesis using requota_step_pools [OF step] short short_grant_ledger by metis
qed (use transfer_ledger requota_step_pools in \<open>metis+\<close>)

text \<open>The handler, taken apart.\<close>

lemma handle_cpu_Inr:
  assumes "handle_cpu_usage_report env now (Some rq) (Some rs) s = Inr (ret, res, s')" and "req_type rq = req_CPU"
  obtains (early) p sc where
      "ec_get_sc_for_update s (ContainerId_new (msg_t.cgroup_id rq) (client_ip rq)) = Inr p" "sc_heap (ec s) p = Some sc"
      "cpu_check_mismatch p (rsrc_amnt rq) (on_sc p (cpu_note_report now (cpustat_seq_num rq)) s) = Inr (True, s')"
      "ret = ALLOC_SUCCESS" "res = Some (rs\<lparr>request := 1\<rparr>)"
  | (full) p sc s2 rt_mean thr_mean s3 s4 where
      "ec_get_sc_for_update s (ContainerId_new (msg_t.cgroup_id rq) (client_ip rq)) = Inr p" "sc_heap (ec s) p = Some sc"
      "cpu_check_mismatch p (rsrc_amnt rq) (on_sc p (cpu_note_report now (cpustat_seq_num rq)) s) = Inr (False, s2)"
      "cpu_insert_stats p (runtime_remaining rq) (request rq) (cpu_fix_leak s2) = Inr (rt_mean, thr_mean, s3)"
      "cpu_adjust env p (rsrc_amnt rq) (runtime_remaining rq) (check_if_idle now sc) rt_mean thr_mean
         (ucast (syscall_sequence_number s)) s3 = Inr s4"
      "s' = s4\<lparr>syscall_sequence_number := syscall_sequence_number s4 + 1\<rparr>"
      "ret = ALLOC_SUCCESS" "res = Some (rs\<lparr>request := 1\<rparr>)"
  using assms unfolding handle_cpu_usage_report_def
  by (auto simp: bind_r_eq_Inr sc_deref_def Let_def split: option.splits if_splits prod.splits)

subsection \<open>Properties of the handler\<close>

lemma note_report_frame [simp]:
  "get_quota (cpu_note_report now n sc) = get_quota sc"
  "cid_key (c_id (cpu_note_report now n sc)) = cid_key (c_id sc)"
  "c_id (cpu_note_report now n sc) = c_id sc" "inserted (cpu_note_report now n sc) = inserted sc"
  "quota_mismatch_counter (cpu_note_report now n sc) = quota_mismatch_counter sc"
  "mem (cpu_note_report now n sc) = mem sc"
  by (auto simp: cpu_note_report_def Let_def) (simp_all add: state_defs)

lemma get_back_deref:
  "get_subcontainer_back e k = Inr sc \<longleftrightarrow> (\<exists>p. get_sc_for_update_back e k = Inr p \<and> sc_heap e p = Some sc)"
  by (auto simp: get_subcontainer_back_def get_sc_for_update_back_def bind_r_eq_Inr sc_deref_def split: option.splits)

lemma mismatch_agree:
  assumes "sc_heap (ec s) p = Some sc" and "rx div 1000 = get_quota sc div 1000"
  shows "cpu_check_mismatch p rx s = Inr (False, s)"
  using assms by (simp add: cpu_check_mismatch_def sc_deref_def)

lemma cpu_books_ok_cong:
  assumes "ec_cpu (ec s') = ec_cpu (ec s)" "fair_cpu_share (ec s') = fair_cpu_share (ec s)"
  shows "cpu_books_ok rx s' = cpu_books_ok rx s" "topup_short rx s' = topup_short rx s"
  using assms by (simp_all add: cpu_books_ok_def topup_short_def)

subsection \<open>What a report leaves alone\<close>

lemma pool_ops_local [simp]:
  "local_change p e (ec (ec_incr_unallocated_rt n s)) = local_change p e (ec s)"
  "local_change p e (ec (ec_decr_unallocated_rt n s)) = local_change p e (ec s)"
  "local_change p e (ec (ec_incr_alloc_rt n s)) = local_change p e (ec s)"
  "local_change p e (ec (ec_decr_alloc_rt n s)) = local_change p e (ec s)"
  "local_change p e (ec (ec_incr_overrun n s)) = local_change p e (ec s)"
  "local_change p e (ec (ec_decr_overrun n s)) = local_change p e (ec s)"
  by (simp_all add: api_defs)

lemma pool_ops_frame [simp]:
  "rpc_log (ec_incr_unallocated_rt n s) = rpc_log s" "rpc_log (ec_decr_unallocated_rt n s) = rpc_log s"
  "rpc_log (ec_incr_alloc_rt n s) = rpc_log s" "rpc_log (ec_decr_alloc_rt n s) = rpc_log s"
  "rpc_log (ec_incr_overrun n s) = rpc_log s" "rpc_log (ec_decr_overrun n s) = rpc_log s"
  "rpc_log (on_ec f s) = rpc_log s" "ec (on_ec f s) = f (ec s)"
  by (simp_all add: api_defs)

lemma note_report_local: "local_change p (ec s) (ec (on_sc p (cpu_note_report now n) s))"
  by (simp add: local_change_upd)

lemma mismatch_local:
  assumes "cpu_check_mismatch p rx s = Inr (b, s')"
  shows "local_change p (ec s) (ec s') \<and> rpc_log s' = rpc_log s"
proof -
  have upd: "local_change p e (sc_upd p f e')" if "local_change p e e'" "\<And>sc. c_id (f sc) = c_id sc \<and> inserted (f sc) = inserted sc"
    for e e' f using local_change_upd [OF that(1)] that(2) by blast
  have fr: "c_id (set_quota q sc) = c_id sc \<and> inserted (set_quota q sc) = inserted sc"
    "c_id (sc_flush sc) = c_id sc \<and> inserted (sc_flush sc) = inserted sc"
    "c_id (reset_quota_mismatch_counter sc) = c_id sc \<and> inserted (reset_quota_mismatch_counter sc) = inserted sc"
    for q sc by (simp_all add: state_defs)
  have const: "local_change p (ec s) (sc_upd p (\<lambda>_. sc\<lparr>quota_mismatch_counter := n\<rparr>) (ec s))"
    if "sc_heap (ec s) p = Some sc" for sc n
    by (rule local_change_upd) (use that in simp_all)
  obtain sc where sc: "sc_heap (ec s) p = Some sc"
    using assms by (auto simp: cpu_check_mismatch_def bind_r_eq_Inr sc_deref_def split: option.splits)
  show ?thesis
    using assms const [OF sc] fr
    by (auto simp: cpu_check_mismatch_def sc_deref_def sc Let_def incr_quota_mismatch_counter_def upd split: if_splits)
qed

lemma fix_leak_local: "local_change p e (ec (cpu_fix_leak s)) = local_change p e (ec s)" "rpc_log (cpu_fix_leak s) = rpc_log s"
  by (simp_all add: cpu_fix_leak_def Let_def)

lemma insert_stats_local:
  assumes "cpu_insert_stats p rt th s = Inr (a, b, s')"
  shows "local_change p (ec s) (ec s') \<and> rpc_log s' = rpc_log s"
  using insert_stats_frame [OF assms] by (auto simp: local_change_def)

lemma requota_step_local:
  assumes "requota_step env p old t seq s s'"
  shows "local_change p (ec s) (ec s')"
proof -
  have "local_change p (ec s) ((ec s)\<lparr>ec_cpu := c, sc_heap := (sc_heap (ec s))(p \<mapsto> requota q sc)\<rparr>)"
    if "sc_heap (ec s) p = Some sc" for c q sc
    using that by (simp add: local_change_def)
  then show ?thesis using assms by (auto simp: requota_step_def Let_def connected_def)
qed

lemma cpu_adjust_local: "cpu_adjust env p rx rt idle a b seq s = Inr s' \<Longrightarrow> local_change p (ec s) (ec s')"
  using cpu_adjust_step requota_step_local local_change_refl by metis

text \<open>The state in which the decision is taken, and what the report has changed up to there.\<close>

lemma handle_cpu_local:
  fixes s :: "'a Manager_scheme"
  assumes "handle_cpu_usage_report env now (Some rq) (Some rs) s = Inr (ret, res, s')" and "req_type rq = req_CPU"
  obtains p sc where "ec_get_sc_for_update s (ContainerId_new (msg_t.cgroup_id rq) (client_ip rq)) = Inr p"
    "sc_heap (ec s) p = Some sc" "local_change p (ec s) (ec s')"
    "rpc_log s' = rpc_log s \<or> (\<exists>t (s3 :: 'a Manager_scheme) s4. local_change p (ec s) (ec s3) \<and> rpc_log s3 = rpc_log s \<and> ec s' = ec s4 \<and>
       rpc_log s' = rpc_log s4 \<and> requota_step env p (rsrc_amnt rq) t (ucast (syscall_sequence_number s)) s3 s4)"
  using assms
proof (cases rule: handle_cpu_Inr)
  case (early p sc)
  have "local_change p (ec s) (ec s')" "rpc_log s' = rpc_log s"
    using mismatch_local [OF early(3)] note_report_local local_change_trans by (force simp del: pool_ops_frame(8))+
  with early(1,2) that show thesis by blast
next
  case (full p sc s2 rt_mean thr_mean s3 s4)
  have s2: "local_change p (ec s) (ec s2)" "rpc_log s2 = rpc_log s"
    using mismatch_local [OF full(3)] note_report_local local_change_trans by (force simp del: pool_ops_frame(8))+
  then have s3: "local_change p (ec s) (ec s3)" "rpc_log s3 = rpc_log s"
    using insert_stats_local [OF full(4)] fix_leak_local local_change_trans by metis+
  have "local_change p (ec s) (ec s')"
    using local_change_trans [OF s3(1) cpu_adjust_local [OF full(5)]] full(6) by simp
  moreover have "rpc_log s' = rpc_log s \<or> (\<exists>t. requota_step env p (rsrc_amnt rq) t (ucast (syscall_sequence_number s)) s3 s4)"
    using cpu_adjust_step [OF full(5)] s3(2) full(6) by auto
  ultimately show thesis using that [OF full(1,2)] s3 full(6) by auto
qed

end
