(* ===== verification/Manager_Mem.thy ===== *)
theory Manager_Mem
  imports Manager_Cpu
begin

text \<open>
  \<open>Manager.cpp\<close>, second part: memory requests, reclaiming memory, connecting containers, and the
  dispatch on the request type.

  \<open>handle_reclaim_memory\<close> starts one \<open>reclaim\<close> per container with \<open>std::async\<close> and adds up the
  results; the model runs them one after the other in map order. \<open>byte_to_page\<close> is \<open>ceil\<close> of an
  integer quotient, a \<open>double\<close>; where it is compared with a page count the count is converted
  too, and where it is passed on it is converted back.
\<close>

section \<open>Pages\<close>

definition byte_to_page :: "u64 \<Rightarrow> double" where
  "byte_to_page x = (case d_of_u64 (x div 4096) of Fin r \<Rightarrow> Fin (of_int \<lceil>r\<rceil>) | d \<Rightarrow> d)"

definition page_to_byte :: "u64 \<Rightarrow> u64" where
  "page_to_byte x = x * 4096"

definition SAFE_MARGIN_BYTES :: u64 where
  "SAFE_MARGIN_BYTES = 52428800"

section \<open>Reclaiming memory\<close>

definition reclaim ::
  "'v agent_env \<Rightarrow> ContainerId \<Rightarrow> sc_ptr \<Rightarrow> 'a ECAPI_scheme \<Rightarrow> (u64 \<times> 'a ECAPI_scheme) result" where
  "reclaim env containerId p s = bind_r (sc_deref (ec s) p) (\<lambda>sc.
     let mem_limit_bytes = page_to_byte (get_mem_limit_in_pages sc) in
     bind_r (sc_get_memory_usage_in_bytes_cadvisor env containerId (cid_docker_id (c_id sc)) s)
       (\<lambda>(mem_usage_bytes, s).
          if mem_usage_bytes = - 1 * 4096 then Inr (0, s)
          else if SAFE_MARGIN_BYTES < mem_limit_bytes - mem_usage_bytes then
            let resize_target_bytes = mem_usage_bytes + SAFE_MARGIN_BYTES in
            bind_r (d_to_u64 (byte_to_page resize_target_bytes)) (\<lambda>target.
            bind_r (sc_resize_memory_limit_in_pages env containerId target s) (\<lambda>(is_max_mem_resized, s).
              if is_max_mem_resized = 0 then
                bind_r (d_to_u64 (byte_to_page (mem_limit_bytes - resize_target_bytes))) (\<lambda>pages.
                bind_r (sc_set_memory_limit_in_pages (c_id sc) target s) (\<lambda>s. Inr (pages, s)))
              else Inr (0, s)))
          else Inr (0, s)))"

text \<open>The loop of \<open>handle_reclaim_memory\<close>: everyone but the client that asks.\<close>

fun reclaim_others ::
  "'v agent_env \<Rightarrow> i32 \<Rightarrow> (ContainerId \<times> sc_ptr list) list \<Rightarrow> u64 \<Rightarrow> 'a ECAPI_scheme \<Rightarrow> (u64 \<times> 'a ECAPI_scheme) result" where
  "reclaim_others env client_fd [] ret s = Inr (ret, s)"
| "reclaim_others env client_fd ((k, q) # m) ret s =
     bind_r (queue_back q) (\<lambda>p. bind_r (sc_deref (ec s) p) (\<lambda>sc.
       if fd sc = client_fd then reclaim_others env client_fd m ret s
       else bind_r (reclaim env k p s) (\<lambda>(r, s). reclaim_others env client_fd m (ret + r) s)))"

definition handle_reclaim_memory ::
  "'v agent_env \<Rightarrow> i32 \<Rightarrow> 'a ECAPI_scheme \<Rightarrow> (u64 \<times> 'a ECAPI_scheme) result" where
  "handle_reclaim_memory env client_fd s = reclaim_others env client_fd (subcontainers (ec s)) 0 s"

text \<open>One round of the endless loop in \<open>run\<close>: every container, then the pool.\<close>

fun reclaim_all ::
  "'v agent_env \<Rightarrow> (ContainerId \<times> sc_ptr list) list \<Rightarrow> u64 \<Rightarrow> 'a ECAPI_scheme \<Rightarrow> (u64 \<times> 'a ECAPI_scheme) result" where
  "reclaim_all env [] ret s = Inr (ret, s)"
| "reclaim_all env ((k, q) # m) ret s =
     bind_r (queue_back q) (\<lambda>p. bind_r (reclaim env k p s) (\<lambda>(r, s). reclaim_all env m (ret + r) s))"

definition run_round :: "'v agent_env \<Rightarrow> 'a ECAPI_scheme \<Rightarrow> 'a ECAPI_scheme result" where
  "run_round env s = bind_r (reclaim_all env (subcontainers (ec s)) 0 s) (\<lambda>(ret, s).
     Inr (if 0 < ret then ec_update_reclaim_memory_in_pages ret s else s))"

definition run_may_start :: "i32 \<Rightarrow> 'a ECAPI_scheme \<Rightarrow> bool" where
  "run_may_start n s \<longleftrightarrow> \<not> sint (get_num_subcontainers (ec s)) < sint n"

section \<open>Memory requests\<close>

text \<open>Lines 312 to 338: the memory that can be handed out, \<open>None\<close> when the handler gives up.\<close>

definition mem_make_available ::
  "'v agent_env \<Rightarrow> i32 \<Rightarrow> 'a ECAPI_scheme \<Rightarrow> (i64 option \<times> 'a ECAPI_scheme) result" where
  "mem_make_available env clifd s =
     (let memory_available = ec_get_unalloc_memory_in_pages s in
      if 0 < sint memory_available then Inr (Some memory_available, s)
      else bind_r (handle_reclaim_memory env clifd s) (\<lambda>(reclaimed_mem, s).
        if 0 < reclaimed_mem then
          let s = (if sint memory_available < 0 then
                     ec_decr_alloc_memory_in_pages (memory_available * - 1)
                       (ec_incr_unalloc_memory_in_pages (memory_available * - 1) s)
                   else s);
              s = ec_update_reclaim_memory_in_pages reclaimed_mem s
          in Inr (Some (ec_get_unalloc_memory_in_pages s), s)
        else Inr (None, s)))"

definition handle_mem_req ::
  "'v agent_env \<Rightarrow> msg_t option \<Rightarrow> msg_t option \<Rightarrow> i32 \<Rightarrow> 'a ECAPI_scheme \<Rightarrow>
     (i32 \<times> msg_t option \<times> 'a ECAPI_scheme) result" where
  "handle_mem_req env req res clifd s = (case (req, res) of
     (Some rq, Some rs) \<Rightarrow>
       if req_type rq \<noteq> req_MEM then Inr (ALLOC_MEM_FAILED, Some (rs\<lparr>rsrc_amnt := 0\<rparr>), s)
       else bind_r (mem_make_available env clifd s) (\<lambda>(avail, s). case avail of
              None \<Rightarrow> Inr (ALLOC_MEM_FAILED, Some (rs\<lparr>rsrc_amnt := 0\<rparr>), s)
            | Some memory_available \<Rightarrow>
                let ret = (if ec_get_memory_slice s < memory_available then ec_get_memory_slice s
                           else memory_available);
                    s = ec_update_alloc_memory_in_pages ret s;
                    amnt = rsrc_amnt rq + ret
                in bind_r (ec_get_sc_for_update s (ContainerId_new (msg_t.cgroup_id rq) (client_ip rq))) (\<lambda>p.
                   bind_r (sc_deref (ec s) p) (\<lambda>sc.
                     Inr (ALLOC_SUCCESS, Some (rs\<lparr>rsrc_amnt := amnt, request := 0\<rparr>),
                          on_sc p (set_mem_limit_in_pages amnt) s))))
   | _ \<Rightarrow> Inl Exit_Failure)"

section \<open>A container connects\<close>

definition handle_add_cgroup_to_ec ::
  "'v agent_env \<Rightarrow> int \<Rightarrow> msg_t option \<Rightarrow> msg_t option \<Rightarrow> u32 \<Rightarrow> i32 \<Rightarrow> 'a Manager_scheme \<Rightarrow>
     (i32 \<times> msg_t option \<times> 'a Manager_scheme) result" where
  "handle_add_cgroup_to_ec env now req res ip f s = (case (req, res) of
     (Some rq, Some rs) \<Rightarrow>
       (case determine_quota_for_new_pod (rsrc_amnt rq) s of (update_quota, q, s) \<Rightarrow>
        (case create_new_sc_quota now (msg_t.cgroup_id rq) ip f q (request rq) (ec s) of (p, e) \<Rightarrow>
        bind_r (insert_sc p e) (\<lambda>(ret, e).
        let s = s\<lparr>ec := update_fair_cpu_share e, agent_db := Some (get_agent_client_db_instance (agent_db s))\<rparr>
        in bind_r (sc_deref (ec s) p) (\<lambda>sc.
        let s = (case get_agent_client_by_ip (get_agent_client_db_instance (agent_db s)) (cid_server_ip (c_id sc)) of
                   Some ac \<Rightarrow> on_sc p (set_sc_inserted True) (on_ec (add_to_sc_ac_map (c_id sc) ac) s)
                 | None \<Rightarrow> s)
        in bind_r (if update_quota \<noteq> 0 then set_sc_quota_syscall env (Some p) q 13 s else Inr (0, s))
             (\<lambda>(sys_ret, s).
                Inr (ret, Some (rs\<lparr>request := request rs + 1\<rparr>), s\<lparr>mem_limit_jobs := mem_limit_jobs s @ [(p, f)]\<rparr>))))))
   | _ \<Rightarrow> Inr (ALLOC_FAILED, res, s))"

text \<open>
  Lines 536 to 565: \<open>pages\<close> is the limit of the new container \<open>k\<close>, \<open>n\<close> the same as an integer.
\<close>

definition mem_admit ::
  "'v agent_env \<Rightarrow> ContainerId \<Rightarrow> i32 \<Rightarrow> double \<Rightarrow> u64 \<Rightarrow> 'a ECAPI_scheme \<Rightarrow> 'a ECAPI_scheme result" where
  "mem_admit env k clifd pages n s =
     (if d_leq pages (d_of_u64 (ec_get_unalloc_memory_in_pages s)) then Inr (ec_update_alloc_memory_in_pages n s)
      else if ec_get_unalloc_memory_in_pages s = 0 then Inr s
      else if d_less (d_of_u64 (ec_get_unalloc_memory_in_pages s)) pages then
        bind_r (handle_reclaim_memory env clifd s) (\<lambda>(reclaimed_mem, s).
          let s = ec_update_reclaim_memory_in_pages reclaimed_mem s in
          if d_leq pages (d_of_u64 (ec_get_unalloc_memory_in_pages s)) then Inr (ec_update_alloc_memory_in_pages n s)
          else bind_r (sc_resize_memory_limit_in_pages env k (ec_get_unalloc_memory_in_pages s) s)
                 (\<lambda>(is_max_mem_resized, s).
                    Inr (if is_max_mem_resized \<noteq> 0 then s else ec_update_alloc_memory_in_pages n s)))
      else Inr s)"

text \<open>
  The thread started for a new container. It waits for the docker id; run before the id is known,
  it does not get past the wait.
\<close>

definition determine_mem_limit_for_new_pod ::
  "'v agent_env \<Rightarrow> sc_ptr option \<Rightarrow> i32 \<Rightarrow> 'a ECAPI_scheme \<Rightarrow> 'a ECAPI_scheme result" where
  "determine_mem_limit_for_new_pod env po clifd s = (case po of None \<Rightarrow> Inr s | Some p \<Rightarrow>
     bind_r (sc_deref (ec s) p) (\<lambda>sc.
       if cid_docker_id (c_id sc) = [] then Inl Never_Returns
       else bind_r (sc_get_memory_limit_in_bytes_cadvisor env (c_id sc) s) (\<lambda>(mem_lim_bytes, s).
         let pages = byte_to_page mem_lim_bytes in
         bind_r (d_to_u64 pages) (\<lambda>sc_mem_limit_in_pages.
         bind_r (mem_admit env (c_id sc) clifd pages sc_mem_limit_in_pages s)
           (\<lambda>s. Inr (on_sc p (set_mem_limit_in_pages sc_mem_limit_in_pages) s))))))"

section \<open>Dispatch\<close>

definition handle_req ::
  "'v agent_env \<Rightarrow> int \<Rightarrow> msg_t option \<Rightarrow> msg_t option \<Rightarrow> u32 \<Rightarrow> i32 \<Rightarrow> 'a Manager_scheme \<Rightarrow>
     (i32 \<times> msg_t option \<times> 'a Manager_scheme) result" where
  "handle_req env now req res host_ip clifd s = (case (req, res) of
     (Some rq, Some rs) \<Rightarrow>
       if req_type rq = req_MEM then handle_mem_req env req res clifd s
       else if req_type rq = req_CPU then handle_cpu_usage_report env now req res s
       else if req_type rq = req_INIT then handle_add_cgroup_to_ec env now req res host_ip clifd s
       else Inr (- 1, res, s)
   | _ \<Rightarrow> Inl Exit_Failure)"

end
