(* ===== verification/Deploy_Service.thy ===== *)
theory Deploy_Service
  imports Manager_Mem
begin

text \<open>
  \<open>DeployServerGRPC/DeployerExportServiceImpl.cpp\<close>: the service through which the deployer reports
  the application's limits, the pods it started and the pods it removed. The service works on the
  same elastic container as the manager, so its two maps extend the manager's state.

  A wait on a condition variable that is not satisfied when the call is made is \<open>Never_Returns\<close>
  here; \<open>insertPodSpec\<close> and \<open>scIdToDockerIdMatcherThread\<close> are definitions of their own because the
  wait lies between them. The blocks that are compiled at log level TRACE only are left out.
  gRPC passes non-null messages; \<open>ReportAppSpec\<close> tests for null, and the model keeps the test.
\<close>

section \<open>State and messages\<close>

record Controller = Manager +
  deployedPods :: "(ContainerId \<times> string list) list"
  dockerToSubContainer :: "(string \<times> ContainerId) list"

datatype grpc_status = Status_OK | Status_CANCELLED

record ExportAppSpec =
  as_app_name :: string
  as_cpu_limit :: u64
  as_mem_limit :: u64

record AppSpecReply =
  asr_app_name :: string
  asr_cpu_limit :: u64
  asr_mem_limit :: u64
  asr_thanks :: string

record ExportPodSpec =
  ps_docker_id :: string
  ps_cgroup_id :: i32
  ps_node_ip :: string

record PodSpecReply =
  psr_docker_id :: string
  psr_cgroup_id :: i32
  psr_node_ip :: string
  psr_thanks :: string

record DeletePodReply =
  dpr_docker_id :: string
  dpr_thanks :: string

definition success :: string where "success = ''thx''"
definition fail :: string where "fail = ''fail''"

section \<open>The application's limits\<close>

definition ReportAppSpec ::
  "ExportAppSpec option \<Rightarrow> AppSpecReply option \<Rightarrow> 'a ECAPI_scheme \<Rightarrow> grpc_status \<times> AppSpecReply option \<times> 'a ECAPI_scheme" where
  "ReportAppSpec appSpec reply s = (case (appSpec, reply) of
     (Some a, Some r) \<Rightarrow>
       let s = on_ec (set_total_cpu (as_cpu_limit a * 100000)) s;
           s = on_ec (set_unallocated_rt (ec_get_total_cpu s)) s;
           s = on_ec (set_memory_limit_in_pages ((as_mem_limit a * 1024 * 1024) div 4096)) s;
           s = snd (ec_set_unalloc_memory_in_pages ((as_mem_limit a * 1024 * 1024) div 4096) s);
           s = on_ec (set_alloc_memory_in_pages 0) s
       in (Status_OK, Some (r\<lparr>asr_app_name := as_app_name a, asr_cpu_limit := as_cpu_limit a,
             asr_mem_limit := as_mem_limit a, asr_thanks := success\<rparr>), s)
   | _ \<Rightarrow> (Status_CANCELLED, reply, s))"

section \<open>A pod was started\<close>

definition insertPodSpec ::
  "(string \<Rightarrow> u32) \<Rightarrow> ExportPodSpec \<Rightarrow> 'a Controller_scheme \<Rightarrow> (i32 \<times> 'a Controller_scheme) result" where
  "insertPodSpec inet_addr pod s =
     bind_r (ContainerId_of_string inet_addr (ps_cgroup_id pod) (ps_node_ip pod)) (\<lambda>sc_id.
       let s = (case um_find cid_key (deployedPods s) sc_id of
                  Some q \<Rightarrow>
                    let m = um_set cid_key sc_id (q @ [ps_docker_id pod]) (deployedPods s)
                    in s\<lparr>deployedPods := um_insert cid_key sc_id (q @ [ps_docker_id pod]) m\<rparr>
                | None \<Rightarrow> s\<lparr>deployedPods := um_insert cid_key sc_id [ps_docker_id pod] (deployedPods s)\<rparr>);
           dockInsert = (um_find id (dockerToSubContainer s) (ps_docker_id pod) = None);
           s = s\<lparr>dockerToSubContainer := um_insert id (ps_docker_id pod) sc_id (dockerToSubContainer s)\<rparr>
       in Inr (if \<not> dockInsert then - 3 else 0, s))"

definition setPodSpecReply :: "ExportPodSpec \<Rightarrow> PodSpecReply \<Rightarrow> string \<Rightarrow> PodSpecReply" where
  "setPodSpecReply pod reply status = reply\<lparr>psr_docker_id := ps_docker_id pod,
     psr_cgroup_id := ps_cgroup_id pod, psr_node_ip := ps_node_ip pod, psr_thanks := status\<rparr>"

definition scIdToDockerIdMatcherThread ::
  "ContainerId \<Rightarrow> string \<Rightarrow> 'a ECAPI_scheme \<Rightarrow> 'a ECAPI_scheme result" where
  "scIdToDockerIdMatcherThread sc_id docker_id s =
     (if um_find cid_key (sc_ac_map (ec s)) sc_id = None then Inl Never_Returns
      else bind_r (get_sc_for_update_back (ec s) sc_id) (\<lambda>p. bind_r (sc_deref (ec s) p) (\<lambda>sc.
             Inr (on_sc p (set_docker_id docker_id) s))))"

definition ReportPodSpec ::
  "(string \<Rightarrow> u32) \<Rightarrow> ExportPodSpec \<Rightarrow> PodSpecReply \<Rightarrow> 'a Controller_scheme \<Rightarrow>
     (grpc_status \<times> PodSpecReply \<times> 'a Controller_scheme) result" where
  "ReportPodSpec inet_addr pod reply s =
     bind_r (insertPodSpec inet_addr pod s) (\<lambda>(ret, s).
       let status = (if ret \<noteq> 0 then fail else success) in
       bind_r (if status = ''thx'' then
                 bind_r (ContainerId_of_string inet_addr (ps_cgroup_id pod) (ps_node_ip pod)) (\<lambda>sc_id.
                   scIdToDockerIdMatcherThread sc_id (ps_docker_id pod) s)
               else Inr s)
         (\<lambda>s. Inr (Status_OK, setPodSpecReply pod reply status, s)))"

section \<open>A pod was removed\<close>

definition getScIdFromDockerId :: "'a Controller_scheme \<Rightarrow> string \<Rightarrow> ContainerId" where
  "getScIdFromDockerId s d =
     (case um_find id (dockerToSubContainer s) d of Some k \<Rightarrow> k | None \<Rightarrow> ContainerId_default)"

definition deleteFromScAcMap :: "ContainerId \<Rightarrow> 'a ECAPI_scheme \<Rightarrow> i32 \<times> 'a ECAPI_scheme" where
  "deleteFromScAcMap sc_id s =
     (if um_find cid_key (sc_ac_map (ec s)) sc_id \<noteq> None
      then (0, on_ec (\<lambda>e. e\<lparr>sc_ac_map := um_erase cid_key sc_id (sc_ac_map e)\<rparr>) s) else (- 1, s))"

definition deleteFromSubcontainersMap :: "ContainerId \<Rightarrow> 'a ECAPI_scheme \<Rightarrow> (i32 \<times> 'a ECAPI_scheme) result" where
  "deleteFromSubcontainersMap sc_id s =
     bind_r (ec_delete_from_subcontainers_map sc_id (ec s)) (\<lambda>(r, e). Inr (r, s\<lparr>ec := e\<rparr>))"

definition deleteFromDeployedPodsMap :: "ContainerId \<Rightarrow> 'a Controller_scheme \<Rightarrow> i32 \<times> 'a Controller_scheme" where
  "deleteFromDeployedPodsMap sc_id s =
     (if um_find cid_key (deployedPods s) sc_id \<noteq> None
      then (0, s\<lparr>deployedPods := um_erase cid_key sc_id (deployedPods s)\<rparr>) else (- 1, s))"

definition deleteFromDockerIdScMap :: "string \<Rightarrow> 'a Controller_scheme \<Rightarrow> i32 \<times> 'a Controller_scheme" where
  "deleteFromDockerIdScMap d s =
     (if um_find id (dockerToSubContainer s) d \<noteq> None
      then (0, s\<lparr>dockerToSubContainer := um_erase id d (dockerToSubContainer s)\<rparr>) else (- 1, s))"

definition setDeletePodReply :: "string \<Rightarrow> DeletePodReply \<Rightarrow> string \<Rightarrow> DeletePodReply" where
  "setDeletePodReply docker_id reply status = reply\<lparr>dpr_docker_id := docker_id, dpr_thanks := status\<rparr>"

definition DeletePod ::
  "string \<Rightarrow> DeletePodReply \<Rightarrow> 'a Controller_scheme \<Rightarrow> (grpc_status \<times> DeletePodReply \<times> 'a Controller_scheme) result" where
  "DeletePod docker_id reply s =
     (let sc_id = getScIdFromDockerId s docker_id in
      if cid_cgroup_id sc_id = 0 then Inr (Status_CANCELLED, setDeletePodReply docker_id reply fail, s)
      else bind_r (get_subcontainer_front (ec s) sc_id) (\<lambda>front.
        let sc_mem_limit = get_mem_limit_in_pages front; q = get_quota front in
        case deleteFromScAcMap sc_id s of (s1, s) \<Rightarrow>
        bind_r (deleteFromSubcontainersMap sc_id s) (\<lambda>(s2, s).
        case deleteFromDeployedPodsMap sc_id s of (s3, s) \<Rightarrow>
        (case deleteFromDockerIdScMap docker_id s of (s4, s) \<Rightarrow>
         let s = on_ec update_fair_cpu_share s;
             s = on_ec (incr_unallocated_rt q) (on_ec (decr_alloc_rt q) s);
             s = on_ec (decr_alloc_memory_in_pages sc_mem_limit) (on_ec (incr_unalloc_memory_in_pages sc_mem_limit) s);
             status = (if s1 \<noteq> 0 \<or> s2 \<noteq> 0 \<or> s3 \<noteq> 0 \<or> s4 \<noteq> 0 then fail else success)
         in Inr (Status_OK, setDeletePodReply docker_id reply status, s)))))"

end
