(* ===== verification/Samples.thy ===== *)
theory Samples
  imports Deploy_Service
begin

text \<open>
  Concrete states and environments at which the properties are exercised: one node with one agent,
  one container on it, an environment in which every call succeeds and cAdvisor does not answer.
  \<open>sample_eval\<close> evaluates the handlers on them.
\<close>

definition sample_agent :: AgentClient where
  "sample_agent = AgentClient_new 7 \<lparr>ag_ip = Ip4 1, ag_port = 4448, ag_sockfd = 0\<rparr>"

definition sample_json :: "u64 json_lib" where
  "sample_json = \<lparr>js_null = 0, js_is_null = (\<lambda>v. v = 0), js_parse = (\<lambda>s. Inr 1), js_serialize = (\<lambda>v. ''x''),
     js_as_object = (\<lambda>v. Inr [([], v)]), js_at = (\<lambda>v k. Inr v), js_as_array = (\<lambda>v. Inr [v]), js_as_string = (\<lambda>v. Inr []),
     js_as_integer = (\<lambda>v. Inr 1), js_to_uint64 = Inr\<rparr>"

text \<open>Every request is accepted; \<open>h\<close> is what cAdvisor answers.\<close>

definition sample_env :: "u64 http_outcome \<Rightarrow> u64 agent_env" where
  "sample_env h = \<lparr>json = sample_json, http = (\<lambda>l u. h), quota_status = (\<lambda>l. 0), resize_ok = (\<lambda>l. True),
     resize_errorcode = (\<lambda>l. 0), usage_reply = (\<lambda>l. 0), limit_reply = (\<lambda>l. 0)\<rparr>"

definition sample_cid :: ContainerId where
  "sample_cid = ContainerId_new 3 (Ip4 1)"

text \<open>One connected container with quota \<open>q\<close> and memory limit \<open>pages\<close>, last seen at time 0.\<close>

definition sample_sc :: "u64 \<Rightarrow> u64 \<Rightarrow> SubContainer" where
  "sample_sc q pages = (SubContainer_new_quota 0 3 1 9 q 0)\<lparr>inserted := True,
     mem := \<lparr>mem_limit_in_pages = pages, current_usage = 0\<rparr>\<rparr>"

definition sample_ec :: "SubContainer \<Rightarrow> cpu_g \<Rightarrow> mem_g \<Rightarrow> u64 \<Rightarrow> ElasticContainer" where
  "sample_ec sc c m fair = \<lparr>ec_id = 1, subcontainers = [(sample_cid, [0])],
     sc_ac_map = [(sample_cid, Some sample_agent)], fair_cpu_share = fair, ec_mem = m, ec_cpu = c,
     sc_heap = [0 \<mapsto> sc], sc_next = 1\<rparr>"

definition sample_ctl :: "ElasticContainer \<Rightarrow> Controller" where
  "sample_ctl e = \<lparr>rpc_log = [], agent_db = Some [(Ip4 1, sample_agent)], ecapi_id = 1, ec = e,
     manager_id = 1, syscall_sequence_number = 0, cpuleak = 0, deploy_service_ip = [], grpc_port = 4447,
     mem_limit_jobs = [], deployedPods = [], dockerToSubContainer = []\<rparr>"

definition sample_cpu :: "u64 \<Rightarrow> u64 \<Rightarrow> u64 \<Rightarrow> u64 \<Rightarrow> cpu_g" where
  "sample_cpu un tot ov al = \<lparr>slice_size = 30000000, unallocated_rt = un, total_cpu = tot, overrun = ov, alloc_rt = al\<rparr>"

text \<open>A message from that container.\<close>

definition sample_msg :: "u32 \<Rightarrow> u64 \<Rightarrow> u64 \<Rightarrow> u32 \<Rightarrow> msg_t" where
  "sample_msg ty amnt rt rq = \<lparr>client_ip = Ip4 1, cgroup_id = 3, req_type = ty, rsrc_amnt = amnt, request = rq,
     runtime_remaining = rt, cpustat_seq_num = 1, sock_addr = 0\<rparr>"

lemmas sample_defs = sample_agent_def sample_json_def sample_env_def sample_cid_def sample_sc_def sample_ec_def
  sample_ctl_def sample_cpu_def sample_msg_def

lemmas sample_eval = sample_defs AgentClient_new_def ElasticContainer_new_def ContainerId_new_def
  SubContainer_new_quota_def cpu_l_new_def Window_new_def WINDOW_STAT_SIZE_def mem_l_new_def from_net_def
  um_find_def cid_key_def queue_back_def queue_front_def sc_deref_def get_sc_for_update_back_def
  ec_get_sc_for_update_def get_subcontainer_back_def api_defs state_defs Let_def

lemmas cpu_eval = sample_eval handle_cpu_usage_report_def req_CPU_def check_if_idle_def cpu_note_report_def
  cpu_check_mismatch_def incr_quota_mismatch_counter_def cpu_fix_leak_def MAX_CPU_LOSS_IN_NS_def
  cpu_insert_stats_def insert_rt_stats_def insert_th_stats_def window_insert_def update_stats_def
  double_arith_def get_throttle_increase_def cpu_adjust_def MAX_UNUSED_RT_IN_NS_def cpu_wake_idle_def
  cpu_reduce_overrun_def cpu_overrun_to_sub_def cpu_grow_to_fair_def cpu_fair_to_add_def cpu_fair_overrun_def
  percent_under_def cpu_grow_throttled_def cpu_shrink_to_def cpu_shrunk_quota_def with_quota_syscall_def
  set_sc_quota_syscall_def get_corres_agent_client_def um_index_def updateContainerQuota_def
  cpu_incr_alloc_rt_def cpu_decr_alloc_rt_def cpu_incr_unallocated_rt_def cpu_decr_unallocated_rt_def
  cpu_incr_overrun_def cpu_decr_overrun_def

text \<open>For memory: a container whose docker id is known, and a cAdvisor that answers every question with \<open>u\<close>.\<close>

definition sample_docked :: "u64 \<Rightarrow> u64 \<Rightarrow> SubContainer" where
  "sample_docked q pages = set_docker_id ''d'' (sample_sc q pages)"

definition sample_mem :: "u64 \<Rightarrow> u64 \<Rightarrow> u64 \<Rightarrow> mem_g" where
  "sample_mem un al tot = \<lparr>memory_limit_in_pages = tot, mem_slice_size = 5000,
     unallocated_memory_in_pages = un, allocated_memory_in_pages = al\<rparr>"

definition sample_cadvisor :: "u64 \<Rightarrow> u64 agent_env" where
  "sample_cadvisor u = (sample_env (Http_Response 200 (Some 1)))\<lparr>json := sample_json\<lparr>js_parse := (\<lambda>s. Inr u)\<rparr>\<rparr>"

lemmas mem_defs = sample_docked_def sample_mem_def sample_cadvisor_def

lemmas mem_eval = sample_eval mem_defs reclaim_def handle_reclaim_memory_def page_to_byte_def SAFE_MARGIN_BYTES_def
  get_mem_limit_in_pages_def sc_get_memory_usage_in_bytes_cadvisor_def get_sc_memory_usage_in_bytes_def
  sc_get_memory_limit_in_bytes_cadvisor_def get_sc_memory_limit_in_bytes_def getContMemLimit_def
  parseCAdvisorResponseSpecs_def get_corres_agent_client_def um_index_def getContMemUsage_def cadvisor_query_def
  getJSONRequest_def parseCAdvisorResponseStats_def js_first_member_def js_last_def byte_to_page_def sc_resize_memory_limit_in_pages_def
  resizeMemoryLimitPages_def sc_set_memory_limit_in_pages_def handle_mem_req_def req_MEM_def mem_make_available_def
  mem_incr_unallocated_def mem_decr_unallocated_def mem_incr_allocated_def mem_decr_allocated_def
  get_agent_ip_def

end
