(* ===== verification/Cpu_Properties.thy ===== *)
theory Cpu_Properties
  imports Samples
begin

text \<open>
  What the CPU side of the controller guarantees: the books, the requests sent to the agents, the
  bounds of each adjustment, and where they fail.
\<close>

text \<open>
  A report with which container and controller agree, with balanced books: nothing happens before the
  decision that matters for the books, and the decision is taken on the pools as they were.
\<close>

lemma agreed_report:
  fixes s :: "'a Manager_scheme"
  assumes run: "handle_cpu_usage_report env now (Some rq) (Some rs) s = Inr (ret, res, s')"
    and cpu: "req_type rq = req_CPU"
    and sc: "get_subcontainer_back (ec s) (ContainerId_new (msg_t.cgroup_id rq) (client_ip rq)) = Inr sc"
    and agree: "rsrc_amnt rq div 1000 = get_quota sc div 1000"
    and bal: "cpu_balanced s" "unat (overrun (ec_cpu (ec s))) < 2 ^ 62"
  obtains p idle rt_mean thr_mean and s3 s4 :: "'a Manager_scheme" where
    "cpu_adjust env p (rsrc_amnt rq) (runtime_remaining rq) idle rt_mean thr_mean (ucast (syscall_sequence_number s)) s3 = Inr s4"
    "ec_cpu (ec s3) = ec_cpu (ec s)" "fair_cpu_share (ec s3) = fair_cpu_share (ec s)" "rpc_log s3 = rpc_log s"
    "sint (cpuleak s3) \<le> 0" "ec s' = ec s4" "rpc_log s' = rpc_log s4" "cpuleak s' = cpuleak s3"
proof -
  obtain p where p: "ec_get_sc_for_update s (ContainerId_new (msg_t.cgroup_id rq) (client_ip rq)) = Inr p"
    "sc_heap (ec s) p = Some sc"
    using sc unfolding get_back_deref ec_get_sc_for_update_def by blast
  define s1 where "s1 = on_sc p (cpu_note_report now (cpustat_seq_num rq)) s"
  have s1: "ec_cpu (ec s1) = ec_cpu (ec s)" "fair_cpu_share (ec s1) = fair_cpu_share (ec s)"
    "cpuleak s1 = cpuleak s" "rpc_log s1 = rpc_log s" by (simp_all add: s1_def api_defs)
  have m: "cpu_check_mismatch p (rsrc_amnt rq) s1 = Inr (False, s1)"
    by (rule mismatch_agree [of _ _ "cpu_note_report now (cpustat_seq_num rq) sc"])
      (use p(2) agree in \<open>simp_all add: s1_def api_defs\<close>)
  have b1: "cpu_balanced s1" "unat (overrun (ec_cpu (ec s1))) < 2 ^ 62"
    using bal by (simp_all add: cpu_balanced_def s1)
  note leak = fix_leak_balanced [OF b1]
  from run cpu show thesis
  proof (cases rule: handle_cpu_Inr)
    case (full p' sc' s2 rt_mean thr_mean s3 s4)
    have "s2 = s1" using full(1,3) p(1) m by (simp add: s1_def)
    then have fl: "ec (cpu_fix_leak s2) = ec s1" "sint (cpuleak (cpu_fix_leak s2)) \<le> 0" "rpc_log (cpu_fix_leak s2) = rpc_log s1"
      using leak by simp_all
    then have s3: "ec_cpu (ec s3) = ec_cpu (ec s)" "fair_cpu_share (ec s3) = fair_cpu_share (ec s)"
      "cpuleak s3 = cpuleak (cpu_fix_leak s2)" "rpc_log s3 = rpc_log s"
      using insert_stats_frame [OF full(4)] s1 by auto
    moreover have "cpuleak s4 = cpuleak s3"
      using cpu_adjust_step [OF full(5)] by (auto simp: requota_step_def Let_def)
    ultimately show thesis using that [OF full(5)] fl full(6) by simp
  qed (use p m in \<open>simp add: s1_def\<close>)
qed

text \<open>
  C1: the books. The container and the controller agree on the quota of a CPU report, and the books
  are balanced: what is allocated plus what is unallocated equals the application's total plus the
  recorded overrun. All amounts are in range (\<open>cpu_books_ok\<close>: below \<open>2^53\<close> and \<open>2^62\<close>, slices of at least
  5 ms, the reported quota and the overrun no more than what is allocated). Then the report leaves
  the books balanced and records no leak, with one exception. A container that lacks at most half
  a slice to its fair share can be topped up with more than is unallocated; then the books are off
  by exactly what was not there.
\<close>

theorem report_keeps_balance:
  assumes run: "handle_cpu_usage_report env now (Some rq) (Some rs) s = Inr (ret, res, s')"
    and cpu: "req_type rq = req_CPU"
    and sc: "get_subcontainer_back (ec s) (ContainerId_new (msg_t.cgroup_id rq) (client_ip rq)) = Inr sc"
    and agree: "rsrc_amnt rq div 1000 = get_quota sc div 1000"
    and ok: "cpu_books_ok (rsrc_amnt rq) s" and bal: "cpu_balanced s"
  shows "sint (cpuleak s') \<le> 0 \<and>
    (cpu_ledger (ec_cpu (ec s')) = 0 \<or>
     topup_short (rsrc_amnt rq) s \<and>
     cpu_ledger (ec_cpu (ec s')) = fair_cpu_share (ec s) - rsrc_amnt rq - unallocated_rt (ec_cpu (ec s)))"
proof -
  have "unat (overrun (ec_cpu (ec s))) < 2 ^ 62" using ok by (simp add: cpu_books_ok_def cpu_small_def Let_def)
  from run cpu sc agree bal this show ?thesis
  proof (cases rule: agreed_report)
    case (1 p idle rt_mean thr_mean s3 s4)
    then show ?thesis using cpu_adjust_ledger [OF 1(1)] ok bal cpu_books_ok_cong [OF 1(2,3)] by (simp add: cpu_balanced_def)
  qed
qed

text \<open>A throttled container below its fair share, with room in the pool.\<close>

definition sample_grow :: Controller where
  "sample_grow = sample_ctl (sample_ec (sample_sc 40000000 0) (sample_cpu 60000000 100000000 0 40000000)
     mem_g_default 100000000)"

lemma sample_grow_runs:
  "\<exists>ret res s'. handle_cpu_usage_report (sample_env Http_Exception) 0 (Some (sample_msg 0 40000000 0 1))
     (Some (sample_msg 0 40000000 0 1)) sample_grow = Inr (ret, res, s') \<and> rpc_log s' \<noteq> []"
  by (simp add: sample_grow_def cpu_eval double_eval)

theorem report_keeps_balance_witness:
  "\<exists>ret res s'. handle_cpu_usage_report (sample_env Http_Exception) 0 (Some (sample_msg 0 40000000 0 1))
     (Some (sample_msg 0 40000000 0 1)) sample_grow = Inr (ret, res, s') \<and>
     cpu_ledger (ec_cpu (ec s')) = 0 \<and> sint (cpuleak s') \<le> 0"
proof -
  have "\<not> topup_short 40000000 sample_grow" by (simp add: topup_short_def sample_grow_def sample_eval)
  obtain ret res s' where r: "handle_cpu_usage_report (sample_env Http_Exception) 0 (Some (sample_msg 0 40000000 0 1))
     (Some (sample_msg 0 40000000 0 1)) sample_grow = Inr (ret, res, s')"
    using sample_grow_runs by blast
  have "sint (cpuleak s') \<le> 0 \<and> (cpu_ledger (ec_cpu (ec s')) = 0 \<or>
      topup_short (rsrc_amnt (sample_msg 0 40000000 0 1)) sample_grow \<and> cpu_ledger (ec_cpu (ec s')) =
        fair_cpu_share (ec sample_grow) - rsrc_amnt (sample_msg 0 40000000 0 1) - unallocated_rt (ec_cpu (ec sample_grow)))"
    by (rule report_keeps_balance [OF r, of "sample_sc 40000000 0"])
      (simp_all add: sample_grow_def sample_eval req_CPU_def cpu_books_ok_def cpu_small_def MAX_UNUSED_RT_IN_NS_def
        cpu_balanced_def cpu_ledger_def)
  moreover have "rsrc_amnt (sample_msg 0 40000000 0 1) = 40000000" by (simp add: sample_msg_def)
  ultimately show ?thesis using r \<open>\<not> topup_short 40000000 sample_grow\<close> by auto
qed

text \<open>
  C2: handling a CPU report sends at most one request. It goes to the agent client that the
  container is linked to, under the controller's current sequence number, and when the agent
  accepts it, the quota recorded for the container is the quota in the request.
\<close>

theorem report_single_request:
  fixes s :: "'a Manager_scheme"
  assumes run: "handle_cpu_usage_report env now (Some rq) (Some rs) s = Inr (ret, res, s')"
    and cpu: "req_type rq = req_CPU"
  shows "rpc_log s' = rpc_log s \<or>
    (\<exists>sc ac q ch. get_subcontainer_back (ec s') (ContainerId_new (msg_t.cgroup_id rq) (client_ip rq)) = Inr sc \<and>
       um_find cid_key (sc_ac_map (ec s)) (c_id sc) = Some (Some ac) \<and>
       rpc_log s' = rpc_log s @ [Req_Quota_Update (ac_ptr ac) (cid_cgroup_id (c_id sc)) q ch
         (ucast (syscall_sequence_number s))] \<and>
       (quota_status env (rpc_log s') = 0 \<longrightarrow> get_quota sc = q))"
  using run cpu
proof (cases rule: handle_cpu_local)
  case (1 p sc)
  let ?k = "ContainerId_new (msg_t.cgroup_id rq) (client_ip rq)"
  show ?thesis
  proof (cases "rpc_log s' = rpc_log s")
    case False
    then obtain t and s3 s4 :: "'a Manager_scheme" where st: "local_change p (ec s) (ec s3)" "rpc_log s3 = rpc_log s" "ec s' = ec s4"
      "rpc_log s' = rpc_log s4" "requota_step env p (rsrc_amnt rq) t (ucast (syscall_sequence_number s)) s3 s4"
      using 1(4) by blast
    then obtain sc3 ac where c: "connected (ec s3) p sc3 ac" and
      s4: "let q = transfer_quota t (rsrc_amnt rq); l = rpc_log s3 @ [quota_request sc3 ac q (ucast (syscall_sequence_number s))]
       in s4 = (if quota_status env l \<noteq> 0 then s3\<lparr>rpc_log := l\<rparr>
            else s3\<lparr>rpc_log := l, ec := (ec s3)\<lparr>ec_cpu := apply_transfer t (ec_cpu (ec s3)),
                    sc_heap := (sc_heap (ec s3))(p \<mapsto> requota q sc3)\<rparr>\<rparr>)"
      unfolding requota_step_def by blast
    obtain sc' where sc': "sc_heap (ec s') p = Some sc'" "c_id sc' = c_id sc3"
      using requota_step_local [OF st(5)] local_change_sc [of p "ec s3" "ec s4" sc3] c st(3)
      by (auto simp: connected_def)
    moreover have "get_subcontainer_back (ec s') ?k = Inr sc'"
      using 1(1) local_change_back [OF 1(3)] sc'(1) by (auto simp: get_back_deref ec_get_sc_for_update_def)
    moreover have "um_find cid_key (sc_ac_map (ec s)) (c_id sc') = Some (Some ac)"
      using c st(1) sc'(2) by (simp add: connected_def local_change_def)
    moreover have "rpc_log s' = rpc_log s @ [quota_request sc3 ac (transfer_quota t (rsrc_amnt rq)) (ucast (syscall_sequence_number s))]"
      using s4 st(2,4) by (simp add: Let_def)
    moreover have "quota_status env (rpc_log s') = 0 \<longrightarrow> get_quota sc' = transfer_quota t (rsrc_amnt rq)"
      using s4 st(2,3,4) sc'(1) by (auto simp: Let_def split: if_splits)
    ultimately show ?thesis unfolding quota_request_def by auto
  qed simp
qed

theorem report_single_request_witness:
  "\<exists>ret res s'. handle_cpu_usage_report (sample_env Http_Exception) 0 (Some (sample_msg 0 40000000 0 1))
     (Some (sample_msg 0 40000000 0 1)) sample_grow = Inr (ret, res, s') \<and>
     (rpc_log s' = rpc_log sample_grow \<or>
      (\<exists>sc ac q ch. get_subcontainer_back (ec s') sample_cid = Inr sc \<and>
       um_find cid_key (sc_ac_map (ec sample_grow)) (c_id sc) = Some (Some ac) \<and>
       rpc_log s' = [Req_Quota_Update (ac_ptr ac) (cid_cgroup_id (c_id sc)) q ch 0] \<and> get_quota sc = q))"
proof -
  obtain ret res s' where r: "handle_cpu_usage_report (sample_env Http_Exception) 0 (Some (sample_msg 0 40000000 0 1))
     (Some (sample_msg 0 40000000 0 1)) sample_grow = Inr (ret, res, s')"
    using sample_grow_runs by blast
  have k: "ContainerId_new (msg_t.cgroup_id (sample_msg 0 40000000 0 1)) (client_ip (sample_msg 0 40000000 0 1)) = sample_cid"
    by (simp add: sample_eval)
  have "req_type (sample_msg 0 40000000 0 1) = req_CPU" by (simp add: sample_msg_def req_CPU_def)
  from report_single_request [OF r this] r show ?thesis
    unfolding k by (force simp: sample_grow_def sample_ctl_def sample_env_def)
qed

section \<open>Bounds of an adjustment\<close>

text \<open>At most one request, for a positive quota of at most \<open>b\<close>.\<close>

definition request_within :: "u32 \<Rightarrow> u64 \<Rightarrow> event list \<Rightarrow> event list \<Rightarrow> bool" where
  "request_within seq b l l' \<longleftrightarrow>
     l' = l \<or> (\<exists>a cg q ch. l' = l @ [Req_Quota_Update a cg q ch seq] \<and> 0 < q \<and> q \<le> b)"

lemma requota_within:
  "requota_step env p rx t seq s s' \<Longrightarrow> 0 < transfer_quota t rx \<Longrightarrow> transfer_quota t rx \<le> b \<Longrightarrow>
   request_within seq b (rpc_log s) (rpc_log s')"
  by (auto simp: requota_step_def Let_def quota_request_def request_within_def)

lemma same_within [simp]: "request_within seq b l l"
  by (simp add: request_within_def)

lemma plus_within:
  assumes "0 < rx" "unat rx < 2 ^ 53" "unat u < 2 ^ 53" "n \<le> u"
  shows "0 < rx + n" "rx + n \<le> rx + (u :: u64)" "u \<le> rx + u"
proof -
  have "unat (rx + m) = unat rx + unat m" if "m \<le> u" for m
    using that assms(2,3) by (intro unat_plus_no_overflow) (simp add: word_le_nat_alt)
  from this [OF assms(4)] this [of u] show "0 < rx + n" "rx + n \<le> rx + u" "u \<le> rx + u"
    using assms(1,4) by (simp_all add: word_less_nat_alt word_le_nat_alt)
qed

lemma wake_within:
  assumes "cpu_wake_idle env p rx seq s = Inr s'" "0 < ec_get_cpu_unallocated_rt s"
    and "ec_get_cpu_unallocated_rt s \<le> b"
  shows "request_within seq b (rpc_log s) (rpc_log s')"
proof -
  have "0 < min (ec_get_cpu_unallocated_rt s) 100000000" "min (ec_get_cpu_unallocated_rt s) 100000000 \<le> b"
    using assms(2,3) by (simp_all add: min_le_iff_disj)
  with wake_idle_step [OF assms(1)] show ?thesis by (auto intro: requota_within)
qed

lemma repay_within:
  assumes "cpu_reduce_overrun env p rx seq s = Inr s'" "ec_get_fair_cpu_share s < rx" "ec_get_fair_cpu_share s \<noteq> 0"
    and "unat rx \<le> 2 ^ 53" "ec_get_cpu_slice s \<le> ec_get_fair_cpu_share s" "rx \<le> b"
  shows "request_within seq b (rpc_log s) (rpc_log s')"
proof -
  from reduce_overrun_step [OF assms(1)] overrun_to_sub_bound [OF assms(2-5), of "ec_get_overrun s"]
  obtain n where n: "n < rx" "requota_step env p rx (Repay n) seq s s'" by auto
  then have "0 < rx - n" "rx - n \<le> rx" by (simp_all add: word_less_nat_alt word_le_nat_alt unat_diff)
  with assms(6) show ?thesis by (intro requota_within [OF n(2)]) auto
qed

lemma fair_within:
  assumes "cpu_grow_to_fair env p rx seq s = Inr s'" "rx < ec_get_fair_cpu_share s" "0 < rx"
    and "unat (ec_get_fair_cpu_share s) < 2 ^ 53" "ec_get_fair_cpu_share s \<le> b"
  shows "request_within seq b (rpc_log s) (rpc_log s')"
proof -
  let ?fair = "ec_get_fair_cpu_share s"
  have le: "unat ?fair \<le> 2 ^ 53" using assms(4) by simp
  from grow_to_fair_step [OF assms(1)] fair_to_add_bound(1) [OF assms(2) le, of "ec_get_cpu_slice s" "ec_get_cpu_unallocated_rt s"]
    fair_to_add_bound(2) [OF assms(2) le, of "ec_get_cpu_slice s"]
  obtain n t where n: "n \<le> ?fair - rx" "requota_step env p rx t seq s s'" "t = Grant n \<or> t = Borrow n"
    by auto
  have "unat (rx + n) = unat rx + unat n"
    using n(1) assms(2,4) by (intro unat_plus_no_overflow) (simp add: word_le_nat_alt word_less_nat_alt unat_diff)
  then have "0 < rx + n" "rx + n \<le> ?fair"
    using n(1) assms(2,3) by (simp_all add: word_le_nat_alt word_less_nat_alt unat_diff)
  then show ?thesis using n(3) assms(5) by (intro requota_within [OF n(2)]) auto
qed

lemma adjust_within:
  fixes s :: "'a ECAPI_scheme"
  defines "c \<equiv> ec_cpu (ec s)" and "fair \<equiv> fair_cpu_share (ec s)"
  assumes run: "cpu_adjust env p rx rt idle rt_mean thr seq s = Inr s'"
    and pos: "0 < rx" "0 < slice_size c" "slice_size c \<le> fair"
    and small: "unat rx < 2 ^ 53" "unat fair < 2 ^ 53" "unat (unallocated_rt c) < 2 ^ 53"
    and slice: "MAX_UNUSED_RT_IN_NS \<le> slice_size c"
  shows "request_within seq (max fair (rx + unallocated_rt c)) (rpc_log s) (rpc_log s')"
proof -
  let ?b = "max fair (rx + unallocated_rt c)"
  note grow = plus_within [OF pos(1) small(1,3)]
  have api: "ec_get_cpu_unallocated_rt s = unallocated_rt c" "ec_get_cpu_slice s = slice_size c"
    "ec_get_fair_cpu_share s = fair" by (simp_all add: api_defs c_def fair_def)
  have le53: "unat rx \<le> 2 ^ 53" using small(1) by simp
  have fair0: "fair \<noteq> 0" using pos(2,3) by (auto simp: word_gt_0)
  have b: "rx \<le> ?b" "unallocated_rt c \<le> ?b" using grow(2) [of 0] grow(3) [of 0] by (simp_all add: le_max_iff_disj)
  consider (same) "s' = s" | (wake) "0 < unallocated_rt c" "cpu_wake_idle env p rx seq s = Inr s'"
    | (repay) "fair < rx" "cpu_reduce_overrun env p rx seq s = Inr s'"
    | (tofair) "rx < fair" "cpu_grow_to_fair env p rx seq s = Inr s'"
    | (thr) "cpu_grow_throttled env p rx thr seq s = Inr s'"
    | (shrink) q where "cpu_shrink_to env p rx q seq s = Inr s'" "slice_size c \<le> q" "q \<le> rx"
    using cpu_adjust_cases [OF run] shrink_target_bounds [OF _ slice le53] unfolding api by (elim disjE exE conjE) blast+
  then show ?thesis
  proof cases
    case wake
    then show ?thesis using b(2) by (intro wake_within) (simp_all add: api)
  next
    case repay
    then show ?thesis using fair0 le53 pos(3) b(1) by (intro repay_within) (simp_all add: api)
  next
    case tofair
    then show ?thesis using pos(1) small(2) by (intro fair_within) (simp_all add: api)
  next
    case thr
    from grow_throttled_step [OF thr] show ?thesis unfolding api
      by (elim disjE exE conjE) (simp, rule requota_within, assumption, simp_all add: grow le_max_iff_disj)
  next
    case shrink
    have q: "0 < q" "q \<le> ?b" using less_le_trans [OF pos(2) shrink(2)] order_trans [OF shrink(3) b(1)] .
    from shrink_to_step [OF shrink(1)] show ?thesis
      by (elim disjE) (simp, rule requota_within, assumption, use q in simp_all)
  qed simp
qed

text \<open>
  C13: the bounds of a quota. A CPU report arrives on whose quota container and controller agree, with
  balanced books. The reported quota is positive, slices are at least 5 ms and no larger than the fair
  share, and all amounts are below \<open>2^53\<close> (104 days of CPU time). Then the quota that the report
  makes the controller request, if any, is not zero and not above the larger of the fair share and
  the reported quota plus everything unallocated. With a slice above the fair share this fails: the
  quota can wrap around.
\<close>

theorem report_quota_bounds:
  fixes s :: "'a Manager_scheme"
  defines "c \<equiv> ec_cpu (ec s)" and "fair \<equiv> fair_cpu_share (ec s)"
  assumes run: "handle_cpu_usage_report env now (Some rq) (Some rs) s = Inr (ret, res, s')"
    and cpu: "req_type rq = req_CPU"
    and sc: "get_subcontainer_back (ec s) (ContainerId_new (msg_t.cgroup_id rq) (client_ip rq)) = Inr sc"
    and agree: "rsrc_amnt rq div 1000 = get_quota sc div 1000" and bal: "cpu_balanced s" "unat (overrun c) < 2 ^ 53"
    and pos: "0 < rsrc_amnt rq" "slice_size c \<le> fair" "MAX_UNUSED_RT_IN_NS \<le> slice_size c"
    and small: "unat (rsrc_amnt rq) < 2 ^ 53" "unat fair < 2 ^ 53" "unat (unallocated_rt c) < 2 ^ 53"
  shows "rpc_log s' = rpc_log s \<or>
    (\<exists>a cg q ch. rpc_log s' = rpc_log s @ [Req_Quota_Update a cg q ch (ucast (syscall_sequence_number s))] \<and>
       0 < q \<and> q \<le> max fair (rsrc_amnt rq + unallocated_rt c))"
proof -
  have slice: "0 < slice_size c" using pos(3) by (auto simp: MAX_UNUSED_RT_IN_NS_def word_less_nat_alt word_le_nat_alt)
  have "unat (overrun (ec_cpu (ec s))) < 2 ^ 62" using bal(2) by (simp add: c_def)
  from run cpu sc agree bal(1) this show ?thesis
  proof (cases rule: agreed_report)
    case (1 p idle rt_mean thr_mean s3 s4)
    from adjust_within [OF 1(1)] pos slice small 1 show ?thesis by (auto simp: request_within_def c_def fair_def)
  qed
qed

theorem report_quota_bounds_witness:
  "\<exists>ret res s' a cg q ch. handle_cpu_usage_report (sample_env Http_Exception) 0 (Some (sample_msg 0 40000000 0 1))
     (Some (sample_msg 0 40000000 0 1)) sample_grow = Inr (ret, res, s') \<and>
     rpc_log s' = [Req_Quota_Update a cg q ch 0] \<and> 0 < q \<and> q \<le> 100000000"
proof -
  obtain ret res s' where r: "handle_cpu_usage_report (sample_env Http_Exception) 0 (Some (sample_msg 0 40000000 0 1))
     (Some (sample_msg 0 40000000 0 1)) sample_grow = Inr (ret, res, s')" and sent: "rpc_log s' \<noteq> []"
    using sample_grow_runs by blast
  have h: "ec_cpu (ec sample_grow) = sample_cpu 60000000 100000000 0 40000000" "fair_cpu_share (ec sample_grow) = 100000000"
    "rpc_log sample_grow = []" "syscall_sequence_number sample_grow = 0" "cpuleak sample_grow = 0"
    "rsrc_amnt (sample_msg 0 40000000 0 1) = 40000000" "req_type (sample_msg 0 40000000 0 1) = req_CPU"
    by (simp_all add: sample_grow_def sample_ctl_def sample_ec_def sample_msg_def req_CPU_def)
  have "get_subcontainer_back (ec sample_grow)
      (ContainerId_new (msg_t.cgroup_id (sample_msg 0 40000000 0 1)) (client_ip (sample_msg 0 40000000 0 1))) = Inr (sample_sc 40000000 0)"
    "get_quota (sample_sc 40000000 0) = 40000000" by (simp_all add: sample_grow_def sample_eval get_quota_def)
  from report_quota_bounds [OF r h(7) this(1)] this(2) r sent show ?thesis
    by (auto simp: h sample_cpu_def MAX_UNUSED_RT_IN_NS_def cpu_balanced_def cpu_ledger_def)
qed

section \<open>Disagreement about the quota\<close>



section \<open>A container connects\<close>

text \<open>
  C20: the quota of a connecting container. A request that fits into the unallocated CPU time is
  granted as it is, without a call to the agent; when some time is left but not enough, the
  container gets all of it; when nothing is left, it gets one slice, recorded as overrun. In
  each case the container's quota is what is added to the allocated time, and the books keep
  their balance.
\<close>

theorem new_pod_quota:
  assumes "determine_quota_for_new_pod req s = (flag, q, s')" and "cpu_small (ec_cpu (ec s))"
  shows "q = (if req \<le> unallocated_rt (ec_cpu (ec s)) then req
       else if unallocated_rt (ec_cpu (ec s)) = 0 then slice_size (ec_cpu (ec s)) else unallocated_rt (ec_cpu (ec s)))
     \<and> (flag \<noteq> 0 \<longleftrightarrow> q \<noteq> req \<or> unallocated_rt (ec_cpu (ec s)) < req)
     \<and> alloc_rt (ec_cpu (ec s')) = alloc_rt (ec_cpu (ec s)) + q
     \<and> unat (unallocated_rt (ec_cpu (ec s'))) = unat (unallocated_rt (ec_cpu (ec s))) - unat req
     \<and> overrun (ec_cpu (ec s')) = overrun (ec_cpu (ec s)) + (if unallocated_rt (ec_cpu (ec s)) = 0 \<and> req \<noteq> 0 then q else 0)
     \<and> cpu_ledger (ec_cpu (ec s')) = cpu_ledger (ec_cpu (ec s))"
proof -
  let ?c = "ec_cpu (ec s)"
  note run = assms(1) [unfolded determine_quota_cases] and led = determine_quota_ledger [OF assms]
  consider (fits) "req \<le> unallocated_rt ?c" | (none) "\<not> req \<le> unallocated_rt ?c" "unallocated_rt ?c = 0"
    | (some) "\<not> req \<le> unallocated_rt ?c" "unallocated_rt ?c \<noteq> 0" by blast
  then show ?thesis
  proof cases
    case fits
    then have "\<not> sint (unallocated_rt ?c - req) < 0"
      using assms(2) by (intro decr_exact) (simp_all add: cpu_small_def word_le_nat_alt)
    then have "alloc_rt (ec_cpu (ec s')) = alloc_rt ?c + req" "unallocated_rt (ec_cpu (ec s')) = unallocated_rt ?c - req"
      "overrun (ec_cpu (ec s')) = overrun ?c" "q = req" "flag = 0"
      using run fits by (auto simp: api_defs stat_simps unalloc_ctr.get_decr)
    then show ?thesis using fits led by (auto simp: unat_diff)
  next
    case none
    then have "alloc_rt (ec_cpu (ec s')) = alloc_rt ?c + q" "unallocated_rt (ec_cpu (ec s')) = 0"
      "overrun (ec_cpu (ec s')) = overrun ?c + q" "q = slice_size ?c" "flag = 1"
      using run by (auto simp: api_defs stat_simps)
    then show ?thesis using none led by (auto simp: word_gt_0)
  next
    case some
    then have "alloc_rt (ec_cpu (ec s')) = alloc_rt ?c + q" "unallocated_rt (ec_cpu (ec s')) = 0"
      "overrun (ec_cpu (ec s')) = overrun ?c" "q = unallocated_rt ?c" "flag = 1"
      using run by (auto simp: api_defs stat_simps)
    then show ?thesis using some led by (auto simp: word_le_nat_alt)
  qed
qed

theorem new_pod_quota_witness:
  "\<exists>flag q s'. determine_quota_for_new_pod 70000000 sample_grow = (flag, q, s') \<and> q = 60000000 \<and>
     alloc_rt (ec_cpu (ec s')) = 100000000"
proof -
  obtain flag q s' where r: "determine_quota_for_new_pod 70000000 sample_grow = (flag, q, s')" by (metis prod_cases3)
  have c: "ec_cpu (ec sample_grow) = sample_cpu 60000000 100000000 0 40000000"
    by (simp add: sample_grow_def sample_ctl_def sample_ec_def)
  from new_pod_quota [OF r] r show ?thesis by (auto simp: c sample_cpu_def cpu_small_def)
qed

end
