(* ===== verification/Gcm_Server.thy ===== *)
theory Gcm_Server
  imports Elastic_Container Msg_Types
begin

text \<open>
  \<open>Server.h\<close>, \<open>Server.cpp\<close>: the sockets on which containers talk to a controller. \<open>handle_req\<close> is a
  pure virtual function of the class and therefore an argument here; \<open>Manager\<close> implements it.

  The results of the socket calls are arguments: \<open>sock_results\<close> for the set-up, a list of reads
  (each with the time at which it is handled) for the data, and \<open>write_ok\<close> for the success of the
  next write, given what was written before. A read that returns no bytes or an error ends the
  list. The buffer of 56 bytes is reused, so a short read leaves the tail of the previous message.
\<close>

section \<open>State\<close>

record Server =
  server_id :: u32
  srv_ip :: ip4_addr
  srv_ports :: ports_t
  srv_agents :: "Agent list"
  server_initialized :: i32
  num_of_cli :: u32
  tcp_sock_fd :: i32
  udp_sock_fd :: i32

text \<open>The two descriptors are indeterminate after construction.\<close>

definition Server_new :: "i32 \<Rightarrow> i32 \<Rightarrow> u32 \<Rightarrow> ip4_addr \<Rightarrow> ports_t \<Rightarrow> Agent list \<Rightarrow> Server" where
  "Server_new fd1 fd2 i ip ports ags = \<lparr>server_id = i, srv_ip = ip, srv_ports = ports, srv_agents = ags,
     server_initialized = 0, num_of_cli = 0, tcp_sock_fd = fd1, udp_sock_fd = fd2\<rparr>"

record sock_results =
  socket_rv :: i32
  setsockopt_rv :: i32
  bind_rv :: i32
  listen_rv :: i32

definition initialize_tcp :: "sock_results \<Rightarrow> Server \<Rightarrow> Server result" where
  "initialize_tcp rv s =
     (let s = s\<lparr>num_of_cli := 0, tcp_sock_fd := socket_rv rv\<rparr> in
      if socket_rv rv = 0 then Inl Exit_Failure
      else if setsockopt_rv rv \<noteq> 0 then Inl Exit_Failure
      else if sint (bind_rv rv) < 0 then Inl Exit_Failure
      else if sint (listen_rv rv) < 0 then Inl Exit_Failure
      else Inr (s\<lparr>server_initialized := server_initialized s + 1\<rparr>))"

definition initialize_udp :: "sock_results \<Rightarrow> Server \<Rightarrow> Server result" where
  "initialize_udp rv s =
     (let s = s\<lparr>udp_sock_fd := socket_rv rv\<rparr> in
      if socket_rv rv = 0 then Inl Exit_Failure
      else if setsockopt_rv rv \<noteq> 0 then Inl Exit_Failure
      else if sint (bind_rv rv) < 0 then Inl Exit_Failure
      else Inr (s\<lparr>server_initialized := server_initialized s + 1\<rparr>))"

text \<open>The guard with which \<open>serve_tcp\<close> and \<open>serve_udp\<close> begin.\<close>

definition serve_guard :: "Server \<Rightarrow> unit result" where
  "serve_guard s = (if server_initialized s \<noteq> 2 then Inl Exit_Failure else Inr ())"

section \<open>Handling data\<close>

type_synonym 's handler =
  "int \<Rightarrow> msg_t option \<Rightarrow> msg_t option \<Rightarrow> u32 \<Rightarrow> i32 \<Rightarrow> 's \<Rightarrow> (i32 \<times> msg_t option \<times> 's) result"

definition HANDLE_REQ_BUFF :: nat where
  "HANDLE_REQ_BUFF = 56"

definition buff_read :: "u8 list \<Rightarrow> u8 list \<Rightarrow> u8 list" where
  "buff_read buff chunk = chunk @ drop (length chunk) buff"

text \<open>\<open>req->set_ip_from_net\<close> writes the address into the buffer.\<close>

definition buff_set_ip :: "ip4_addr \<Rightarrow> u8 list \<Rightarrow> u8 list" where
  "buff_set_ip ip buff = le32 (ip_addr ip) @ drop 4 buff"

text \<open>When the answer is written back: \<open>ret\<close> is compared as a \<open>uint64_t\<close>.\<close>

definition tcp_replies :: "i32 \<Rightarrow> msg_t \<Rightarrow> bool" where
  "tcp_replies ret res =
     (let r = scast ret :: u64 in
      if r = scast ALLOC_INIT then True
      else if r = scast ALLOC_SUCCESS \<and> request res = 0 then True
      else r = scast ALLOC_MEM_FAILED)"

definition udp_replies :: "i32 \<Rightarrow> msg_t \<Rightarrow> bool" where
  "udp_replies ret res \<longleftrightarrow> request res = 0 \<and> (scast ret :: u64) = scast ALLOC_SUCCESS"

text \<open>
  What a freshly copied message holds in the places the copy constructor does not write: \<open>sock_addr\<close>
  and the two gaps in its layout. They are sent along with the rest.
\<close>

type_synonym indeterminate = "i64 \<times> u32 \<times> u32"

definition write_msg :: "indeterminate \<Rightarrow> msg_t \<Rightarrow> u8 list" where
  "write_msg indet m = (case indet of (_, gap1, gap2) \<Rightarrow> encode_msg gap1 gap2 m)"

text \<open>The loop of \<open>handle_client_reqs_tcp\<close>; \<open>sent\<close> is what has been written so far, one entry per \<open>write\<close>.\<close>

fun tcp_loop ::
  "'s handler \<Rightarrow> indeterminate \<Rightarrow> (u8 list list \<Rightarrow> bool) \<Rightarrow> u32 \<Rightarrow> i32 \<Rightarrow> u8 list \<Rightarrow> u8 list list \<Rightarrow>
     (int \<times> u8 list) list \<Rightarrow> 's \<Rightarrow> (u8 list list \<times> 's) result" where
  "tcp_loop hreq indet write_ok cip cfd buff sent [] s = Inr (sent, s)"
| "tcp_loop hreq indet write_ok cip cfd buff sent ((now, chunk) # reads) s =
     (if chunk = [] then Inr (sent, s)
      else let buff = buff_set_ip (from_net cip) (buff_read buff chunk);
               req = decode_msg buff;
               res = msg_copy (fst indet) req
           in bind_r (hreq now (Some req) (Some res) (to_uint32 (from_net cip)) cfd s) (\<lambda>(ret, res', s).
                let r = (case res' of Some r \<Rightarrow> r | None \<Rightarrow> res) in
                if tcp_replies ret r then
                  (if write_ok sent then tcp_loop hreq indet write_ok cip cfd buff (sent @ [write_msg indet r]) reads s
                   else Inr (sent, s))
                else tcp_loop hreq indet write_ok cip cfd buff sent reads s))"

definition handle_client_reqs_tcp ::
  "'s handler \<Rightarrow> indeterminate \<Rightarrow> (u8 list list \<Rightarrow> bool) \<Rightarrow> u32 \<Rightarrow> i32 \<Rightarrow> (int \<times> u8 list) list \<Rightarrow> Server \<Rightarrow> 's \<Rightarrow>
     (u8 list list \<times> Server \<times> 's) result" where
  "handle_client_reqs_tcp hreq indet write_ok cip cfd reads srv s =
     bind_r (tcp_loop hreq indet write_ok cip cfd (replicate HANDLE_REQ_BUFF 0) [] reads s) (\<lambda>(sent, s).
       Inr (sent, srv\<lparr>num_of_cli := num_of_cli srv + 1\<rparr>, s))"

text \<open>
  A datagram is one message. The address passed on is the server socket's own, which \<open>initialize_udp\<close>
  set to \<open>INADDR_ANY\<close>: \<open>recvfrom\<close> stores the sender elsewhere.
\<close>

definition handle_client_reqs_udp ::
  "'s handler \<Rightarrow> indeterminate \<Rightarrow> int \<Rightarrow> u8 list \<Rightarrow> Server \<Rightarrow> 's \<Rightarrow> (u8 list list \<times> Server \<times> 's) result" where
  "handle_client_reqs_udp hreq indet now datagram srv s =
     (let buff = buff_read (replicate HANDLE_REQ_BUFF 0) (take HANDLE_REQ_BUFF datagram);
          buff = buff_set_ip (from_host (to_uint32 (client_ip (decode_msg buff)))) buff;
          req = decode_msg buff;
          res = msg_copy (fst indet) req
      in bind_r (hreq now (Some req) (Some res) (to_uint32 (from_net 0)) (udp_sock_fd srv) s) (\<lambda>(ret, res', s).
           let r = (case res' of Some r \<Rightarrow> r | None \<Rightarrow> res) in
           Inr (if udp_replies ret r then [write_msg indet r] else [], srv\<lparr>num_of_cli := num_of_cli srv + 1\<rparr>, s)))"

section \<open>Lemmas\<close>

text \<open>The reply table of the TCP loop.\<close>

lemma scast_i32_u64_inject: "(scast (a :: i32) :: u64) = scast b \<longleftrightarrow> a = b"
proof
  assume "(scast a :: u64) = scast b"
  then have "sint (scast a :: u64) = sint (scast b :: u64)" by simp
  moreover have "sint (scast w :: u64) = sint w" for w :: i32
    using sint_lt [of w] sint_ge [of w]
    by (simp add: signed_scast_eq) (rule signed_take_bit_int_eq_self; simp)
  ultimately show "a = b" by (intro signed_word_eqI) simp
qed simp

lemma tcp_replies_iff:
  "tcp_replies ret res \<longleftrightarrow>
     ret = ALLOC_INIT \<or> ret = ALLOC_SUCCESS \<and> request res = 0 \<or> ret = ALLOC_MEM_FAILED"
  by (auto simp: tcp_replies_def Let_def scast_i32_u64_inject)

lemma udp_replies_iff: "udp_replies ret res \<longleftrightarrow> request res = 0 \<and> ret = ALLOC_SUCCESS"
  by (simp add: udp_replies_def scast_i32_u64_inject)

text \<open>A server that went through both set-ups serves.\<close>

lemma serve_after_init:
  assumes "initialize_tcp r1 (Server_new f1 f2 i ip ports ags) = Inr s1" and "initialize_udp r2 s1 = Inr s2"
  shows "serve_guard s2 = Inr ()"
  using assms
  by (auto simp: initialize_tcp_def initialize_udp_def serve_guard_def Server_new_def Let_def split: if_splits)

end
