(* ===== verification/Control_Manager.thy ===== *)
theory Control_Manager
  imports Deploy_Service Gcm_Server
begin

text \<open>
  \<open>GlobalControlManager.h\<close>, \<open>GlobalControlManager.cpp\<close>, \<open>main.cpp\<close> and the constructor and start of
  \<open>Manager\<close>: how the controllers, one per tenant, are set up from the configuration.

  A \<open>Manager\<close> object is the pair of its state as a controller and as a server (the class inherits
  from both). Members that a constructor leaves indeterminate, and the results of the socket
  calls, are arguments. \<open>run\<close> does not return: what is modelled of \<open>main\<close> is everything up to it.
\<close>

section \<open>Managers\<close>

type_synonym manager = "Controller \<times> Server"

definition BASE_GRPC_PORT :: i32 where
  "BASE_GRPC_PORT = 4447"

text \<open>\<open>ind\<close> is the object's memory before construction.\<close>

definition Manager_new ::
  "manager \<Rightarrow> sock_results \<Rightarrow> sock_results \<Rightarrow> i32 \<Rightarrow> ip4_addr \<Rightarrow> ports_t \<Rightarrow> Agent list \<Rightarrow> manager result" where
  "Manager_new ind r1 r2 i ip ports ags =
     (let srv = Server_new (tcp_sock_fd (snd ind)) (udp_sock_fd (snd ind)) i ip ports ags;
          m = (fst ind)\<lparr>ecapi_id := i, manager_id := i, syscall_sequence_number := 0, cpuleak := 0,
                deploy_service_ip := ip4_to_string ip, grpc_port := BASE_GRPC_PORT + i - 1,
                mem_limit_jobs := []\<rparr>
      in bind_r (initialize_tcp r1 srv) (\<lambda>srv. bind_r (initialize_udp r2 srv) (\<lambda>srv. Inr (m, srv))))"

text \<open>
  \<open>Manager::start\<close> up to the joins: the server threads check that the server is set up, the elastic
  container and the deployment service are created.
\<close>

definition manager_start :: "manager \<Rightarrow> manager result" where
  "manager_start m = bind_r (serve_guard (snd m)) (\<lambda>_.
     Inr ((snd (create_ec (fst m)))\<lparr>deployedPods := [], dockerToSubContainer := []\<rparr>, snd m))"

section \<open>The global control manager\<close>

record GCM =
  gcm_ip :: ip4_addr
  gcm_port :: u16
  controller_ports :: "ports_t list"
  server_ports :: "u16 list"
  managers :: "(i32 \<times> manager) list"
  manager_counts :: i32
  gcm_agents :: "Agent list"

fun make_agents :: "(string \<Rightarrow> u32) \<Rightarrow> string list \<Rightarrow> Agent list result" where
  "make_agents inet_addr [] = Inr []"
| "make_agents inet_addr (s # ss) =
     bind_r (Agent_new inet_addr s) (\<lambda>a. bind_r (make_agents inet_addr ss) (\<lambda>as. Inr (a # as)))"

definition GCM_new :: "(string \<Rightarrow> u32) \<Rightarrow> string \<Rightarrow> u16 \<Rightarrow> string list \<Rightarrow> ports_t list \<Rightarrow> GCM result" where
  "GCM_new inet_addr ip port ags ports =
     bind_r (from_string inet_addr ip) (\<lambda>a. bind_r (make_agents inet_addr ags) (\<lambda>as.
       if length as \<noteq> length ags then Inl Exit_Failure
       else Inr \<lparr>gcm_ip = a, gcm_port = port, controller_ports = ports, server_ports = [],
              managers = [], manager_counts = 1, gcm_agents = as\<rparr>))"

text \<open>The older constructor stores its ports in \<open>server_ports\<close> and leaves \<open>controller_ports\<close> empty.\<close>

definition GCM_new_u16 :: "(string \<Rightarrow> u32) \<Rightarrow> string \<Rightarrow> u16 \<Rightarrow> string list \<Rightarrow> u16 list \<Rightarrow> GCM result" where
  "GCM_new_u16 inet_addr ip port ags ports =
     bind_r (from_string inet_addr ip) (\<lambda>a. bind_r (make_agents inet_addr ags) (\<lambda>as.
       if length as \<noteq> length ags then Inl Exit_Failure
       else Inr \<lparr>gcm_ip = a, gcm_port = port, controller_ports = [], server_ports = ports,
              managers = [], manager_counts = 1, gcm_agents = as\<rparr>))"

text \<open>\<open>controller_ports[i]\<close> is unchecked.\<close>

definition create_manager ::
  "manager \<Rightarrow> sock_results \<Rightarrow> sock_results \<Rightarrow> GCM \<Rightarrow> (u32 \<times> GCM) result" where
  "create_manager ind r1 r2 g =
     (if um_find id (managers g) (manager_counts g) \<noteq> None then Inr (0, g)
      else let i = manager_counts g - 1 in
        if sint i < 0 \<or> length (controller_ports g) \<le> nat (sint i) then Inl Undefined_Behaviour
        else bind_r (Manager_new ind r1 r2 (manager_counts g) (gcm_ip g) (controller_ports g ! nat (sint i)) (gcm_agents g))
          (\<lambda>m. Inr (server_id (snd m), g\<lparr>managers := um_insert id (manager_counts g) m (managers g),
                    manager_counts := manager_counts g + 1\<rparr>)))"

definition get_manager :: "GCM \<Rightarrow> i32 \<Rightarrow> manager result" where
  "get_manager g i = (case um_find id (managers g) i of None \<Rightarrow> Inl Exit_Failure | Some m \<Rightarrow> Inr m)"

text \<open>\<open>run\<close> starts the manager with id 1; dereferencing \<open>end()\<close> is undefined.\<close>

definition gcm_run :: "GCM \<Rightarrow> manager result" where
  "gcm_run g = (case um_find id (managers g) 1 of None \<Rightarrow> Inl Undefined_Behaviour | Some m \<Rightarrow> manager_start m)"

text \<open>One client per agent, at fresh addresses; duplicates of an address are not registered.\<close>

fun add_clients :: "nat \<Rightarrow> Agent list \<Rightarrow> AgentClientDB \<Rightarrow> AgentClientDB" where
  "add_clients p [] db = db"
| "add_clients p (a # as) db = add_clients (Suc p) as (add_agent_client (AgentClient_new p a) db)"

definition init_agent_connections :: "GCM \<Rightarrow> AgentClientDB option \<Rightarrow> bool \<times> AgentClientDB option" where
  "init_agent_connections g inst =
     (let db = add_clients 0 (gcm_agents g) (get_agent_client_db_instance inst)
      in ((of_nat (length (gcm_agents g)) :: u32) = get_agent_clients_db_size db, Some db))"

section \<open>main\<close>

definition GCM_PORT :: u16 where "GCM_PORT = 8888"

text \<open>The loop over the tenants; \<open>emplace_back\<close> converts the \<open>int\<close> ports to \<open>uint16_t\<close>.\<close>

definition tenant_ports :: "i32 \<Rightarrow> ports_t list" where
  "tenant_ports n = map (\<lambda>i. ports_new (of_nat (5000 + i)) (of_nat (6000 + i))) [0..<nat (sint n)]"

fun create_managers ::
  "(nat \<Rightarrow> manager) \<Rightarrow> (nat \<Rightarrow> sock_results \<times> sock_results) \<Rightarrow> nat \<Rightarrow> GCM \<Rightarrow> GCM result" where
  "create_managers ind rv 0 g = Inr g"
| "create_managers ind rv (Suc n) g =
     bind_r (create_manager (ind n) (fst (rv n)) (snd (rv n)) g) (\<lambda>(_, g). create_managers ind rv n g)"

text \<open>
  \<open>main\<close> up to \<open>gcm->run\<close>: \<open>Inl n\<close> is the exit status where it returns, \<open>Inr\<close> the state in which
  \<open>run\<close> is called. \<open>config\<close> is the text of the file named on the command line.
\<close>

definition gcm_main ::
  "(string \<Rightarrow> u32) \<Rightarrow> 'v json_lib \<Rightarrow> 'v json_config \<Rightarrow> (nat \<Rightarrow> manager) \<Rightarrow> (nat \<Rightarrow> sock_results \<times> sock_results) \<Rightarrow>
     nat \<Rightarrow> string \<Rightarrow> (i32 + GCM \<times> AgentClientDB option) result" where
  "gcm_main inet_addr js jc0 ind rv argc config =
     (if argc < 2 then Inr (Inl 1)
      else case parseFile js config jc0 of (status, jc) \<Rightarrow>
        if status \<noteq> 0 then Inr (Inl 1)
        else let ports = tenant_ports (num_tenants jc) in
          bind_r (GCM_new inet_addr (gcm_ip_str jc) GCM_PORT (agent_ips jc) ports) (\<lambda>g.
          bind_r (create_managers ind rv (length ports) g) (\<lambda>g.
            case init_agent_connections g None of (ok, db) \<Rightarrow>
              if \<not> ok then Inl Exit_Failure else Inr (Inr (g, db)))))"

end
