(* ===== verification/Controller_Steps.thy ===== *)
theory Controller_Steps
  imports Control_Manager
begin

text \<open>
  The controller as a transition system: the requests of the containers, the rounds of its own
  threads and the calls of the deployer, in any order. Each step is one call that returns; the
  state it starts from is whatever the earlier steps left. What every step keeps of the registry,
  of the links between containers and agents, and of the set of agents is shown once per
  operation, with the quiet changes of \<open>Elastic_Container\<close> covering all but connecting and removing.
\<close>

section \<open>Operations that leave the registry alone\<close>

lemma quiet_forward [simp]:
  "quiet e (ec (ec_incr_unallocated_rt n s)) = quiet e (ec s)" "quiet e (ec (ec_decr_unallocated_rt n s)) = quiet e (ec s)"
  "quiet e (ec (ec_incr_alloc_rt n s)) = quiet e (ec s)" "quiet e (ec (ec_decr_alloc_rt n s)) = quiet e (ec s)"
  "quiet e (ec (ec_incr_unalloc_memory_in_pages n s)) = quiet e (ec s)"
  "quiet e (ec (ec_decr_unalloc_memory_in_pages n s)) = quiet e (ec s)"
  "quiet e (ec (ec_incr_alloc_memory_in_pages n s)) = quiet e (ec s)"
  "quiet e (ec (ec_decr_alloc_memory_in_pages n s)) = quiet e (ec s)"
  "quiet e (ec (ec_update_alloc_memory_in_pages n s)) = quiet e (ec s)"
  "quiet e (ec (ec_update_reclaim_memory_in_pages n s)) = quiet e (ec s)"
  by (simp_all add: api_defs)

text \<open>What a quiet operation does to the rest of the state: the set of agents stays.\<close>

definition calm :: "'a ECAPI_scheme \<Rightarrow> 'a ECAPI_scheme \<Rightarrow> bool" where
  "calm s s' \<longleftrightarrow> quiet (ec s) (ec s') \<and> agent_db s' = agent_db s"

lemma calm_refl [simp]: "calm s s"
  by (simp add: calm_def)

lemma calm_trans: "calm s s' \<Longrightarrow> calm s' s'' \<Longrightarrow> calm s s''"
  by (auto simp: calm_def intro: quiet_trans)

lemma calm_pools [simp]:
  "calm s (ec_incr_unallocated_rt n s') = calm s s'" "calm s (ec_decr_unallocated_rt n s') = calm s s'"
  "calm s (ec_incr_alloc_rt n s') = calm s s'" "calm s (ec_decr_alloc_rt n s') = calm s s'"
  "calm s (ec_incr_unalloc_memory_in_pages n s') = calm s s'" "calm s (ec_decr_unalloc_memory_in_pages n s') = calm s s'"
  "calm s (ec_incr_alloc_memory_in_pages n s') = calm s s'" "calm s (ec_decr_alloc_memory_in_pages n s') = calm s s'"
  "calm s (ec_update_alloc_memory_in_pages n s') = calm s s'"
  "calm s (ec_update_reclaim_memory_in_pages n s') = calm s s'"
  by (simp_all add: calm_def) (simp_all add: api_defs)

lemma calm_reclaimed [simp]: "calm (ec_update_reclaim_memory_in_pages n s) s' = calm s s'"
proof -
  have e: "subcontainers (ec (ec_update_reclaim_memory_in_pages n s)) = subcontainers (ec s)"
    "sc_next (ec (ec_update_reclaim_memory_in_pages n s)) = sc_next (ec s)"
    "live_keys (ec (ec_update_reclaim_memory_in_pages n s)) = live_keys (ec s)"
    "links (ec (ec_update_reclaim_memory_in_pages n s)) = links (ec s)"
    "sc_ac_map (ec (ec_update_reclaim_memory_in_pages n s)) = sc_ac_map (ec s)"
    "agent_db (ec_update_reclaim_memory_in_pages n s) = agent_db s"
    by (simp_all add: api_defs live_keys_def [abs_def] links_def)
  show ?thesis unfolding calm_def quiet_def e ..
qed

lemma calm_on_ec: "quiet (ec s) (f (ec s)) \<Longrightarrow> calm s (on_ec f s)"
  by (simp add: calm_def on_ec_def)

lemma calm_on_sc: "(\<And>sc. cid_key (c_id (f sc)) = cid_key (c_id sc)) \<Longrightarrow> calm s s' \<Longrightarrow> calm s (on_sc p f s')"
  by (auto simp: calm_def on_ec_def intro: quiet_sc_upd)

lemma calm_mem_limit: "calm s s' \<Longrightarrow> calm s (on_sc p (set_mem_limit_in_pages n) s')"
  by (rule calm_on_sc) (simp_all add: state_defs)

text \<open>The calls to agents and to cAdvisor.\<close>

lemma calm_corres:
  "get_corres_agent_client k (ec s) = (ac, e) \<Longrightarrow> calm s (s\<lparr>ec := e, rpc_log := l\<rparr>)"
  "get_corres_agent_client k (ec s) = (ac, e) \<Longrightarrow> calm s (s\<lparr>ec := e\<rparr>)"
  using quiet_get_corres [of "ec s" k] by (simp_all add: calm_def)

lemma cadvisor_calm:
  "sc_get_memory_usage_in_bytes_cadvisor env k d s = Inr (r, s') \<Longrightarrow> calm s s'"
  "sc_get_memory_limit_in_bytes_cadvisor env k s = Inr (r, s') \<Longrightarrow> calm s s'"
  by (auto simp: sc_get_memory_usage_in_bytes_cadvisor_def get_sc_memory_usage_in_bytes_def
      sc_get_memory_limit_in_bytes_cadvisor_def get_sc_memory_limit_in_bytes_def bind_r_eq_Inr Let_def
      intro: calm_corres split: prod.splits option.splits if_splits)

lemma resize_calm: "sc_resize_memory_limit_in_pages env k n s = Inr (r, s') \<Longrightarrow> calm s s'"
  by (auto simp: sc_resize_memory_limit_in_pages_def bind_r_eq_Inr intro: calm_corres
      split: prod.splits option.splits)

lemma set_limit_calm: "sc_set_memory_limit_in_pages k n s = Inr s' \<Longrightarrow> calm s s'"
  by (auto simp: sc_set_memory_limit_in_pages_def bind_r_eq_Inr intro: calm_mem_limit)

lemma quota_syscall_calm:
  assumes "set_sc_quota_syscall env (Some p) q seq s = Inr (r, s')"
  shows "calm s s'"
proof -
  obtain sc ac where c: "connected (ec s) p sc ac" using assms by (rule set_sc_quota_syscall_Inr)
  from assms show ?thesis
    unfolding set_sc_quota_syscall_connected [OF c] by (auto simp: calm_def Let_def)
qed

section \<open>Memory\<close>

lemma reclaim_calm:
  assumes "reclaim env k p s = Inr (r, s')"
  shows "calm s s'"
proof -
  obtain u s1 where s1: "calm s s1" and rest: "s' = s1 \<or> (\<exists>t rr s2. calm s1 s2 \<and>
      sc_resize_memory_limit_in_pages env k t s1 = Inr (rr, s2) \<and>
      (s' = s2 \<or> (\<exists>k' n. sc_set_memory_limit_in_pages k' n s2 = Inr s')))"
    using assms unfolding reclaim_def
    by (auto simp: bind_r_eq_Inr Let_def split: if_splits dest: cadvisor_calm(1) resize_calm)
      (metis resize_calm cadvisor_calm(1))+
  from rest show ?thesis
    using s1 calm_trans set_limit_calm by metis
qed

lemma reclaim_others_calm: "reclaim_others env f m n s = Inr (r, s') \<Longrightarrow> calm s s'"
proof (induction m arbitrary: f n s)
  case (Cons x m)
  obtain k q where x: "x = (k, q)" by fastforce
  from Cons.prems show ?case
    by (auto simp: x bind_r_eq_Inr split: if_splits dest!: reclaim_calm Cons.IH intro: calm_trans)
qed simp

lemma handle_reclaim_calm: "handle_reclaim_memory env f s = Inr (r, s') \<Longrightarrow> calm s s'"
  unfolding handle_reclaim_memory_def by (rule reclaim_others_calm)

lemma reclaim_all_calm: "reclaim_all env m n s = Inr (r, s') \<Longrightarrow> calm s s'"
  by (induction env m n s rule: reclaim_all.induct)
    (auto simp: bind_r_eq_Inr dest: reclaim_calm intro: calm_trans)

lemma run_round_calm: "run_round env s = Inr s' \<Longrightarrow> calm s s'"
  by (auto simp: run_round_def bind_r_eq_Inr dest: reclaim_all_calm)

lemma make_available_calm: "mem_make_available env f s = Inr (r, s') \<Longrightarrow> calm s s'"
  by (auto simp: mem_make_available_def bind_r_eq_Inr Let_def split: if_splits dest: handle_reclaim_calm)

lemma handle_mem_req_calm: "handle_mem_req env rq rs f s = Inr (ret, res, s') \<Longrightarrow> calm s s'"
  by (auto simp: handle_mem_req_def bind_r_eq_Inr Let_def split: if_splits option.splits
      dest!: make_available_calm intro!: calm_mem_limit)

lemma mem_admit_calm: "mem_admit env k f pages n s = Inr s' \<Longrightarrow> calm s s'"
  by (auto simp: mem_admit_def bind_r_eq_Inr Let_def split: if_splits dest!: handle_reclaim_calm resize_calm
      intro: calm_trans)

lemma mem_job_calm: "determine_mem_limit_for_new_pod env po f s = Inr s' \<Longrightarrow> calm s s'"
  by (auto simp: determine_mem_limit_for_new_pod_def bind_r_eq_Inr Let_def split: if_splits option.splits
      dest!: cadvisor_calm mem_admit_calm intro!: calm_mem_limit intro: calm_trans)

section \<open>CPU\<close>

lemma requota_step_calm: "requota_step env p old t seq s s' \<Longrightarrow> calm s s'"
  by (frule requota_step_local, drule local_change_quiet) (auto simp: calm_def requota_step_def Let_def)

lemma with_quota_calm:
  assumes "with_quota_syscall env p q seq commit s = Inr s'" and "\<And>s1. calm s s1 \<Longrightarrow> calm s (commit s1)"
  shows "calm s s'"
  using assms by (auto simp: with_quota_syscall_def bind_r_eq_Inr split: if_splits dest: quota_syscall_calm)

lemma agent_db_frame [simp]:
  "agent_db (ec_incr_unallocated_rt n s) = agent_db s" "agent_db (ec_decr_unallocated_rt n s) = agent_db s"
  "agent_db (ec_incr_alloc_rt n s) = agent_db s" "agent_db (ec_decr_alloc_rt n s) = agent_db s"
  "agent_db (on_ec f s) = agent_db s"
  by (simp_all add: api_defs)

lemma mismatch_db: "cpu_check_mismatch p rx s = Inr (b, s') \<Longrightarrow> agent_db s' = agent_db s"
  by (auto simp: cpu_check_mismatch_def bind_r_eq_Inr Let_def split: if_splits prod.splits)

lemma fix_leak_db: "agent_db (cpu_fix_leak s) = agent_db s"
  by (simp add: cpu_fix_leak_def Let_def api_defs)

lemma cpu_report_calm:
  assumes "handle_cpu_usage_report env now req res s = Inr (ret, res', s')"
  shows "calm s s'"
proof -
  obtain rq rs where rq: "req = Some rq" "res = Some rs"
    using assms by (auto simp: handle_cpu_usage_report_def split: option.splits)
  show ?thesis
  proof (cases "req_type rq = req_CPU")
    case True
    note run = assms [unfolded rq] True
    from run obtain p where "local_change p (ec s) (ec s')" by (rule handle_cpu_local)
    then have q: "quiet (ec s) (ec s')" by (rule local_change_quiet)
    from run have "agent_db s' = agent_db s"
    proof (cases rule: handle_cpu_Inr)
      case (early p sc)
      from mismatch_db [OF early(3)] show ?thesis by (simp add: on_ec_def)
    next
      case (full p sc s2 rt_mean thr_mean s3 s4)
      have "agent_db s4 = agent_db s3" using cpu_adjust_step [OF full(5)] by (auto dest: requota_step_calm simp: calm_def)
      moreover have "agent_db s3 = agent_db s2" using insert_stats_frame [OF full(4)] fix_leak_db [of s2] by auto
      moreover have "agent_db s2 = agent_db s" using mismatch_db [OF full(3)] by (simp add: on_ec_def)
      ultimately show ?thesis using full(6) by simp
    qed
    with q show ?thesis by (simp add: calm_def)
  qed (use assms rq in \<open>simp add: handle_cpu_usage_report_def\<close>)
qed

lemma idle_pass_calm: "idle_pass env now m seq s = Inr (seq', s') \<Longrightarrow> calm s s'"
proof (induction m arbitrary: seq s)
  case (Cons x m)
  obtain k q where x: "x = (k, q)" by fastforce
  have upd: "calm s s1 \<Longrightarrow> calm s (on_sc p sc_flush s1)" "calm s s1 \<Longrightarrow> calm s (on_sc p (set_quota n) s1)"
    "calm s s1 \<Longrightarrow> calm s (on_sc p (sc_set_quota_flag b) s1)" for s1 p n b
    by (auto intro!: calm_on_sc simp: state_defs)
  have "with_quota_syscall env p idle_min_quota seq (\<lambda>s.
       ec_decr_alloc_rt d (on_sc p sc_flush (on_sc p (set_quota idle_min_quota)
         (ec_incr_unallocated_rt d (on_sc p (sc_set_quota_flag True) s))))) s = Inr s1 \<Longrightarrow> calm s s1" for p d s1
    by (erule with_quota_calm) (simp add: upd)
  with Cons.prems show ?case
    by (auto simp: x bind_r_eq_Inr Let_def split: if_splits dest!: Cons.IH intro: calm_trans)
qed simp

section \<open>The invariant\<close>

text \<open>A link leads to a client whose agent runs on the container's node.\<close>

definition links_ok :: "ElasticContainer \<Rightarrow> bool" where
  "links_ok e \<longleftrightarrow> (\<forall>x \<in> links e. get_agent_ip (snd x) = snd (fst x))"

definition ctl_inv :: "'a ECAPI_scheme \<Rightarrow> bool" where
  "ctl_inv s \<longleftrightarrow> ec_wf (ec s) \<and> links_ok (ec s) \<and> (\<forall>db. agent_db s = Some db \<longrightarrow> db_wf db)"

lemma links_ok_mono: "links e' \<subseteq> links e \<Longrightarrow> links_ok e \<Longrightarrow> links_ok e'"
  by (auto simp: links_ok_def)

lemma inv_calm: "calm s s' \<Longrightarrow> ctl_inv s \<Longrightarrow> ctl_inv s'"
  by (auto simp: ctl_inv_def calm_def intro: ec_wf_quiet) (simp add: links_ok_def quiet_def)

lemma link_agent:
  assumes "ctl_inv s" and "um_find cid_key (sc_ac_map (ec s)) k = Some (Some ac)"
  shows "get_agent_ip ac = cid_server_ip k"
proof -
  obtain j where "(j, Some ac) \<in> set (sc_ac_map (ec s))" "cid_key j = cid_key k"
    using um_find_in_set [OF assms(2)] by blast
  then have "(cid_key k, ac) \<in> links (ec s)" by (auto simp: links_def) metis
  with assms(1) show ?thesis by (auto simp: ctl_inv_def links_ok_def cid_key_def)
qed

subsection \<open>A container connects\<close>

lemma links_add: "links (add_to_sc_ac_map k ac e) \<subseteq> insert (cid_key k, ac) (links e)"
  by (auto simp: links_def add_to_sc_ac_map_def um_insert_def split: option.splits if_splits)

lemma links_frame:
  "links (on_cpu f e) = links e" "links (reg_push k p e) = links e" "links (reg_pop k e) = links e"
  "links (update_fair_cpu_share e) = links e" "links (snd (create_new_sc_quota now cg ip f0 q t e)) = links e"
  "links (sc_upd p g e) = links e" "links (e\<lparr>ec_cpu := c\<rparr>) = links e"
  by (simp_all add: links_def on_cpu_def reg_push_frame reg_pop_frame update_fair_cpu_share_def
      create_new_sc_quota_def sc_upd_def)

text \<open>The registry after a container \<open>sc\<close> was created and inserted.\<close>

lemma create_insert:
  assumes "ec_wf e" and "create_new_sc_quota now cg ip f q t e = (p, e1)" and "insert_sc p e1 = Inr (ret, e2)"
  shows "ret = ALLOC_INIT \<and> ec_wf e2 \<and> links e2 = links e \<and>
     sc_heap e2 p = Some (SubContainer_new_quota now cg ip f q t) \<and>
     reg_look e2 = (reg_look e)((cg, Ip4 ip) := reg_look e (cg, Ip4 ip) @ [p])"
proof -
  let ?sc = "SubContainer_new_quota now cg ip f q t"
  have key: "cid_key (c_id ?sc) = (cg, Ip4 ip)"
    by (simp add: SubContainer_new_quota_def ContainerId_new_def cid_key_def from_net_def)
  have e1: "e1 = snd (create_new_sc_quota now cg ip f q t e)" using assms(2) by simp
  have heap: "sc_heap e1 p = Some ?sc" and look: "reg_look e1 = reg_look e" and p: "p = sc_next e"
    using assms(2) by (auto simp: create_new_sc_quota_def reg_look_def [abs_def])
  have wf1: "ec_wf e1" unfolding e1 by (rule ec_wf_create [OF assms(1)])
  have "dom (sc_heap e) \<subseteq> {..< p}" using assms(1) p by (simp add: ec_wf_def)
  then have "sc_heap e p = None" by (auto simp: subset_iff domIff)
  then have "p \<notin> set (reg_look e k)" for k using ec_wf_look(3) [OF assms(1), of p k] by auto
  then have ok: "reg_ok (cg, Ip4 ip) p e1" using heap key look by (auto simp: reg_ok_def)
  have e2: "ret = ALLOC_INIT" "e2 = reg_push (cg, Ip4 ip) p e1"
    using insert_sc_eq(1) [OF heap] assms(3) key by simp_all
  show ?thesis
    unfolding e2 using registry.invar_push [OF wf1 ok] registry.look_push [OF wf1 ok] look heap
    by (simp add: links_frame reg_push_frame e1)
qed

lemma inv_link:
  assumes "ctl_inv s" and "sc_heap (ec s) p = Some sc" and "agent_db s = Some db"
    and "get_agent_client_by_ip db (cid_server_ip (c_id sc)) = Some ac"
  shows "ctl_inv (on_sc p (set_sc_inserted True) (on_ec (add_to_sc_ac_map (c_id sc) ac) s))"
proof -
  have "get_agent_ip ac = cid_server_ip (c_id sc)"
    using assms(1,3,4) get_agent_client_ip by (auto simp: ctl_inv_def)
  then have "links_ok (add_to_sc_ac_map (c_id sc) ac (ec s))"
    using assms(1) links_add [of "c_id sc" ac "ec s"] by (auto simp: ctl_inv_def links_ok_def cid_key_def)
  moreover have "ec_wf (sc_upd p (set_sc_inserted True) (add_to_sc_ac_map (c_id sc) ac (ec s)))"
    using assms(1) by (intro ec_wf_sc_upd ec_wf_add_to_sc_ac_map) (auto simp: ctl_inv_def state_defs)
  ultimately show ?thesis using assms(1,3) by (simp add: ctl_inv_def on_ec_def links_ok_def links_frame)
qed

text \<open>The handler step by step: \<open>s2\<close> has the container registered, \<open>s3\<close> has it linked if an agent is known.\<close>

definition connect_link :: "sc_ptr \<Rightarrow> SubContainer \<Rightarrow> 'a ECAPI_scheme \<Rightarrow> 'a ECAPI_scheme" where
  "connect_link p sc s =
     (case get_agent_client_by_ip (get_agent_client_db_instance (agent_db s)) (cid_server_ip (c_id sc)) of
        Some ac \<Rightarrow> on_sc p (set_sc_inserted True) (on_ec (add_to_sc_ac_map (c_id sc) ac) s) | None \<Rightarrow> s)"

lemma add_cgroup_eq:
  fixes s :: "'a Manager_scheme"
  assumes "determine_quota_for_new_pod (rsrc_amnt rq) s = (fl, q, s1)"
    and "create_new_sc_quota now (msg_t.cgroup_id rq) ip f q (request rq) (ec s1) = (p, e1)"
    and "insert_sc p e1 = Inr (ret, e2)" and "sc_heap e2 p = Some sc"
  shows "handle_add_cgroup_to_ec env now (Some rq) (Some rs) ip f s =
     (let s2 = s1\<lparr>ec := update_fair_cpu_share e2, agent_db := Some (get_agent_client_db_instance (agent_db s1))\<rparr>;
          s3 = connect_link p sc s2
      in bind_r (if fl \<noteq> 0 then set_sc_quota_syscall env (Some p) q 13 s3 else Inr (0, s3)) (\<lambda>(sys_ret, s4).
           Inr (ret, Some (rs\<lparr>request := request rs + 1\<rparr>), s4\<lparr>mem_limit_jobs := mem_limit_jobs s4 @ [(p, f)]\<rparr>)))"
  using assms
  by (simp add: handle_add_cgroup_to_ec_def connect_link_def get_agent_client_db_instance_def sc_deref_def
      update_fair_cpu_share_def Let_def)

text \<open>What the first half has done, whatever the rest does.\<close>

lemma add_cgroup_registers:
  fixes s :: "'a Manager_scheme"
  assumes inv: "ctl_inv s" and s1: "determine_quota_for_new_pod req s = (fl, q, s1)"
  obtains p e1 e2 where "p = sc_next (ec s)" "create_new_sc_quota now cg ip f q t (ec s1) = (p, e1)"
    "insert_sc p e1 = Inr (ALLOC_INIT, e2)" "sc_heap e2 p = Some (SubContainer_new_quota now cg ip f q t)"
    "reg_look e2 = (reg_look (ec s))((cg, Ip4 ip) := reg_look (ec s) (cg, Ip4 ip) @ [p])"
    "ec_cpu e2 = ec_cpu (ec s1)"
    "ctl_inv (s1\<lparr>ec := update_fair_cpu_share e2, agent_db := Some (get_agent_client_db_instance (agent_db s1))\<rparr>)"
proof -
  obtain p e1 where e1: "create_new_sc_quota now cg ip f q t (ec s1) = (p, e1)" by fastforce
  from determine_quota_frame [OF s1] obtain c where c: "s1 = s\<lparr>ec := (ec s)\<lparr>ec_cpu := c\<rparr>\<rparr>" by blast
  with inv have wf1: "ec_wf (ec s1)" by (simp add: ctl_inv_def)
  have p: "p = sc_next (ec s)" "sc_heap e1 p = Some (SubContainer_new_quota now cg ip f q t)" "ec_cpu e1 = ec_cpu (ec s1)"
    using e1 c by (auto simp: create_new_sc_quota_def)
  have look: "reg_look (ec s1) = reg_look (ec s)" by (simp add: c reg_look_def [abs_def])
  note ins = insert_sc_eq(1) [OF p(2)]
  note all = create_insert [OF wf1 e1 ins]
  let ?db = "get_agent_client_db_instance (agent_db s1)" and ?e2 = "reg_push (cid_key (c_id (SubContainer_new_quota now cg ip f q t))) p e1"
  have "db_wf ?db" using inv c by (auto simp: ctl_inv_def get_agent_client_db_instance_def split: option.splits)
  moreover have "links_ok ?e2" using inv all c by (simp add: ctl_inv_def links_ok_def links_frame)
  ultimately have "ctl_inv (s1\<lparr>ec := update_fair_cpu_share ?e2, agent_db := Some ?db\<rparr>)"
    using all by (simp add: ctl_inv_def links_ok_def links_frame)
  then show thesis
    using that [OF p(1) e1 ins] all look p(3) by (simp add: reg_push_frame)
qed

lemma connect_link_inv:
  assumes "ctl_inv s" and "sc_heap (ec s) p = Some sc" and "agent_db s = Some db"
  shows "ctl_inv (connect_link p sc s)"
  using assms inv_link [OF assms]
  by (auto simp: connect_link_def get_agent_client_db_instance_def split: option.splits)

lemma add_cgroup_inv:
  fixes s :: "'a Manager_scheme"
  assumes run: "handle_add_cgroup_to_ec env now (Some rq) (Some rs) ip f s = Inr (ret, res, s')" and inv: "ctl_inv s"
  shows "ctl_inv s'"
proof -
  obtain fl q and s1 :: "'a Manager_scheme" where s1: "determine_quota_for_new_pod (rsrc_amnt rq) s = (fl, q, s1)"
    by (metis prod_cases3)
  from add_cgroup_registers [OF inv s1, of now "msg_t.cgroup_id rq" ip f "request rq"]
  obtain p e1 e2 where e: "create_new_sc_quota now (msg_t.cgroup_id rq) ip f q (request rq) (ec s1) = (p, e1)"
    "insert_sc p e1 = Inr (ALLOC_INIT, e2)" "sc_heap e2 p = Some (SubContainer_new_quota now (msg_t.cgroup_id rq) ip f q (request rq))"
    "ctl_inv (s1\<lparr>ec := update_fair_cpu_share e2, agent_db := Some (get_agent_client_db_instance (agent_db s1))\<rparr>)" by metis
  let ?sc = "SubContainer_new_quota now (msg_t.cgroup_id rq) ip f q (request rq)"
  define s3 where "s3 = connect_link p ?sc
    (s1\<lparr>ec := update_fair_cpu_share e2, agent_db := Some (get_agent_client_db_instance (agent_db s1))\<rparr>)"
  have inv3: "ctl_inv s3" unfolding s3_def
    by (rule connect_link_inv [OF e(4)]) (use e(3) in \<open>simp_all add: update_fair_cpu_share_def\<close>)
  from run obtain x s4 where s4: "(if fl \<noteq> 0 then set_sc_quota_syscall env (Some p) q 13 s3 else Inr (0, s3)) = Inr (x, s4)"
    "s' = s4\<lparr>mem_limit_jobs := mem_limit_jobs s4 @ [(p, f)]\<rparr>"
    unfolding add_cgroup_eq [OF s1 e(1-3)] Let_def s3_def by (auto simp: bind_r_eq_Inr)
  then have "calm s3 s4" by (auto split: if_splits dest: quota_syscall_calm)
  from inv_calm [OF this inv3] show ?thesis using s4(2) by (simp add: ctl_inv_def)
qed

lemma handle_req_inv:
  assumes "handle_req env now req res ip f s = Inr (ret, res', s')" and "ctl_inv s"
  shows "ctl_inv s'"
  using assms
  by (auto simp: handle_req_def split: option.splits if_splits
      dest: handle_mem_req_calm cpu_report_calm add_cgroup_inv intro: inv_calm)

subsection \<open>The deployer's calls\<close>

lemma report_app_calm: "ReportAppSpec a r s = (st, r', s') \<Longrightarrow> calm s s'"
  by (auto simp: ReportAppSpec_def Let_def calm_def ec_set_unalloc_memory_in_pages_def api_defs
      split: option.splits prod.splits)

lemma insert_pod_calm: "insertPodSpec inet pod s = Inr (r, s') \<Longrightarrow> calm s s'"
  by (auto simp: insertPodSpec_def bind_r_eq_Inr Let_def calm_def split: option.splits)

lemma matcher_calm: "scIdToDockerIdMatcherThread k d s = Inr s' \<Longrightarrow> calm s s'"
  by (auto simp: scIdToDockerIdMatcherThread_def bind_r_eq_Inr split: if_splits intro!: calm_on_sc simp: state_defs cid_key_def)

lemma report_pod_calm: "ReportPodSpec inet pod r s = Inr (st, r', s') \<Longrightarrow> calm s s'"
  by (auto simp: ReportPodSpec_def bind_r_eq_Inr Let_def split: if_splits
      dest!: insert_pod_calm matcher_calm intro: calm_trans)

lemma links_erase: "links (e\<lparr>sc_ac_map := um_erase cid_key k (sc_ac_map e)\<rparr>) \<subseteq> links e"
  by (auto simp: links_def um_erase_def)

text \<open>What \<open>DeletePod\<close> does when it gets as far as the registry.\<close>

lemma delete_pod_Inr:
  fixes s :: "'a Controller_scheme"
  assumes run: "DeletePod d r s = Inr (st, r', s')" and wf: "ec_wf (ec s)"
  obtains (unknown) "cid_cgroup_id (getScIdFromDockerId s d) = 0" "st = Status_CANCELLED"
      "r' = setDeletePodReply d r fail" "s' = s"
  | (found) k r1 r3 r4 front and s1 s2 s3 s4 :: "'a Controller_scheme" where
      "k = getScIdFromDockerId s d" "cid_cgroup_id k \<noteq> 0" "get_subcontainer_front (ec s) k = Inr front"
      "deleteFromScAcMap k s = (r1, s1)" "find_queue (ec s) k \<noteq> None"
      "s2 = s1\<lparr>ec := reg_pop (cid_key k) (ec s1)\<rparr>" "deleteFromDeployedPodsMap k s2 = (r3, s3)"
      "deleteFromDockerIdScMap d s3 = (r4, s4)" "st = Status_OK"
      "r' = setDeletePodReply d r (if r1 \<noteq> 0 \<or> r3 \<noteq> 0 \<or> r4 \<noteq> 0 then fail else success)"
      "s' = on_ec (\<lambda>e. on_mem (mem_decr_allocated (get_mem_limit_in_pages front) \<circ> mem_incr_unallocated (get_mem_limit_in_pages front))
              (on_cpu (cpu_incr_unallocated_rt (get_quota front) \<circ> cpu_decr_alloc_rt (get_quota front))
                (update_fair_cpu_share e))) s4"
proof -
  define k where "k = getScIdFromDockerId s d"
  obtain r1 s1 where s1: "deleteFromScAcMap k s = (r1, s1)" by fastforce
  then have e1: "ec_wf (ec s1)" "find_queue (ec s1) k = find_queue (ec s) k"
    using wf by (auto simp: deleteFromScAcMap_def on_ec_def ec_wf_sc_ac um_wf_erase ec_wf_um_ac split: if_splits)
  define s2 where "s2 = s1\<lparr>ec := reg_pop (cid_key k) (ec s1)\<rparr>"
  obtain r3 s3 where s3: "deleteFromDeployedPodsMap k s2 = (r3, s3)" by fastforce
  obtain r4 s4 where s4: "deleteFromDockerIdScMap d s3 = (r4, s4)" by fastforce
  have front: "find_queue (ec s) k \<noteq> None" if "get_subcontainer_front (ec s) k = Inr front" for front
    using that by (auto simp: get_subcontainer_front_def split: option.splits)
  show thesis
  proof (cases "cid_cgroup_id k = 0")
    case True
    show thesis by (rule unknown) (use run True in \<open>auto simp: DeletePod_def k_def Let_def\<close>)
  next
    case False
    with run obtain front where f: "get_subcontainer_front (ec s) k = Inr front"
      by (auto simp: DeletePod_def k_def Let_def bind_r_eq_Inr)
    show thesis
      by (rule found [OF k_def False f s1 front [OF f] s2_def s3 s4])
        (use run False f s1 e1 s3 s4 front [OF f] in \<open>auto simp: DeletePod_def k_def [symmetric] Let_def bind_r_eq_Inr
          deleteFromSubcontainersMap_def delete_eq(1) s2_def [symmetric] api_defs split: if_splits\<close>)
  qed
qed

lemma delete_maps_frame:
  "deleteFromDeployedPodsMap k s = (r, s') \<Longrightarrow> calm s s' \<and> ec s' = ec s"
  "deleteFromDockerIdScMap d s = (r, s') \<Longrightarrow> calm s s' \<and> ec s' = ec s"
  by (auto simp: deleteFromDeployedPodsMap_def deleteFromDockerIdScMap_def calm_def split: if_splits)

lemma delete_pod_inv:
  assumes run: "DeletePod d r s = Inr (st, r', s')" and inv: "ctl_inv s"
  shows "ctl_inv s'"
proof -
  have "ec_wf (ec s)" using inv by (simp add: ctl_inv_def)
  with run show ?thesis
  proof (cases rule: delete_pod_Inr)
    case (found k r1 r3 r4 front s1 s2 s3 s4)
    have "ctl_inv s1"
      using inv found(4) links_ok_mono [OF links_erase, of "ec s" k]
      by (auto simp: deleteFromScAcMap_def ctl_inv_def on_ec_def ec_wf_sc_ac um_wf_erase ec_wf_um_ac split: if_splits)
    then have "ctl_inv s2"
      using registry.invar_pop [of "ec s1"] by (simp add: found(6) ctl_inv_def links_ok_def links_frame)
    moreover have "calm s2 s4" using delete_maps_frame found(7,8) calm_trans by metis
    moreover have "calm s4 s'" unfolding found(11) by (rule calm_on_ec) simp
    ultimately show ?thesis using inv_calm calm_trans by metis
  qed (use inv in simp)
qed

section \<open>The transition system\<close>

text \<open>
  One call that returns. \<open>env\<close> answers every call of the controller to its surroundings as a function
  of what was sent before, so one environment covers agents that fail and recover. A job of
  \<open>determine_mem_limit_for_new_pod\<close> is taken from those that connecting has started; the match of a
  docker id is taken from the pods that the deployer reported.
\<close>

inductive ctl_step :: "'v agent_env \<Rightarrow> (string \<Rightarrow> u32) \<Rightarrow> Controller \<Rightarrow> Controller \<Rightarrow> bool"
  for env :: "'v agent_env" and inet :: "string \<Rightarrow> u32" where
  request: "handle_req env now (Some rq) (Some rs) ip f s = Inr (ret, res, s') \<Longrightarrow> ctl_step env inet s s'"
| idle_round: "check_for_idle_containers env now seq s = Inr (seq', s') \<Longrightarrow> ctl_step env inet s s'"
| reclaim_round: "run_round env s = Inr s' \<Longrightarrow> ctl_step env inet s s'"
| mem_job: "(p, f) \<in> set (mem_limit_jobs s) \<Longrightarrow> determine_mem_limit_for_new_pod env (Some p) f s = Inr s' \<Longrightarrow>
    ctl_step env inet s (s'\<lparr>mem_limit_jobs := remove1 (p, f) (mem_limit_jobs s')\<rparr>)"
| app_spec: "ReportAppSpec (Some a) (Some r) s = (st, r', s') \<Longrightarrow> ctl_step env inet s s'"
| pod_spec: "insertPodSpec inet pod s = Inr (ret, s') \<Longrightarrow> ctl_step env inet s s'"
| pod_match: "um_find id (dockerToSubContainer s) d = Some k \<Longrightarrow> scIdToDockerIdMatcherThread k d s = Inr s' \<Longrightarrow>
    ctl_step env inet s s'"
| pod_delete: "DeletePod d r s = Inr (st, r', s') \<Longrightarrow> ctl_step env inet s s'"

inductive_cases ctl_stepE: "ctl_step env inet s s'"

text \<open>The controller that \<open>run\<close> starts, with the agents that \<open>init_agent_connections\<close> has registered.\<close>

definition ctl_initial :: "GCM \<Rightarrow> Controller \<Rightarrow> bool" where
  "ctl_initial g s \<longleftrightarrow> (\<exists>m. gcm_run g = Inr m \<and> s = (fst m)\<lparr>agent_db := snd (init_agent_connections g None)\<rparr>)"

inductive ctl_reach :: "'v agent_env \<Rightarrow> (string \<Rightarrow> u32) \<Rightarrow> GCM \<Rightarrow> Controller \<Rightarrow> bool"
  for env :: "'v agent_env" and inet :: "string \<Rightarrow> u32" and g :: GCM where
  start: "ctl_initial g s \<Longrightarrow> ctl_reach env inet g s"
| step: "ctl_reach env inet g s \<Longrightarrow> ctl_step env inet s s' \<Longrightarrow> ctl_reach env inet g s'"

lemma db_wf_add_clients: "db_wf db \<Longrightarrow> db_wf (add_clients p as db)"
  by (induction p as db rule: add_clients.induct) (auto intro: db_wf_add)

lemma links_new [simp]: "links (ElasticContainer_new i) = {}"
  by (simp add: links_def ElasticContainer_new_def)

lemma initial_inv: "ctl_initial g s \<Longrightarrow> ctl_inv s"
  using ec_wf_new
  by (auto simp: ctl_initial_def gcm_run_def manager_start_def bind_r_eq_Inr create_ec_def ctl_inv_def
      init_agent_connections_def Let_def get_agent_client_db_instance_def db_wf_add_clients links_ok_def links_new
      split: option.splits)

lemma step_inv:
  assumes "ctl_step env inet s s'" and "ctl_inv s"
  shows "ctl_inv s'"
  using assms(1)
proof (cases rule: ctl_step.cases)
  case request
  then show ?thesis using assms(2) by (rule handle_req_inv)
next
  case idle_round
  then show ?thesis
    using assms(2) inv_calm idle_pass_calm unfolding check_for_idle_containers_def by metis
next
  case (mem_job p f s1)
  have "ctl_inv s1" using inv_calm [OF mem_job_calm [OF mem_job(3)] assms(2)] .
  then show ?thesis using mem_job(1) by (simp add: ctl_inv_def)
next
  case pod_delete
  then show ?thesis using assms(2) by (rule delete_pod_inv)
qed (use assms(2) inv_calm run_round_calm report_app_calm insert_pod_calm matcher_calm in metis)+

lemma reach_inv: "ctl_reach env inet g s \<Longrightarrow> ctl_inv s"
  by (induction rule: ctl_reach.induct) (auto intro: initial_inv step_inv)

end
