(* ===== verification/Mem_Properties.thy ===== *)
theory Mem_Properties
  imports Controller_Steps Samples
begin

text \<open>
  What the memory side of the controller guarantees: page arithmetic, the effect of reclaiming on
  one container, what a memory request gets and how the pool is charged for it.
\<close>

section \<open>Pages\<close>

lemma unat_div_page: "unat ((x :: u64) div 4096) = unat x div 4096"
  by (simp add: unat_div)

lemma pages_small: "unat ((x :: u64) div 4096) \<le> 2 ^ 53"
  using unat_u64_less [of x] unfolding unat_div_page by simp

lemma byte_to_page_Fin: "byte_to_page x = Fin (of_nat (unat x div 4096))"
  using d_of_u64_exact [OF pages_small, of x]
  by (simp add: byte_to_page_def rat_of_word_nat unat_div_page del: of_nat_div)

lemma d_to_u64_nat: "n < 2 ^ 64 \<Longrightarrow> d_to_u64 (Fin (of_nat n)) = Inr (of_nat n)"
proof -
  assume n: "n < 2 ^ 64"
  then have "(of_nat n :: rat) < 2 ^ 64" by (metis of_nat_less_iff of_nat_numeral of_nat_power)
  then show ?thesis using d_to_u64_Fin(1) [of "of_nat n"] by simp
qed

lemma byte_to_page_u64: "d_to_u64 (byte_to_page x) = Inr (x div 4096)"
proof -
  have "unat x div 4096 < 2 ^ 64" using unat_u64_less [of x] by simp
  moreover have "(of_nat (unat x div 4096) :: u64) = x div 4096"
    unfolding unat_div_page [symmetric] by simp
  ultimately show ?thesis unfolding byte_to_page_Fin using d_to_u64_nat by simp
qed

section \<open>Reclaiming from one container\<close>

text \<open>Asking agents and cAdvisor writes the log, and at most adds empty entries to the map of links.\<close>

definition asks :: "'a ECAPI_scheme \<Rightarrow> 'a ECAPI_scheme \<Rightarrow> bool" where
  "asks s s' \<longleftrightarrow> subcontainers (ec s') = subcontainers (ec s) \<and> sc_heap (ec s') = sc_heap (ec s) \<and>
     ec_cpu (ec s') = ec_cpu (ec s) \<and> ec_mem (ec s') = ec_mem (ec s) \<and> fair_cpu_share (ec s') = fair_cpu_share (ec s)"

lemma asks_trans: "asks s s' \<Longrightarrow> asks s' s'' \<Longrightarrow> asks s s''"
  by (simp add: asks_def)

lemma asks_corres: "get_corres_agent_client k (ec s) = (ac, e) \<Longrightarrow> asks s (s\<lparr>ec := e, rpc_log := l\<rparr>)"
  "get_corres_agent_client k (ec s) = (ac, e) \<Longrightarrow> asks s (s\<lparr>ec := e\<rparr>)"
  by (auto simp: asks_def get_corres_agent_client_def split: prod.splits)

lemma usage_asks: "sc_get_memory_usage_in_bytes_cadvisor env k d s = Inr (u, s') \<Longrightarrow> asks s s'"
  by (auto simp: sc_get_memory_usage_in_bytes_cadvisor_def get_sc_memory_usage_in_bytes_def bind_r_eq_Inr Let_def
      intro: asks_corres split: prod.splits option.splits if_splits)

lemma resize_asks:
  assumes "sc_resize_memory_limit_in_pages env k n s = Inr (r, s')"
  shows "asks s s'"
  using assms
  by (auto simp: sc_resize_memory_limit_in_pages_def bind_r_eq_Inr resizeMemoryLimitPages_def Let_def
      intro: asks_corres split: prod.splits option.splits if_splits)

lemma reclaim_eq:
  assumes "sc_heap (ec s) p = Some sc"
  shows "reclaim env k p s =
     bind_r (sc_get_memory_usage_in_bytes_cadvisor env k (cid_docker_id (c_id sc)) s) (\<lambda>(u, s).
       if u = - 1 * 4096 then Inr (0, s)
       else if SAFE_MARGIN_BYTES < get_mem_limit_in_pages sc * 4096 - u then
         bind_r (sc_resize_memory_limit_in_pages env k ((u + SAFE_MARGIN_BYTES) div 4096) s) (\<lambda>(r, s).
           if r = 0 then bind_r (sc_set_memory_limit_in_pages (c_id sc) ((u + SAFE_MARGIN_BYTES) div 4096) s) (\<lambda>s.
             Inr ((get_mem_limit_in_pages sc * 4096 - (u + SAFE_MARGIN_BYTES)) div 4096, s))
           else Inr (0, s))
       else Inr (0, s))"
  unfolding reclaim_def page_to_byte_def byte_to_page_u64 Let_def bind_r_simps by (simp add: assms sc_deref_def)

text \<open>The two outcomes: nothing happens to any container, or the newest container of the key gets the target.\<close>

lemma reclaim_cases:
  assumes run: "reclaim env k p s = Inr (r, s')" and sc: "sc_heap (ec s) p = Some sc"
  obtains (none) "r = 0" "asks s s'"
  | (resized) u s1 s2 p' where
      "sc_get_memory_usage_in_bytes_cadvisor env k (cid_docker_id (c_id sc)) s = Inr (u, s1)"
      "SAFE_MARGIN_BYTES < get_mem_limit_in_pages sc * 4096 - u"
      "r = (get_mem_limit_in_pages sc * 4096 - (u + SAFE_MARGIN_BYTES)) div 4096"
      "asks s s2" "get_sc_for_update_back (ec s) (c_id sc) = Inr p'"
      "s' = on_sc p' (set_mem_limit_in_pages ((u + SAFE_MARGIN_BYTES) div 4096)) s2"
proof -
  from run obtain u s1 where u: "sc_get_memory_usage_in_bytes_cadvisor env k (cid_docker_id (c_id sc)) s = Inr (u, s1)"
    unfolding reclaim_eq [OF sc] by (auto simp: bind_r_eq_Inr)
  note a1 = usage_asks [OF u]
  show thesis
  proof (cases "r = 0 \<and> asks s s'")
    case False
    from run u have "(if u = - 1 * 4096 then Inr (0, s1)
       else if SAFE_MARGIN_BYTES < get_mem_limit_in_pages sc * 4096 - u then
         bind_r (sc_resize_memory_limit_in_pages env k ((u + SAFE_MARGIN_BYTES) div 4096) s1) (\<lambda>(r, s).
           if r = 0 then bind_r (sc_set_memory_limit_in_pages (c_id sc) ((u + SAFE_MARGIN_BYTES) div 4096) s) (\<lambda>s.
             Inr ((get_mem_limit_in_pages sc * 4096 - (u + SAFE_MARGIN_BYTES)) div 4096, s))
           else Inr (0, s))
       else Inr (0, s1)) = Inr (r, s')" unfolding reclaim_eq [OF sc] by simp
    with False a1 obtain s2 where "SAFE_MARGIN_BYTES < get_mem_limit_in_pages sc * 4096 - u"
      and s2: "sc_resize_memory_limit_in_pages env k ((u + SAFE_MARGIN_BYTES) div 4096) s1 = Inr (0, s2)"
      and r: "r = (get_mem_limit_in_pages sc * 4096 - (u + SAFE_MARGIN_BYTES)) div 4096"
      and s': "sc_set_memory_limit_in_pages (c_id sc) ((u + SAFE_MARGIN_BYTES) div 4096) s2 = Inr s'"
      by (auto simp: bind_r_eq_Inr split: if_splits dest: resize_asks intro: asks_trans)
    moreover have "asks s s2" using a1 resize_asks [OF s2] by (rule asks_trans)
    moreover have "get_sc_for_update_back (ec s2) (c_id sc) = get_sc_for_update_back (ec s) (c_id sc)"
      using \<open>asks s s2\<close> by (simp add: asks_def get_sc_for_update_back_def)
    ultimately show thesis
      using resized [OF u] s' by (auto simp: sc_set_memory_limit_in_pages_def ec_get_sc_for_update_def bind_r_eq_Inr)
  qed (use none in blast)
qed

lemma reclaim_pools:
  assumes "reclaim env k p s = Inr (r, s')" and "sc_heap (ec s) p = Some sc"
  shows "ec_mem (ec s') = ec_mem (ec s)" and "ec_cpu (ec s') = ec_cpu (ec s)"
    and "subcontainers (ec s') = subcontainers (ec s)"
  using assms by (rule reclaim_cases; simp add: asks_def api_defs)+

lemma reclaim_Inr_live: "reclaim env k p s = Inr r \<Longrightarrow> \<exists>sc. sc_heap (ec s) p = Some sc"
  by (auto simp: reclaim_def bind_r_eq_Inr sc_deref_def split: option.splits)

lemma reclaim_others_pools: "reclaim_others env f m n s = Inr (r, s') \<Longrightarrow> ec_mem (ec s') = ec_mem (ec s)"
proof (induction m arbitrary: f n s)
  case (Cons x m)
  obtain k q where x: "x = (k, q)" by fastforce
  have "reclaim env k p s = Inr (a, b) \<Longrightarrow> ec_mem (ec b) = ec_mem (ec s)" for p a b
    using reclaim_pools(1) reclaim_Inr_live by blast
  with Cons.prems show ?case by (auto simp: x bind_r_eq_Inr split: if_splits dest!: Cons.IH)
qed simp

lemmas reclaim_memory_pools = reclaim_others_pools [where m = "subcontainers (ec s)" and n = 0 and s = s for s,
  folded handle_reclaim_memory_def]

lemma pages_between:
  assumes "(U :: nat) + M * 4096 < L * 4096"
  shows "(L * 4096 - (U + M * 4096)) div 4096 = L - (U div 4096 + M) - (if 4096 dvd U then 0 else 1)"
proof -
  define q m where "q = U div 4096" and "m = U mod 4096"
  have U: "U = q * 4096 + m" "m < 4096" by (simp_all add: q_def m_def)
  have "q + M < L" using assms unfolding U(1) by linarith
  then obtain J where L: "L = q + M + Suc J" by (metis add_Suc_right less_iff_Suc_add)
  have dvd: "4096 dvd U \<longleftrightarrow> m = 0" by (auto simp: m_def)
  have e: "L * 4096 - (U + M * 4096) = Suc J * 4096 - m" unfolding U(1) L by (simp add: algebra_simps)
  show ?thesis
  proof (cases "m = 0")
    case False
    then have "Suc J * 4096 - m = (4096 - m) + J * 4096" using U(2) by simp
    moreover have "(4096 - m) div 4096 = 0" using False by simp
    ultimately have "(Suc J * 4096 - m) div 4096 = J" using div_mult_self1 [of 4096 "4096 - m" J] by simp
    then show ?thesis unfolding e dvd q_def [symmetric] using False L by simp
  qed (use e dvd L q_def in simp)
qed

text \<open>The target of a reclaim and what it reports, for a limit and a usage within it.\<close>

lemma reclaimed_pages:
  fixes lim u :: u64
  assumes small: "unat lim < 2 ^ 52" "unat u \<le> unat lim * 4096" and m: "SAFE_MARGIN_BYTES < lim * 4096 - u"
  shows "unat ((u + SAFE_MARGIN_BYTES) div 4096) = unat u div 4096 + 12800"
    and "unat u div 4096 + 12800 < unat lim"
    and "unat ((lim * 4096 - (u + SAFE_MARGIN_BYTES)) div 4096) =
      unat lim - (unat u div 4096 + 12800) - (if 4096 dvd unat u then 0 else 1)"
proof -
  have lim: "unat (lim * 4096) = unat lim * 4096" using small(1) by (simp add: unat_mult_lem [THEN iffD1])
  then have "unat (lim * 4096 - u) = unat lim * 4096 - unat u" using small(2) by (simp add: unat_minus_no_borrow)
  then have m': "52428800 < unat lim * 4096 - unat u" using m by (simp add: word_less_nat_alt SAFE_MARGIN_BYTES_def)
  then have "unat u + 52428800 < 2 ^ 64" using small(1) by simp
  then have t: "unat (u + SAFE_MARGIN_BYTES) = unat u + 52428800"
    by (subst unat_plus_no_overflow) (simp_all add: SAFE_MARGIN_BYTES_def)
  then show "unat ((u + SAFE_MARGIN_BYTES) div 4096) = unat u div 4096 + 12800" by (simp add: unat_div_page)
  show "unat u div 4096 + 12800 < unat lim" using m' by linarith
  have "unat (lim * 4096 - (u + SAFE_MARGIN_BYTES)) = unat lim * 4096 - (unat u + 52428800)"
    using t lim m' by (subst unat_minus_no_borrow) simp_all
  then show "unat ((lim * 4096 - (u + SAFE_MARGIN_BYTES)) div 4096) =
      unat lim - (unat u div 4096 + 12800) - (if 4096 dvd unat u then 0 else 1)"
    using pages_between [of "unat u" 12800 "unat lim"] m' by (simp add: unat_div_page)
qed

lemma mem_limit_set [simp]: "get_mem_limit_in_pages (set_mem_limit_in_pages n sc) = n"
  by (simp add: state_defs get_mem_limit_in_pages_def)

lemma reclaim_effect:
  assumes run: "reclaim env k p s = Inr (r, s')" and sc: "sc_heap (ec s) p = Some sc"
    and newest: "get_sc_for_update_back (ec s) (c_id sc) = Inr p"
    and use: "sc_get_memory_usage_in_bytes_cadvisor env k (cid_docker_id (c_id sc)) s = Inr (u, s1)"
    and small: "unat (get_mem_limit_in_pages sc) < 2 ^ 52" "unat u \<le> unat (get_mem_limit_in_pages sc) * 4096"
  shows "\<exists>sc'. sc_heap (ec s') p = Some sc' \<and>
    (r = 0 \<and> get_mem_limit_in_pages sc' = get_mem_limit_in_pages sc \<or>
     unat (get_mem_limit_in_pages sc') = unat u div 4096 + 12800 \<and>
     unat (get_mem_limit_in_pages sc') < unat (get_mem_limit_in_pages sc) \<and>
     unat r = unat (get_mem_limit_in_pages sc) - unat (get_mem_limit_in_pages sc') - (if 4096 dvd unat u then 0 else 1))"
  using run sc
proof (cases rule: reclaim_cases)
  case none
  then show ?thesis using sc by (simp add: asks_def)
next
  case (resized u' s1' s2 p')
  have u: "u' = u" "p' = p" using use resized(1,5) newest by simp_all
  have "sc_heap (ec s') p = Some (set_mem_limit_in_pages ((u + SAFE_MARGIN_BYTES) div 4096) sc)"
    using resized(4,6) sc by (simp add: u asks_def api_defs)
  then show ?thesis using reclaimed_pages [OF small] resized(2,3) by (simp add: u)
qed

text \<open>
  C23: reclaiming from a container whose usage is within its limit leaves it its usage, rounded down
  to pages, plus the margin of 12800 pages, and reports as reclaimed what it took away, but for at
  most one page lost to rounding. Otherwise it leaves the limit alone and reports nothing.
\<close>

theorem reclaim_bounds:
  assumes run: "reclaim env k p s = Inr (r, s')" and sc: "sc_heap (ec s) p = Some sc"
    and newest: "get_sc_for_update_back (ec s) (c_id sc) = Inr p"
    and use: "sc_get_memory_usage_in_bytes_cadvisor env k (cid_docker_id (c_id sc)) s = Inr (u, s1)"
    and small: "unat (get_mem_limit_in_pages sc) < 2 ^ 52" "unat u \<le> unat (get_mem_limit_in_pages sc) * 4096"
  shows "\<exists>sc'. sc_heap (ec s') p = Some sc' \<and>
    (r = 0 \<and> get_mem_limit_in_pages sc' = get_mem_limit_in_pages sc \<or>
     unat (get_mem_limit_in_pages sc') = unat u div 4096 + 12800 \<and>
     unat (get_mem_limit_in_pages sc') < unat (get_mem_limit_in_pages sc) \<and>
     unat r = unat (get_mem_limit_in_pages sc) - unat (get_mem_limit_in_pages sc') - (if 4096 dvd unat u then 0 else 1))"
  using assms by (rule reclaim_effect)

text \<open>A container with 20000 pages that uses one page and one byte.\<close>

definition sample_roomy :: Controller where
  "sample_roomy = sample_ctl (sample_ec (sample_docked 0 20000) cpu_g_default (sample_mem 0 20000 20000) 0)"

lemma sample_roomy_reclaim:
  "\<exists>s'. reclaim (sample_cadvisor 4097) sample_cid 0 sample_roomy = Inr (7198, s')"
  by (simp add: sample_roomy_def mem_eval double_eval)

theorem reclaim_bounds_witness:
  "\<exists>s'. reclaim (sample_cadvisor 4097) sample_cid 0 sample_roomy = Inr (7198, s') \<and>
     (\<exists>sc'. sc_heap (ec s') 0 = Some sc' \<and> unat (get_mem_limit_in_pages sc') = 12801)"
proof -
  obtain s' where r: "reclaim (sample_cadvisor 4097) sample_cid 0 sample_roomy = Inr (7198, s')"
    using sample_roomy_reclaim by blast
  have "\<exists>s1. sc_get_memory_usage_in_bytes_cadvisor (sample_cadvisor 4097) sample_cid
      (cid_docker_id (c_id (sample_docked 0 20000))) sample_roomy = Inr (4097, s1)"
    by (simp add: sample_roomy_def mem_eval)
  then obtain s1 where u: "sc_get_memory_usage_in_bytes_cadvisor (sample_cadvisor 4097) sample_cid
      (cid_docker_id (c_id (sample_docked 0 20000))) sample_roomy = Inr (4097, s1)" by blast
  have h: "sc_heap (ec sample_roomy) 0 = Some (sample_docked 0 20000)"
    "get_sc_for_update_back (ec sample_roomy) (c_id (sample_docked 0 20000)) = Inr 0"
    "get_mem_limit_in_pages (sample_docked 0 20000) = 20000"
    by (simp_all add: sample_roomy_def mem_eval)
  from reclaim_bounds [OF r h(1,2) u] r show ?thesis by (auto simp: h(3))
qed

text \<open>
  C24: reclaiming from a container whose usage is above the recorded limit, as it is between the
  match of its docker id and the end of \<open>determine_mem_limit_for_new_pod\<close>, when the recorded limit is
  still 0: the difference wraps, so if the agent accepts the request the limit is raised rather than
  lowered and at least \<open>2^51\<close> pages are reported as reclaimed.
\<close>

theorem reclaim_above_limit:
  assumes run: "reclaim env k p s = Inr (r, s')" and sc: "sc_heap (ec s) p = Some sc"
    and newest: "get_sc_for_update_back (ec s) (c_id sc) = Inr p"
    and use: "sc_get_memory_usage_in_bytes_cadvisor env k (cid_docker_id (c_id sc)) s = Inr (u, s1)"
    and big: "unat (get_mem_limit_in_pages sc) < 2 ^ 52" "unat (get_mem_limit_in_pages sc) * 4096 < unat u" "unat u < 2 ^ 62"
    and some: "r \<noteq> 0"
  shows "2 ^ 51 \<le> unat r \<and> (\<exists>sc'. sc_heap (ec s') p = Some sc' \<and>
     unat (get_mem_limit_in_pages sc') = unat u div 4096 + 12800 \<and> get_mem_limit_in_pages sc < get_mem_limit_in_pages sc')"
  using run sc
proof (cases rule: reclaim_cases)
  case (resized u' s1' s2 p')
  define L where "L = unat (get_mem_limit_in_pages sc)"
  have u: "u' = u" "p' = p" using use resized(1,5) newest by simp_all
  have lim: "unat (get_mem_limit_in_pages sc * 4096) = L * 4096"
    using big(1) by (simp add: L_def unat_mult_lem [THEN iffD1])
  have t: "unat (u + SAFE_MARGIN_BYTES) = unat u + 52428800"
    using big(3) by (subst unat_plus_no_overflow) (simp_all add: SAFE_MARGIN_BYTES_def)
  have t': "unat ((u + SAFE_MARGIN_BYTES) div 4096) = unat u div 4096 + 12800" by (simp add: unat_div_page t)
  have less: "get_mem_limit_in_pages sc * 4096 < u + SAFE_MARGIN_BYTES"
    using big(2) t lim by (simp add: word_less_nat_alt L_def)
  have "unat (u + SAFE_MARGIN_BYTES) < 2 ^ 63" using t big(3) by simp
  then have "2 ^ 63 \<le> unat (get_mem_limit_in_pages sc * 4096 - (u + SAFE_MARGIN_BYTES))"
    using less lim by (simp add: unat_sub_if' word_less_nat_alt not_le)
  then have "2 ^ 51 \<le> unat r" using resized(3) by (simp add: u unat_div_page less_eq_div_iff_mult_less_eq)
  moreover have "sc_heap (ec s') p = Some (set_mem_limit_in_pages ((u + SAFE_MARGIN_BYTES) div 4096) sc)"
    using resized(4,6) sc by (simp add: u asks_def api_defs)
  moreover have "L < unat u div 4096 + 12800" using big(2) unfolding L_def [symmetric] by linarith
  ultimately show ?thesis using t' by (simp add: word_less_nat_alt L_def)
qed (use some in simp)

theorem reclaim_above_limit_witness:
  "\<exists>r s'. reclaim (sample_cadvisor 8192) sample_cid 0
       (sample_ctl (sample_ec (sample_docked 0 0) cpu_g_default (sample_mem 100 0 100) 0)) = Inr (r, s') \<and> 2 ^ 51 \<le> unat r"
proof -
  let ?s = "sample_ctl (sample_ec (sample_docked 0 0) cpu_g_default (sample_mem 100 0 100) 0)"
  obtain r s' where r: "reclaim (sample_cadvisor 8192) sample_cid 0 ?s = Inr (r, s')" "r \<noteq> 0"
    by (simp add: mem_eval double_eval)
  obtain s1 where u: "sc_get_memory_usage_in_bytes_cadvisor (sample_cadvisor 8192) sample_cid
      (cid_docker_id (c_id (sample_docked 0 0))) ?s = Inr (8192, s1)" by (simp add: mem_eval)
  have h: "sc_heap (ec ?s) 0 = Some (sample_docked 0 0)"
    "get_sc_for_update_back (ec ?s) (c_id (sample_docked 0 0)) = Inr 0" "get_mem_limit_in_pages (sample_docked 0 0) = 0"
    by (simp_all add: mem_eval)
  from reclaim_above_limit [OF r(1) h(1,2) u _ _ _ r(2)] h(3) r(1) show ?thesis by auto
qed

section \<open>Memory requests\<close>

abbreviation msg_cid :: "msg_t \<Rightarrow> ContainerId" where
  "msg_cid rq \<equiv> ContainerId_new (msg_t.cgroup_id rq) (client_ip rq)"

text \<open>Handing out \<open>g\<close> pages to a registered container, once \<open>g\<close> is settled.\<close>

definition grant_pages :: "u64 \<Rightarrow> mem_g \<Rightarrow> mem_g" where
  "grant_pages g m = mem_incr_allocated g (mem_decr_unallocated g m)"

lemma mem_req_available:
  assumes wf: "ec_wf (ec s1)" and q: "find_queue (ec s1) (msg_cid rq) = Some q" and ty: "req_type rq = req_MEM"
    and av: "mem_make_available env f s = Inr (Some a, s1)"
  defines "g \<equiv> min a (mem_slice_size (ec_mem (ec s1)))"
  shows "\<exists>s' sc'. handle_mem_req env (Some rq) (Some rs) f s =
       Inr (ALLOC_SUCCESS, Some (rs\<lparr>rsrc_amnt := rsrc_amnt rq + g, request := 0\<rparr>), s') \<and>
     ec_mem (ec s') = grant_pages g (ec_mem (ec s1)) \<and> rpc_log s' = rpc_log s1 \<and>
     get_subcontainer_back (ec s') (msg_cid rq) = Inr sc' \<and> get_mem_limit_in_pages sc' = rsrc_amnt rq + g"
proof -
  let ?s2 = "ec_update_alloc_memory_in_pages g s1"
  obtain sc where sc: "get_sc_for_update_back (ec s1) (msg_cid rq) = Inr (last q)" "sc_heap (ec s1) (last q) = Some sc"
    by (rule get_back_wf [OF wf q])
  have s2: "get_sc_for_update_back (ec ?s2) k = get_sc_for_update_back (ec s1) k" "sc_heap (ec ?s2) = sc_heap (ec s1)"
    "ec_mem (ec ?s2) = grant_pages g (ec_mem (ec s1))" "rpc_log ?s2 = rpc_log s1" for k
    by (simp_all add: api_defs get_sc_for_update_back_def grant_pages_def)
  let ?s' = "on_sc (last q) (set_mem_limit_in_pages (rsrc_amnt rq + g)) ?s2"
  have g: "(if ec_get_memory_slice s1 < a then ec_get_memory_slice s1 else a) = g"
    by (auto simp: g_def ec_get_memory_slice_def min_def)
  have "handle_mem_req env (Some rq) (Some rs) f s =
       Inr (ALLOC_SUCCESS, Some (rs\<lparr>rsrc_amnt := rsrc_amnt rq + g, request := 0\<rparr>), ?s')"
    using sc s2 by (simp add: handle_mem_req_def ty av g Let_def ec_get_sc_for_update_def sc_deref_def)
  moreover have "get_sc_for_update_back (ec ?s') (msg_cid rq) = Inr (last q)"
    using sc(1) s2(1) by (simp add: get_sc_for_update_back_def sc_upd_def on_ec_def)
  then have "get_subcontainer_back (ec ?s') (msg_cid rq) = Inr (set_mem_limit_in_pages (rsrc_amnt rq + g) sc)"
    unfolding get_back_deref using sc(2) s2(2) by (simp add: sc_upd_def on_ec_def)
  moreover have "ec_mem (ec ?s') = grant_pages g (ec_mem (ec s1))" "rpc_log ?s' = rpc_log s1"
    using s2(3,4) by (simp_all add: on_ec_def sc_upd_def)
  moreover have "get_mem_limit_in_pages (set_mem_limit_in_pages n sc) = n" for n
    by (simp add: state_defs get_mem_limit_in_pages_def)
  ultimately show ?thesis
    by (intro exI [of _ ?s'] exI [of _ "set_mem_limit_in_pages (rsrc_amnt rq + g) sc"]) blast
qed

lemma grant_pages_exact:
  assumes "unat g \<le> unat (unallocated_memory_in_pages m)" and "unat (unallocated_memory_in_pages m) < 2 ^ 63"
  shows "unallocated_memory_in_pages (grant_pages g m) = unallocated_memory_in_pages m - g"
    and "allocated_memory_in_pages (grant_pages g m) = allocated_memory_in_pages m + g"
    and "mem_ledger (grant_pages g m) = mem_ledger m"
  using decr_exact [OF assms(2,1)]
  by (simp_all add: grant_pages_def stat_simps mem_unalloc_ctr.get_decr mem_ledger_decr)

lemma sint_pos: "0 < w \<Longrightarrow> unat (w :: u64) < 2 ^ 63 \<Longrightarrow> 0 < sint w"
  by (simp only: unat_less_half_sint word_less_nat_alt of_nat_0_less_iff unat_0)

text \<open>
  C11: while the pool has memory, a request of a registered container returns, and it is granted
  the smaller of a slice and what is left: the reply carries the container's new limit, the
  controller records the same limit, the grant moves from unallocated to allocated, and no
  agent is asked.
\<close>

theorem mem_req_grants:
  assumes "ec_wf (ec s)" and "find_queue (ec s) (ContainerId_new (msg_t.cgroup_id rq) (client_ip rq)) = Some q"
    and "req_type rq = req_MEM"
    and pool: "0 < unallocated_memory_in_pages (ec_mem (ec s))" "unat (unallocated_memory_in_pages (ec_mem (ec s))) < 2 ^ 63"
  shows "\<exists>s' sc' g. g = min (unallocated_memory_in_pages (ec_mem (ec s))) (mem_slice_size (ec_mem (ec s))) \<and>
     handle_mem_req env (Some rq) (Some rs) f s =
       Inr (ALLOC_SUCCESS, Some (rs\<lparr>rsrc_amnt := rsrc_amnt rq + g, request := 0\<rparr>), s') \<and>
     unallocated_memory_in_pages (ec_mem (ec s')) = unallocated_memory_in_pages (ec_mem (ec s)) - g \<and>
     allocated_memory_in_pages (ec_mem (ec s')) = allocated_memory_in_pages (ec_mem (ec s)) + g \<and>
     get_subcontainer_back (ec s') (ContainerId_new (msg_t.cgroup_id rq) (client_ip rq)) = Inr sc' \<and>
     get_mem_limit_in_pages sc' = rsrc_amnt rq + g \<and> rpc_log s' = rpc_log s"
proof -
  let ?u = "unallocated_memory_in_pages (ec_mem (ec s))"
  have "mem_make_available env f s = Inr (Some ?u, s)"
    using sint_pos [OF pool] by (simp add: mem_make_available_def ec_get_unalloc_memory_in_pages_def)
  from mem_req_available [OF assms(1-3) this, of rs]
  obtain s' sc' where "handle_mem_req env (Some rq) (Some rs) f s =
       Inr (ALLOC_SUCCESS, Some (rs\<lparr>rsrc_amnt := rsrc_amnt rq + min ?u (mem_slice_size (ec_mem (ec s))), request := 0\<rparr>), s')"
    "ec_mem (ec s') = grant_pages (min ?u (mem_slice_size (ec_mem (ec s)))) (ec_mem (ec s))" "rpc_log s' = rpc_log s"
    "get_subcontainer_back (ec s') (msg_cid rq) = Inr sc'"
    "get_mem_limit_in_pages sc' = rsrc_amnt rq + min ?u (mem_slice_size (ec_mem (ec s)))" by blast
  moreover have "unat (min ?u (mem_slice_size (ec_mem (ec s)))) \<le> unat ?u" by (simp add: word_le_nat_alt [symmetric])
  ultimately show ?thesis
    using grant_pages_exact [OF _ pool(2), of "min ?u (mem_slice_size (ec_mem (ec s)))"]
    by (intro exI [of _ s'] exI [of _ sc'] exI) simp
qed

text \<open>
  C12: when the pool is empty, a request first reclaims from the other containers. What comes back
  is granted the same way, up to a slice, and the rest goes to the pool; allocated plus
  unallocated memory stays the same. When nothing comes back, the request is refused with an
  amount of zero and the books do not change.
\<close>

theorem mem_req_reclaims:
  assumes inv: "ctl_inv s" and reg: "find_queue (ec s) (ContainerId_new (msg_t.cgroup_id rq) (client_ip rq)) = Some q"
    and ty: "req_type rq = req_MEM" and empty: "unallocated_memory_in_pages (ec_mem (ec s)) = 0"
    and rec: "handle_reclaim_memory env f s = Inr (r, s1)"
    and small: "unat r \<le> unat (allocated_memory_in_pages (ec_mem (ec s)))" "unat (allocated_memory_in_pages (ec_mem (ec s))) < 2 ^ 63"
  shows "\<exists>ret res s'. handle_mem_req env (Some rq) (Some rs) f s = Inr (ret, res, s') \<and>
     mem_ledger (ec_mem (ec s')) = mem_ledger (ec_mem (ec s)) \<and>
     (if r = 0 then ret = ALLOC_MEM_FAILED \<and> res = Some (rs\<lparr>rsrc_amnt := 0\<rparr>) \<and> s' = s1
      else ret = ALLOC_SUCCESS \<and>
        res = Some (rs\<lparr>rsrc_amnt := rsrc_amnt rq + min r (mem_slice_size (ec_mem (ec s))), request := 0\<rparr>) \<and>
        unallocated_memory_in_pages (ec_mem (ec s')) = r - min r (mem_slice_size (ec_mem (ec s))))"
proof (cases "r = 0")
  case True
  then show ?thesis using rec reclaim_memory_pools [OF rec] ty empty
    by (simp add: handle_mem_req_def mem_make_available_def ec_get_unalloc_memory_in_pages_def)
next
  case False
  let ?s2 = "ec_update_reclaim_memory_in_pages r s1"
  let ?m2 = "mem_decr_allocated r (mem_incr_unallocated r (ec_mem (ec s)))"
  let ?g = "min r (mem_slice_size (ec_mem (ec s)))"
  have m2: "ec_mem (ec ?s2) = ?m2" by (simp add: api_defs reclaim_memory_pools [OF rec])
  have u2: "unallocated_memory_in_pages ?m2 = r" "mem_slice_size ?m2 = mem_slice_size (ec_mem (ec s))"
    "mem_ledger ?m2 = mem_ledger (ec_mem (ec s))"
    using decr_exact [OF small(2,1)] by (simp_all add: stat_simps empty mem_ledger_decr)
  have av: "mem_make_available env f s = Inr (Some r, ?s2)"
    using False rec u2(1) by (simp add: mem_make_available_def ec_get_unalloc_memory_in_pages_def empty Let_def m2 word_gt_0)
  have c: "calm s ?s2" using handle_reclaim_calm [OF rec] by simp
  then have wf: "ec_wf (ec ?s2)" using inv_calm [OF _ inv] by (simp add: ctl_inv_def)
  have "find_queue (ec ?s2) (msg_cid rq) = Some q" using c reg by (simp add: calm_def quiet_def)
  from mem_req_available [OF wf this ty av, of rs]
  obtain s' where s': "handle_mem_req env (Some rq) (Some rs) f s =
       Inr (ALLOC_SUCCESS, Some (rs\<lparr>rsrc_amnt := rsrc_amnt rq + ?g, request := 0\<rparr>), s')"
    "ec_mem (ec s') = grant_pages ?g ?m2" unfolding m2 u2(2) by blast
  have "unat ?g \<le> unat (unallocated_memory_in_pages ?m2)" "unat (unallocated_memory_in_pages ?m2) < 2 ^ 63"
    using le_less_trans [OF small] u2(1) by (simp_all add: word_le_nat_alt [symmetric])
  note ex = grant_pages_exact [OF this]
  show ?thesis using False s' ex u2 by simp
qed

lemma sample_ec_wf: "ec_wf (sample_ec (sample_sc q n) c m f)" "ec_wf (sample_ec (sample_docked q n) c m f)"
  by (simp_all add: ec_wf_def um_wf_def sample_eval mem_defs)

lemma sample_ctl_inv: "ec_wf e \<Longrightarrow> sc_ac_map e = [(sample_cid, Some sample_agent)] \<Longrightarrow> ctl_inv (sample_ctl e)"
  by (simp add: ctl_inv_def sample_ctl_def links_ok_def links_def db_wf_def um_wf_def sample_cid_def sample_agent_def
      AgentClient_new_def get_agent_ip_def cid_key_def ContainerId_new_def)

theorem mem_req_grants_witness:
  "\<exists>s' sc'. handle_mem_req (sample_env Http_Exception) (Some (sample_msg 1 100 0 0)) (Some (sample_msg 1 100 0 0)) 9
       (sample_ctl (sample_ec (sample_sc 0 100) cpu_g_default (sample_mem 6000 100 6100) 0)) =
     Inr (ALLOC_SUCCESS, Some ((sample_msg 1 100 0 0)\<lparr>rsrc_amnt := 5100, request := 0\<rparr>), s') \<and>
     unallocated_memory_in_pages (ec_mem (ec s')) = 1000"
  using mem_req_grants [of "sample_ctl (sample_ec (sample_sc 0 100) cpu_g_default (sample_mem 6000 100 6100) 0)"
      "sample_msg 1 100 0 0" "[0]" "sample_env Http_Exception" "sample_msg 1 100 0 0" 9]
  by (auto simp: sample_ctl_def sample_ec_wf) (simp add: mem_eval req_MEM_def)

theorem mem_req_reclaims_witness:
  "\<exists>ret res s'. handle_mem_req (sample_cadvisor 4097) (Some (sample_msg 1 20000 0 0)) (Some (sample_msg 1 20000 0 0)) 5 sample_roomy =
       Inr (ret, res, s') \<and> ret = ALLOC_SUCCESS \<and> unallocated_memory_in_pages (ec_mem (ec s')) = 2198"
proof -
  have "\<exists>s1. handle_reclaim_memory (sample_cadvisor 4097) 5 sample_roomy = Inr (7198, s1)"
    by (simp add: sample_roomy_def mem_eval double_eval)
  then obtain s1 where r: "handle_reclaim_memory (sample_cadvisor 4097) 5 sample_roomy = Inr (7198, s1)" by blast
  have i: "ctl_inv sample_roomy"
    unfolding sample_roomy_def by (rule sample_ctl_inv) (rule sample_ec_wf, simp add: sample_ec_def)
  have h: "find_queue (ec sample_roomy) (msg_cid (sample_msg 1 20000 0 0)) = Some [0]"
    "req_type (sample_msg 1 20000 0 0) = req_MEM" "ec_mem (ec sample_roomy) = sample_mem 0 20000 20000"
    by (simp_all add: sample_roomy_def mem_eval)
  from mem_req_reclaims [OF i h(1,2) _ r, of "sample_msg 1 20000 0 0"] show ?thesis by (auto simp: h(3) sample_mem_def)
qed

end
