(* ===== verification/System_Properties.thy ===== *)
theory System_Properties
  imports Mem_Properties
begin

text \<open>
  Properties of every state the controller can reach: the registry stays well-formed, containers
  are linked to agents of their own node, and the memory side does not run into undefined behaviour, where cAdvisor never answers with an
  empty object and the reclaims of one request do not overlap.
\<close>

section \<open>Computations without undefined behaviour\<close>

definition no_ub :: "'a result \<Rightarrow> bool" where
  "no_ub r \<longleftrightarrow> r \<noteq> Inl Undefined_Behaviour"

lemma no_ub_Inr [simp]: "no_ub (Inr x)"
  by (simp add: no_ub_def)

lemma no_ub_Inl [simp]: "no_ub (Inl e) \<longleftrightarrow> e \<noteq> Undefined_Behaviour"
  by (simp add: no_ub_def)

lemma no_ub_bind [intro]: "no_ub r \<Longrightarrow> (\<And>x. r = Inr x \<Longrightarrow> no_ub (f x)) \<Longrightarrow> no_ub (bind_r r f)"
  by (cases r) (auto simp: no_ub_def)

text \<open>
  The documented behaviour of the JSON library: the null value is null, and an operation that
  fails throws.
\<close>

definition json_documented :: "'v json_lib \<Rightarrow> bool" where
  "json_documented js \<longleftrightarrow> js_is_null js (js_null js) \<and> (\<forall>s. no_ub (js_parse js s)) \<and> (\<forall>v. no_ub (js_as_object js v)) \<and>
     (\<forall>v k. no_ub (js_at js v k)) \<and> (\<forall>v. no_ub (js_as_array js v)) \<and> (\<forall>v. no_ub (js_to_uint64 js v))"

text \<open>
  What \<open>parseCAdvisorResponseStats\<close> relies on and does not test: an answer of cAdvisor with status
  200 is not the empty object, since it names the container it was asked about. On an empty
  object \<open>as_object().cbegin()->second\<close> is undefined.
\<close>

definition cadvisor_names_container :: "'v agent_env \<Rightarrow> bool" where
  "cadvisor_names_container env \<longleftrightarrow> (\<forall>l url body v. http env l url = Http_Response 200 (Some body) \<longrightarrow>
     js_parse (json env) (js_serialize (json env) body) = Inr v \<longrightarrow> js_as_object (json env) v \<noteq> Inr [])"

definition cadvisor_ok :: "'v agent_env \<Rightarrow> bool" where
  "cadvisor_ok env \<longleftrightarrow> json_documented (json env) \<and> cadvisor_names_container env"

lemma getJSON_no_ub: "no_ub (getJSONRequest js h u)"
  by (auto simp: getJSONRequest_def split: http_outcome.splits)

lemma getJSON_body:
  assumes "getJSONRequest js h url = Inr res" and "res \<noteq> []" and "js_is_null js (js_null js)"
  shows "\<exists>body. h url = Http_Response 200 (Some body) \<and> res = js_serialize js body"
  using assms by (auto simp: getJSONRequest_def split: http_outcome.splits option.splits if_splits)

lemma parse_stats_no_ub:
  assumes "json_documented js" and "\<And>v. js_parse js res = Inr v \<Longrightarrow> js_as_object js v \<noteq> Inr []"
  shows "no_ub (parseCAdvisorResponseStats js res a b)"
  using assms unfolding parseCAdvisorResponseStats_def json_documented_def
  by (intro no_ub_bind) (auto simp: js_last_def js_first_member_def intro!: no_ub_bind split: list.splits)

lemma usage_no_ub:
  assumes "cadvisor_ok env"
  shows "no_ub (sc_get_memory_usage_in_bytes_cadvisor env k d s)"
proof -
  have "no_ub (parseCAdvisorResponseStats (json env) res a b)"
    if "getJSONRequest (json env) (http env l) url = Inr res" "res \<noteq> []" for l url res a b
    using getJSON_body [OF that] assms
    by (intro parse_stats_no_ub) (auto simp: cadvisor_ok_def json_documented_def cadvisor_names_container_def)
  then have "no_ub (getContMemUsage (json env) (http env l) ip dk)" for l ip dk
    unfolding getContMemUsage_def cadvisor_query_def by (auto intro!: no_ub_bind getJSON_no_ub)
  then show ?thesis
    by (auto simp: sc_get_memory_usage_in_bytes_cadvisor_def get_sc_memory_usage_in_bytes_def Let_def
        intro!: no_ub_bind split: prod.splits option.splits)
qed

text \<open>Without that the round of the periodic reclaim does run into it.\<close>

lemma empty_answer_ub:
  assumes "http env l (docker_url ip dk) = Http_Response 200 (Some body)" and "\<not> js_is_null (json env) body"
    and "js_serialize (json env) body \<noteq> []" and "js_parse (json env) (js_serialize (json env) body) = Inr v"
    and "js_as_object (json env) v = Inr []"
  shows "getContMemUsage (json env) (http env l) ip dk = Inl Undefined_Behaviour"
  using assms by (simp add: getContMemUsage_def cadvisor_query_def getJSONRequest_def parseCAdvisorResponseStats_def
      js_first_member_def)

lemma resize_no_ub: "no_ub (sc_resize_memory_limit_in_pages env k n s)"
  by (auto simp: sc_resize_memory_limit_in_pages_def resizeMemoryLimitPages_def Let_def intro!: no_ub_bind
      split: prod.splits option.splits)

text \<open>Looking a container up and following the pointer.\<close>

lemma back_no_ub:
  assumes "ec_wf e"
  shows "no_ub (get_sc_for_update_back e k)" and "get_sc_for_update_back e k = Inr p \<Longrightarrow> no_ub (sc_deref e p)"
proof -
  note q = ec_wf_queue [OF assms, of k]
  show "no_ub (get_sc_for_update_back e k)"
    using q(1) by (auto simp: get_sc_for_update_back_def queue_back_def split: option.splits)
  assume "get_sc_for_update_back e k = Inr p"
  then obtain ps where "find_queue e k = Some ps" "p = last ps" "ps \<noteq> []"
    by (auto simp: get_sc_for_update_back_def queue_back_def split: option.splits if_splits)
  with q(3) [of ps p] show "no_ub (sc_deref e p)" by (auto simp: sc_deref_def)
qed

lemma set_limit_no_ub: "ec_wf (ec s) \<Longrightarrow> no_ub (sc_set_memory_limit_in_pages k n s)"
  unfolding sc_set_memory_limit_in_pages_def ec_get_sc_for_update_def
  by (intro no_ub_bind) (auto intro: back_no_ub)

lemma reclaim_no_ub:
  assumes "ctl_inv s" and "cadvisor_ok env" and "sc_heap (ec s) p = Some sc"
  shows "no_ub (reclaim env k p s)"
  unfolding reclaim_eq [OF assms(3)]
proof (rule no_ub_bind [OF usage_no_ub [OF assms(2)]], clarsimp split del: if_split)
  fix u s1 assume "sc_get_memory_usage_in_bytes_cadvisor env k (cid_docker_id (c_id sc)) s = Inr (u, s1)"
  then have "calm s s1" by (rule cadvisor_calm)
  then have "ec_wf (ec s2)" if "sc_resize_memory_limit_in_pages env k n s1 = Inr (r, s2)" for n r s2
    using inv_calm [OF calm_trans [OF _ resize_calm [OF that]] assms(1)] by (simp add: ctl_inv_def)
  then show "no_ub (if u = - 4096 then Inr (0, s1)
       else if SAFE_MARGIN_BYTES < get_mem_limit_in_pages sc * 4096 - u then
         bind_r (sc_resize_memory_limit_in_pages env k ((u + SAFE_MARGIN_BYTES) div 4096) s1) (\<lambda>(r, s).
           if r = 0 then bind_r (sc_set_memory_limit_in_pages (c_id sc) ((u + SAFE_MARGIN_BYTES) div 4096) s) (\<lambda>s.
             Inr ((get_mem_limit_in_pages sc * 4096 - (u + SAFE_MARGIN_BYTES)) div 4096, s))
           else Inr (0, s))
       else Inr (0, s1))"
    by (auto intro!: no_ub_bind resize_no_ub set_limit_no_ub)
qed

text \<open>An entry of the registry leads to a live container, in this and in every later state of a quiet loop.\<close>

lemma entry_live:
  assumes "ctl_inv s" and "(k, q) \<in> set (subcontainers (ec s))"
  shows "queue_back q = Inr (last q)" and "\<exists>sc. sc_heap (ec s) (last q) = Some sc"
proof -
  have "q \<noteq> []" using assms by (fastforce simp: ctl_inv_def ec_wf_def)
  then show "queue_back q = Inr (last q)" by (simp add: queue_back_def)
  from \<open>q \<noteq> []\<close> have "last q \<in> set q" by simp
  then show "\<exists>sc. sc_heap (ec s) (last q) = Some sc" using assms by (fastforce simp: ctl_inv_def ec_wf_def)
qed

lemma reclaim_loops_no_ub:
  assumes "ctl_inv s" and "cadvisor_ok env" and "set m \<subseteq> set (subcontainers (ec s))"
  shows "no_ub (reclaim_others env f m n s)" and "no_ub (reclaim_all env m n s)"
proof -
  have "no_ub (reclaim_others env f m n s) \<and> no_ub (reclaim_all env m n s)"
    using assms
  proof (induction m arbitrary: n s)
    case (Cons x m)
    obtain k q where x: "x = (k, q)" by fastforce
    have e: "(k, q) \<in> set (subcontainers (ec s))" using Cons.prems(3) x by auto
    note live = entry_live [OF Cons.prems(1) e]
    then obtain sc where sc: "sc_heap (ec s) (last q) = Some sc" by blast
    note r = reclaim_no_ub [OF Cons.prems(1,2) sc, of k]
    have IH: "no_ub (reclaim_others env f m n' s') \<and> no_ub (reclaim_all env m n' s')" if "calm s s'" for n' s'
      by (rule Cons.IH [OF inv_calm [OF that Cons.prems(1)] Cons.prems(2)])
        (use that Cons.prems(3) in \<open>auto simp: calm_def quiet_def\<close>)
    show ?case using IH r live(1) sc by (auto simp: x sc_deref_def intro!: no_ub_bind dest: reclaim_calm)
  qed simp
  then show "no_ub (reclaim_others env f m n s)" "no_ub (reclaim_all env m n s)" by simp_all
qed

lemma handle_reclaim_no_ub: "ctl_inv s \<Longrightarrow> cadvisor_ok env \<Longrightarrow> no_ub (handle_reclaim_memory env f s)"
  unfolding handle_reclaim_memory_def by (rule reclaim_loops_no_ub) simp_all

lemma mem_req_no_ub:
  assumes "ctl_inv s" and "cadvisor_ok env"
  shows "no_ub (handle_mem_req env req res f s)"
proof -
  have av: "no_ub (mem_make_available env f s)"
    using assms by (auto simp: mem_make_available_def Let_def intro!: no_ub_bind handle_reclaim_no_ub)
  have "ec_wf (ec (ec_update_alloc_memory_in_pages n s1))" if "mem_make_available env f s = Inr (a, s1)" for a s1 n
    using inv_calm [OF make_available_calm [OF that] assms(1)] by (simp add: ctl_inv_def api_defs)
  then show ?thesis
    unfolding handle_mem_req_def
    by (auto simp: Let_def ec_get_sc_for_update_def intro!: no_ub_bind av back_no_ub split: option.splits)
qed

section \<open>Reachable states\<close>

text \<open>A controller with one agent, on the way from its start to its first container.\<close>

definition sample_server :: Server where
  "sample_server = (Server_new 4 5 1 (Ip4 0) (ports_new 5000 6000) [])\<lparr>server_initialized := 2\<rparr>"

definition sample_gcm :: GCM where
  "sample_gcm = \<lparr>gcm_ip = Ip4 0, gcm_port = 8888, controller_ports = [ports_new 5000 6000], server_ports = [],
     managers = [(1, (sample_ctl (ElasticContainer_new 1), sample_server))], manager_counts = 2,
     gcm_agents = [\<lparr>ag_ip = Ip4 1, ag_port = 4448, ag_sockfd = 0\<rparr>]\<rparr>"

definition sample_started :: Controller where
  "sample_started = (sample_ctl (ElasticContainer_new 1))\<lparr>agent_db := Some [(Ip4 1, AgentClient_new 0 \<lparr>ag_ip = Ip4 1, ag_port = 4448, ag_sockfd = 0\<rparr>)]\<rparr>"

lemma sample_started_initial: "ctl_initial sample_gcm sample_started"
  unfolding ctl_initial_def
  by (rule exI [of _ "(sample_ctl (ElasticContainer_new 1), sample_server)"])
    (simp add: gcm_run_def sample_gcm_def um_find_def manager_start_def serve_guard_def sample_server_def Server_new_def
      create_ec_def sample_ctl_def init_agent_connections_def Let_def get_agent_client_db_instance_def
      add_agent_client_def AgentClient_new_def get_agent_ip_def um_insert_def sample_started_def)

lemma sample_reach:
  "\<exists>s sc ac. ctl_reach env inet sample_gcm s \<and>
     subcontainers (ec s) = [(sample_cid, [0])] \<and> sc_heap (ec s) 0 = Some sc \<and> fd sc = 9 \<and>
     get_corres_agent_client (c_id sc) (ec s) = (Some ac, ec s)"
proof -
  have "\<exists>st r s1. ReportAppSpec (Some \<lparr>as_app_name = [], as_cpu_limit = 1000, as_mem_limit = 100\<rparr>)
      (Some \<lparr>asr_app_name = [], asr_cpu_limit = 0, asr_mem_limit = 0, asr_thanks = []\<rparr>) sample_started = (st, r, s1) \<and>
    (\<exists>ret res s sc ac. handle_req env 0 (Some (sample_msg 2 40000000 0 0)) (Some (sample_msg 2 40000000 0 0)) 1 9 s1
       = Inr (ret, res, s) \<and> subcontainers (ec s) = [(sample_cid, [0])] \<and> sc_heap (ec s) 0 = Some sc \<and> fd sc = 9 \<and>
      get_corres_agent_client (c_id sc) (ec s) = (Some ac, ec s))"
    by (simp add: sample_started_def ReportAppSpec_def handle_req_def req_INIT_def req_MEM_def req_CPU_def cpu_eval
        handle_add_cgroup_to_ec_def ec_set_unalloc_memory_in_pages_def determine_quota_for_new_pod_def
        create_new_sc_quota_def insert_sc_def ElasticContainer_new_def cpu_g_default_def mem_g_default_def
        get_agent_client_db_instance_def get_agent_client_by_ip_def update_fair_cpu_share_def um_insert_def
        add_to_sc_ac_map_def set_total_cpu_def cpu_set_total_cpu_def cpu_set_unallocated_rt_def
        mem_set_memory_limit_def mem_set_unallocated_def mem_set_allocated_def)
  then show ?thesis
    using ctl_reach.start [OF sample_started_initial, of env inet]
    by (blast intro: ctl_reach.step ctl_step.app_spec ctl_step.request)
qed

text \<open>
  C5: in every state that the controller reaches from its start, by any sequence of requests, idle
  checks, reclaim rounds, memory jobs and deployer calls, every registered queue is non-empty and
  without repetition, and each pointer in it leads to a live container whose id is the one it is
  filed under.
\<close>

theorem reachable_registry:
  assumes "ctl_reach env inet g s" and "um_find cid_key (subcontainers (ec s)) k = Some q"
  shows "q \<noteq> [] \<and> distinct q \<and> (\<forall>p \<in> set q. \<exists>sc. sc_heap (ec s) p = Some sc \<and> cid_eq (c_id sc) k)"
proof -
  have "ec_wf (ec s)" using reach_inv [OF assms(1)] by (simp add: ctl_inv_def)
  from ec_wf_queue [OF this assms(2)] show ?thesis by (force simp: cid_eq_def cid_key_def)
qed

theorem reachable_registry_witness:
  "\<exists>s sc. ctl_reach (sample_env Http_Exception) (\<lambda>_. 0) sample_gcm s \<and> sc_heap (ec s) 0 = Some sc \<and> cid_eq (c_id sc) sample_cid"
proof -
  obtain s sc where s: "ctl_reach (sample_env Http_Exception) (\<lambda>_. 0) sample_gcm s"
    "subcontainers (ec s) = [(sample_cid, [0])]" "sc_heap (ec s) 0 = Some sc"
    using sample_reach by blast
  have "um_find cid_key (subcontainers (ec s)) sample_cid = Some [0]" by (simp add: s(2) um_find_def)
  from reachable_registry [OF s(1) this] s show ?thesis by auto
qed

text \<open>
  C9: in every reachable state, a container that is linked to an agent client is linked to a client
  whose agent runs on the container's own node; so a quota request never goes to another node.
\<close>

theorem reachable_links:
  assumes "ctl_reach env inet g s" and "sc_heap (ec s) p = Some sc"
    and "get_corres_agent_client (c_id sc) (ec s) = (Some ac, e)"
  shows "get_agent_ip ac = cid_server_ip (c_id sc)"
proof -
  have "um_find cid_key (sc_ac_map (ec s)) (c_id sc) = Some (Some ac)"
    using assms(3) get_corres_fst [of "c_id sc" "ec s"] by (auto split: option.splits)
  with reach_inv [OF assms(1)] show ?thesis by (rule link_agent)
qed

theorem reachable_links_witness:
  "\<exists>s sc ac. ctl_reach (sample_env Http_Exception) (\<lambda>_. 0) sample_gcm s \<and> sc_heap (ec s) 0 = Some sc \<and>
     get_corres_agent_client (c_id sc) (ec s) = (Some ac, ec s) \<and> get_agent_ip ac = cid_server_ip (c_id sc)"
  using sample_reach [of "sample_env Http_Exception" "\<lambda>_. 0"] reachable_links by fast

text \<open>
  The threads that \<open>handle_reclaim_memory\<close> starts, one for each entry of the map whose newest
  container is not connected through the requesting socket.
\<close>

definition reclaim_threads :: "i32 \<Rightarrow> 'a ECAPI_scheme \<Rightarrow> nat" where
  "reclaim_threads client_fd s = length (filter (\<lambda>(k, q). case sc_heap (ec s) (last q) of
     None \<Rightarrow> False | Some sc \<Rightarrow> fd sc \<noteq> client_fd) (subcontainers (ec s)))"

text \<open>
  C10: in every reachable state a round of the periodic reclaim, which asks the containers one
  after the other, is free of undefined behaviour: no null or dangling pointer is followed, no
  empty queue is read. It returns, exits, throws, or waits for an agent. So is the handling of a
  memory request, when the reclaim it may start has at most one container to ask: then the one
  thread of \<open>std::async\<close> has no other to overlap with. Both hold where the JSON library behaves as
  documented and no answer of cAdvisor with status 200 is the empty object; on that object the
  parser dereferences an end iterator. What two overlapping reclaims of one node do is the subject
  of \<open>Agent_Calls\<close>.
\<close>

theorem reachable_memory_defined:
  assumes "ctl_reach env inet g s" and "json_documented (json env)" and "cadvisor_names_container env"
  shows "run_round env s \<noteq> Inl Undefined_Behaviour \<and>
    (reclaim_threads f s \<le> 1 \<longrightarrow> handle_mem_req env req res f s \<noteq> Inl Undefined_Behaviour)"
proof -
  have c: "cadvisor_ok env" using assms(2,3) by (simp add: cadvisor_ok_def)
  have "no_ub (run_round env s)"
    unfolding run_round_def
    by (rule no_ub_bind [OF reclaim_loops_no_ub(2) [OF reach_inv [OF assms(1)] c subset_refl]]) auto
  with mem_req_no_ub [OF reach_inv [OF assms(1)] c] show ?thesis by (simp add: no_ub_def)
qed

lemma sample_cadvisor_ok: "json_documented (json (sample_cadvisor u))" "cadvisor_names_container (sample_cadvisor u)"
  by (simp_all add: json_documented_def cadvisor_names_container_def sample_cadvisor_def sample_env_def sample_json_def)

theorem reachable_memory_defined_witness:
  "\<exists>s sc. ctl_reach (sample_cadvisor 4097) (\<lambda>_. 0) sample_gcm s \<and> subcontainers (ec s) = [(sample_cid, [0])] \<and>
     sc_heap (ec s) 0 = Some sc \<and> reclaim_threads 5 s = 1 \<and>
     run_round (sample_cadvisor 4097) s \<noteq> Inl Undefined_Behaviour \<and>
     handle_mem_req (sample_cadvisor 4097) (Some (sample_msg 1 100 0 0)) (Some (sample_msg 1 100 0 0)) 5 s
       \<noteq> Inl Undefined_Behaviour"
proof -
  obtain s sc where s: "ctl_reach (sample_cadvisor 4097) (\<lambda>_. 0) sample_gcm s"
    "subcontainers (ec s) = [(sample_cid, [0])]" "sc_heap (ec s) 0 = Some sc" "fd sc = 9"
    using sample_reach by blast
  then have t: "reclaim_threads 5 s = 1" by (simp add: reclaim_threads_def)
  with reachable_memory_defined [OF s(1) sample_cadvisor_ok] s show ?thesis by (metis order_refl)
qed

end
