(* ===== verification/Lifecycle_Properties.thy ===== *)
theory Lifecycle_Properties
  imports Cpu_Properties System_Properties
begin

text \<open>
  The life of a container: it connects, the deployer reports its docker id, its memory limit is
  settled, and it is removed. For each call, what it does to the registry and to the books, and when
  it does not return.
\<close>

section \<open>Connecting\<close>

lemma reg_look_cong: "subcontainers e' = subcontainers e \<Longrightarrow> reg_look e' = reg_look e"
  by (simp add: reg_look_def [abs_def])

lemma reg_look_link: "reg_look (ec (connect_link p sc s)) = reg_look (ec s)"
  by (intro reg_look_cong) (auto simp: connect_link_def on_ec_def sc_upd_def add_to_sc_ac_map_def split: option.splits)

lemma link_heap:
  "sc_heap (ec s) p = Some sc \<Longrightarrow> \<exists>b. sc_heap (ec (connect_link p sc s)) p = Some (sc\<lparr>inserted := b\<rparr>)"
  by (auto simp: connect_link_def on_ec_def sc_upd_def add_to_sc_ac_map_def set_sc_inserted_def split: option.splits)
    (metis SubContainer.surjective SubContainer.update_convs(3))

lemma quota_syscall_heap:
  assumes "set_sc_quota_syscall env (Some p) q seq s = Inr (r, s')"
  shows "ec s' = ec s"
proof -
  obtain sc ac where c: "connected (ec s) p sc ac" using assms by (rule set_sc_quota_syscall_Inr)
  from assms show ?thesis unfolding set_sc_quota_syscall_connected [OF c] by (auto simp: Let_def)
qed

lemma connecting_registers:
  fixes s :: "'a Manager_scheme"
  assumes inv: "ctl_inv s" and run: "handle_add_cgroup_to_ec env now (Some rq) (Some rs) ip f s = Inr (ret, res, s')"
  shows "ret = ALLOC_INIT \<and> res = Some (rs\<lparr>request := request rs + 1\<rparr>) \<and>
    (let key = (msg_t.cgroup_id rq, Ip4 ip); p = sc_next (ec s) in
     reg_look (ec s') = (reg_look (ec s))(key := reg_look (ec s) key @ [p]) \<and>
     (\<exists>sc. sc_heap (ec s') p = Some sc \<and> get_quota sc = fst (snd (determine_quota_for_new_pod (rsrc_amnt rq) s)) \<and>
        c_id sc = ContainerId_new (msg_t.cgroup_id rq) (Ip4 ip) \<and> get_mem_limit_in_pages sc = 0 \<and> fd sc = f) \<and>
     (p, f) \<in> set (mem_limit_jobs s'))"
proof -
  obtain fl q and s1 :: "'a Manager_scheme" where s1: "determine_quota_for_new_pod (rsrc_amnt rq) s = (fl, q, s1)"
    by (metis prod_cases3)
  let ?sc = "SubContainer_new_quota now (msg_t.cgroup_id rq) ip f q (request rq)"
  obtain p e1 e2 where e: "p = sc_next (ec s)"
    "create_new_sc_quota now (msg_t.cgroup_id rq) ip f q (request rq) (ec s1) = (p, e1)"
    "insert_sc p e1 = Inr (ALLOC_INIT, e2)" "sc_heap e2 p = Some ?sc"
    "reg_look e2 = (reg_look (ec s))((msg_t.cgroup_id rq, Ip4 ip) := reg_look (ec s) (msg_t.cgroup_id rq, Ip4 ip) @ [p])"
    by (rule add_cgroup_registers [OF inv s1, of now "msg_t.cgroup_id rq" ip f "request rq"])
  define s2 where "s2 = s1\<lparr>ec := update_fair_cpu_share e2, agent_db := Some (get_agent_client_db_instance (agent_db s1))\<rparr>"
  define s3 where "s3 = connect_link p ?sc s2"
  from run obtain x s4 where s4: "(if fl \<noteq> 0 then set_sc_quota_syscall env (Some p) q 13 s3 else Inr (0, s3)) = Inr (x, s4)"
    "s' = s4\<lparr>mem_limit_jobs := mem_limit_jobs s4 @ [(p, f)]\<rparr>" "ret = ALLOC_INIT" "res = Some (rs\<lparr>request := request rs + 1\<rparr>)"
    unfolding add_cgroup_eq [OF s1 e(2-4)] Let_def s3_def s2_def by (auto simp: bind_r_eq_Inr)
  then have ec': "ec s' = ec s3" using quota_syscall_heap by (auto split: if_splits)
  have s2: "sc_heap (ec s2) p = Some ?sc" using e(4) by (simp add: s2_def update_fair_cpu_share_def)
  have look2: "reg_look (ec s2) = reg_look e2" by (rule reg_look_cong) (simp add: s2_def update_fair_cpu_share_def)
  obtain b where "sc_heap (ec s3) p = Some (?sc\<lparr>inserted := b\<rparr>)" unfolding s3_def using link_heap [OF s2] by blast
  moreover have "get_quota (?sc\<lparr>inserted := b\<rparr>) = q" "c_id (?sc\<lparr>inserted := b\<rparr>) = ContainerId_new (msg_t.cgroup_id rq) (Ip4 ip)"
    "get_mem_limit_in_pages (?sc\<lparr>inserted := b\<rparr>) = 0" "fd (?sc\<lparr>inserted := b\<rparr>) = f"
    by (simp_all add: SubContainer_new_quota_def get_quota_def cpu_l_new_def from_net_def get_mem_limit_in_pages_def mem_l_new_def)
  moreover have "reg_look (ec s3) = reg_look e2" unfolding s3_def reg_look_link look2 ..
  ultimately show ?thesis using s4(2-4) ec' e(1,5) s1 by (simp add: Let_def)
qed

text \<open>
  C17: a container that connects is registered as the newest one of its id, behind those already
  there, with the quota that was determined for it, no docker id and no memory limit yet; a job
  to settle its memory limit is started, the reply has its counter raised by one and the
  answer is \<open>__ALLOC_INIT__\<close>.
\<close>

theorem connect_registers:
  fixes s :: "'a Manager_scheme"
  assumes inv: "ctl_inv s" and run: "handle_add_cgroup_to_ec env now (Some rq) (Some rs) ip f s = Inr (ret, res, s')"
  shows "ret = ALLOC_INIT \<and> res = Some (rs\<lparr>request := request rs + 1\<rparr>) \<and>
    (let key = (msg_t.cgroup_id rq, Ip4 ip); p = sc_next (ec s) in
     reg_look (ec s') = (reg_look (ec s))(key := reg_look (ec s) key @ [p]) \<and>
     (\<exists>sc. sc_heap (ec s') p = Some sc \<and> get_quota sc = fst (snd (determine_quota_for_new_pod (rsrc_amnt rq) s)) \<and>
        c_id sc = ContainerId_new (msg_t.cgroup_id rq) (Ip4 ip) \<and> get_mem_limit_in_pages sc = 0 \<and> fd sc = f) \<and>
     (p, f) \<in> set (mem_limit_jobs s'))"
  by (rule connecting_registers [OF inv run])

theorem connect_registers_witness:
  "\<exists>ret res s'. handle_add_cgroup_to_ec (sample_env Http_Exception) 0 (Some (sample_msg 2 40000000 0 0))
       (Some (sample_msg 2 40000000 0 0)) 1 9 sample_grow = Inr (ret, res, s') \<and>
     reg_look (ec s') (3, Ip4 1) = [0, 1]"
proof -
  have "\<exists>x. handle_add_cgroup_to_ec (sample_env Http_Exception) 0 (Some (sample_msg 2 40000000 0 0))
       (Some (sample_msg 2 40000000 0 0)) 1 9 sample_grow = Inr x"
    by (simp add: sample_grow_def cpu_eval handle_add_cgroup_to_ec_def determine_quota_for_new_pod_def
        create_new_sc_quota_def insert_sc_def get_agent_client_db_instance_def get_agent_client_by_ip_def
        update_fair_cpu_share_def um_insert_def um_set_def add_to_sc_ac_map_def)
  then obtain ret res s' where r: "handle_add_cgroup_to_ec (sample_env Http_Exception) 0 (Some (sample_msg 2 40000000 0 0))
       (Some (sample_msg 2 40000000 0 0)) 1 9 sample_grow = Inr (ret, res, s')" by (metis prod_cases3)
  have i: "ctl_inv sample_grow"
    unfolding sample_grow_def by (rule sample_ctl_inv) (rule sample_ec_wf, simp add: sample_ec_def)
  have h: "sc_next (ec sample_grow) = 1" "reg_look (ec sample_grow) (3, Ip4 1) = [0]" "msg_t.cgroup_id (sample_msg 2 40000000 0 0) = 3"
    by (simp_all add: sample_grow_def sample_eval reg_look_def)
  from connect_registers [OF i r] r show ?thesis by (auto simp: Let_def h)
qed

text \<open>The quota request of a container that was just linked: it fails if the id had a null link.\<close>

lemma linked_syscall:
  fixes s :: "'a ECAPI_scheme" and ac :: AgentClient
  assumes "sc_heap (ec s) p = Some sc" "c_id sc = k"
  defines "s' \<equiv> on_sc p (set_sc_inserted True) (on_ec (add_to_sc_ac_map k ac) s)"
  shows "if um_find cid_key (sc_ac_map (ec s)) k = Some None then set_sc_quota_syscall env (Some p) q seq s' = Inl Exit_Failure
    else \<exists>x. set_sc_quota_syscall env (Some p) q seq s' = Inr x"
proof -
  let ?sc = "set_sc_inserted True sc"
  have s': "sc_heap (ec s') p = Some ?sc" "c_id ?sc = k" "inserted ?sc"
    "um_find cid_key (sc_ac_map (ec s')) k = (case um_find cid_key (sc_ac_map (ec s)) k of Some x \<Rightarrow> Some x | None \<Rightarrow> Some (Some ac))"
    using assms(1,2) by (auto simp: s'_def on_ec_def sc_upd_def add_to_sc_ac_map_def um_simps set_sc_inserted_def split: option.splits)
  show ?thesis
  proof (cases "um_find cid_key (sc_ac_map (ec s)) k = Some None")
    case True
    with s' have "get_corres_agent_client k (ec s') = (None, ec s')" by (intro get_corres_found) simp
    then show ?thesis using True s' by (simp add: set_sc_quota_syscall_def sc_deref_def Let_def)
  next
    case False
    then obtain ac' where "connected (ec s') p ?sc ac'" using s' by (auto simp: connected_def split: option.splits)
    from set_sc_quota_syscall_connected [OF this, of env q seq] False show ?thesis by (simp add: Let_def)
  qed
qed

lemma connecting_outcome:
  fixes s :: "'a Manager_scheme" and env :: "'v agent_env" and now :: int and rs :: msg_t and ip :: u32 and f :: i32
  assumes inv: "ctl_inv s" and s1: "determine_quota_for_new_pod (rsrc_amnt rq) s = (fl, q, s1)"
  defines "h \<equiv> handle_add_cgroup_to_ec env now (Some rq) (Some rs) ip f s"
    and "k \<equiv> ContainerId_new (msg_t.cgroup_id rq) (Ip4 ip)"
  shows "if fl = 0 then \<exists>x. h = Inr x
    else if get_agent_client_by_ip (get_agent_client_db_instance (agent_db s)) (Ip4 ip) = None then h = Inl Never_Returns
    else if um_find cid_key (sc_ac_map (ec s)) k = Some None then h = Inl Exit_Failure
    else \<exists>x. h = Inr x"
proof -
  let ?sc = "SubContainer_new_quota now (msg_t.cgroup_id rq) ip f q (request rq)"
  obtain p e1 e2 where e: "p = sc_next (ec s)"
    "create_new_sc_quota now (msg_t.cgroup_id rq) ip f q (request rq) (ec s1) = (p, e1)"
    "insert_sc p e1 = Inr (ALLOC_INIT, e2)" "sc_heap e2 p = Some ?sc"
    by (rule add_cgroup_registers [OF inv s1, of now "msg_t.cgroup_id rq" ip f "request rq"])
  define s2 where "s2 = s1\<lparr>ec := update_fair_cpu_share e2, agent_db := Some (get_agent_client_db_instance (agent_db s1))\<rparr>"
  have run: "h = bind_r (if fl \<noteq> 0 then set_sc_quota_syscall env (Some p) q 13 (connect_link p ?sc s2)
       else Inr (0, connect_link p ?sc s2)) (\<lambda>(sys_ret, s4).
     Inr (ALLOC_INIT, Some (rs\<lparr>request := request rs + 1\<rparr>), s4\<lparr>mem_limit_jobs := mem_limit_jobs s4 @ [(p, f)]\<rparr>))"
    unfolding h_def s2_def using add_cgroup_eq [OF s1 e(2-4), of env rs] by (simp add: Let_def)
  have id: "c_id ?sc = k" "cid_server_ip k = Ip4 ip" "\<not> inserted ?sc"
    by (simp_all add: SubContainer_new_quota_def k_def ContainerId_new_def from_net_def)
  obtain c where "s1 = s\<lparr>ec := (ec s)\<lparr>ec_cpu := c\<rparr>\<rparr>" using determine_quota_frame [OF s1] by blast
  moreover have "sc_ac_map e2 = sc_ac_map e1" "sc_ac_map e1 = sc_ac_map (ec s1)"
    using insert_sc_eq(1) [of e1 p ?sc] e(2,3) by (auto simp: create_new_sc_quota_def reg_push_frame)
  ultimately have s2: "sc_ac_map (ec s2) = sc_ac_map (ec s)" "sc_heap (ec s2) p = Some ?sc"
    "get_agent_client_db_instance (agent_db s2) = get_agent_client_db_instance (agent_db s)"
    using e(4) by (simp_all add: s2_def update_fair_cpu_share_def get_agent_client_db_instance_def)
  show ?thesis
  proof (cases "get_agent_client_by_ip (get_agent_client_db_instance (agent_db s)) (Ip4 ip)")
    case None
    then have "connect_link p ?sc s2 = s2" by (simp add: connect_link_def s2(3) id)
    then show ?thesis using None run s2(2) id(3) by (simp add: set_sc_quota_syscall_def sc_deref_def Let_def)
  next
    case (Some ac)
    have "connect_link p ?sc s2 = on_sc p (set_sc_inserted True) (on_ec (add_to_sc_ac_map k ac) s2)"
      using Some by (simp add: connect_link_def s2(3) id)
    with linked_syscall [OF s2(2) id(1), where ac = ac and env = env and q = q and seq = 13] run Some s2(1) show ?thesis
      by (auto split: if_splits simp: bind_r_simps)
  qed
qed

text \<open>
  C19: when connecting returns. A request that the pool covers always returns. Otherwise the new quota
  has to be sent to the agent of the container's node: without an agent there the call never
  returns (it waits for a flag that is only set when an agent is found); with one it returns,
  unless an earlier lookup has left an empty entry for the same id in the map of links, in which
  case the controller exits.
\<close>

theorem connect_outcome:
  fixes s :: "'a Manager_scheme" and env :: "'v agent_env" and now :: int and rs :: msg_t and ip :: u32 and f :: i32
  assumes inv: "ctl_inv s" and s1: "determine_quota_for_new_pod (rsrc_amnt rq) s = (fl, q, s1)"
  defines "h \<equiv> handle_add_cgroup_to_ec env now (Some rq) (Some rs) ip f s"
    and "k \<equiv> ContainerId_new (msg_t.cgroup_id rq) (Ip4 ip)"
  shows "if fl = 0 then \<exists>x. h = Inr x
    else if get_agent_client_by_ip (get_agent_client_db_instance (agent_db s)) (Ip4 ip) = None then h = Inl Never_Returns
    else if um_find cid_key (sc_ac_map (ec s)) k = Some None then h = Inl Exit_Failure
    else \<exists>x. h = Inr x"
  unfolding h_def k_def by (rule connecting_outcome [OF inv s1])

text \<open>An application without CPU time and without agents: the container's quota cannot be sent.\<close>

theorem connect_outcome_witness:
  "handle_add_cgroup_to_ec (sample_env Http_Exception) 0 (Some (sample_msg 2 40000000 0 0)) (Some (sample_msg 2 40000000 0 0)) 1 9
     ((sample_ctl (ElasticContainer_new 1))\<lparr>agent_db := None\<rparr>) = Inl Never_Returns"
proof -
  let ?s = "(sample_ctl (ElasticContainer_new 1))\<lparr>agent_db := None\<rparr>"
  have i: "ctl_inv ?s" using ec_wf_new by (simp add: ctl_inv_def links_ok_def sample_ctl_def)
  obtain fl q s1 where d: "determine_quota_for_new_pod (rsrc_amnt (sample_msg 2 40000000 0 0)) ?s = (fl, q, s1)"
    by (metis prod_cases3)
  then have "fl = 1"
    by (auto simp: determine_quota_cases sample_ctl_def sample_msg_def ElasticContainer_new_def cpu_g_default_def)
  then show ?thesis
    using connect_outcome [OF i d, where ip = 1 and env = "sample_env Http_Exception" and now = 0 and rs = "sample_msg 2 40000000 0 0" and f = 9]
    by (simp add: sample_ctl_def get_agent_client_db_instance_def get_agent_client_by_ip_def um_find_def)
qed

section \<open>The deployer's reports\<close>

text \<open>
  C26: the application's limits. After \<open>ReportAppSpec\<close> all CPU time (100000 ns per reported unit) and all
  memory (256 pages per MiB) is unallocated; memory is then balanced, and so is the CPU side
  provided no container holds CPU time. The fair share is not recomputed.
\<close>

theorem app_spec_pools:
  assumes "unat (as_mem_limit a) < 2 ^ 43" and "alloc_rt (ec_cpu (ec s)) = overrun (ec_cpu (ec s))"
  shows "\<exists>r' s'. ReportAppSpec (Some a) (Some r) s = (Status_OK, Some r', s') \<and>
     total_cpu (ec_cpu (ec s')) = as_cpu_limit a * 100000 \<and> unallocated_rt (ec_cpu (ec s')) = as_cpu_limit a * 100000 \<and>
     cpu_ledger (ec_cpu (ec s')) = 0 \<and> memory_limit_in_pages (ec_mem (ec s')) = as_mem_limit a * 256 \<and>
     unallocated_memory_in_pages (ec_mem (ec s')) = as_mem_limit a * 256 \<and> mem_ledger (ec_mem (ec s')) = 0 \<and>
     fair_cpu_share (ec s') = fair_cpu_share (ec s) \<and> asr_thanks r' = ''thx''"
proof -
  have "unat (as_mem_limit a * 1048576) = unat (as_mem_limit a) * 1048576"
    using assms(1) by (simp add: unat_mult_lem [THEN iffD1])
  moreover have "unat (as_mem_limit a * 256) = unat (as_mem_limit a) * 256"
    using assms(1) by (simp add: unat_mult_lem [THEN iffD1])
  ultimately have "as_mem_limit a * 1048576 div 4096 = as_mem_limit a * 256"
    by (simp add: word_unat_eq_iff unat_div_page)
  then show ?thesis
    using assms(2) by (simp add: ReportAppSpec_def Let_def api_defs ec_set_unalloc_memory_in_pages_def cpu_set_total_cpu_def
        cpu_set_unallocated_rt_def mem_set_memory_limit_def mem_set_unallocated_def mem_set_allocated_def
        cpu_ledger_def mem_ledger_def success_def mult.assoc)
qed

text \<open>
  C27: a pod that the deployer reports can be found again: after \<open>insertPodSpec\<close> with a docker id not
  reported before, that docker id leads to the reported container id, every other docker id to
  what it led to before, and the docker id is the last in the queue of its container id. A docker
  id reported twice is refused with -3 and still leads to its first container.
\<close>

theorem pod_spec_roundtrip:
  assumes run: "insertPodSpec inet pod s = Inr (ret, s')"
  shows "\<exists>k. ContainerId_of_string inet (ps_cgroup_id pod) (ps_node_ip pod) = Inr k \<and>
     (if um_find id (dockerToSubContainer s) (ps_docker_id pod) = None
      then ret = 0 \<and> getScIdFromDockerId s' (ps_docker_id pod) = k
      else ret = - 3 \<and> getScIdFromDockerId s' (ps_docker_id pod) = getScIdFromDockerId s (ps_docker_id pod)) \<and>
     (\<forall>d. d \<noteq> ps_docker_id pod \<longrightarrow> getScIdFromDockerId s' d = getScIdFromDockerId s d) \<and>
     (\<exists>ds. um_find cid_key (deployedPods s') k = Some (ds @ [ps_docker_id pod]) \<and>
        (case um_find cid_key (deployedPods s) k of Some q \<Rightarrow> ds = q | None \<Rightarrow> ds = [])) \<and> ec s' = ec s"
proof -
  obtain k where k: "ContainerId_of_string inet (ps_cgroup_id pod) (ps_node_ip pod) = Inr k"
    using run by (auto simp: insertPodSpec_def bind_r_eq_Inr)
  define ds where "ds = (case um_find cid_key (deployedPods s) k of Some q \<Rightarrow> q | None \<Rightarrow> [])"
  have s': "dockerToSubContainer s' = um_insert id (ps_docker_id pod) k (dockerToSubContainer s)" "ec s' = ec s"
    "ret = (if um_find id (dockerToSubContainer s) (ps_docker_id pod) = None then 0 else - 3)"
    "um_find cid_key (deployedPods s') k = Some (ds @ [ps_docker_id pod])"
    using run by (auto simp: insertPodSpec_def k Let_def ds_def um_simps split: option.splits)
  have "case um_find cid_key (deployedPods s) k of Some q \<Rightarrow> ds = q | None \<Rightarrow> ds = []"
    by (simp add: ds_def split: option.splits)
  with k s' show ?thesis by (simp add: getScIdFromDockerId_def um_simps split: option.splits)
qed

section \<open>Removing\<close>

lemma um_erase_docker:
  "deleteFromDockerIdScMap d s = (r, s') \<Longrightarrow> getScIdFromDockerId s' d = ContainerId_default"
  by (auto simp: deleteFromDockerIdScMap_def getScIdFromDockerId_def um_simps split: if_splits option.splits)

lemma delete_link_frame:
  assumes "deleteFromScAcMap k s = (r, s')"
  shows "ec_cpu (ec s') = ec_cpu (ec s)" "ec_mem (ec s') = ec_mem (ec s)" "subcontainers (ec s') = subcontainers (ec s)"
    "sc_heap (ec s') = sc_heap (ec s)" "um_find cid_key (sc_ac_map (ec s')) k = None"
  using assms by (auto simp: deleteFromScAcMap_def on_ec_def um_simps split: if_splits)

text \<open>The elastic container after a removal, in terms of the one before.\<close>

lemma delete_pod_ec:
  fixes s :: "'a Controller_scheme"
  assumes run: "DeletePod d r s = Inr (st, r', s')" and wf: "ec_wf (ec s)"
    and front: "get_subcontainer_front (ec s) (getScIdFromDockerId s d) = Inr sc"
    and known: "cid_cgroup_id (getScIdFromDockerId s d) \<noteq> 0"
  defines "k \<equiv> getScIdFromDockerId s d"
  shows "st = Status_OK \<and> getScIdFromDockerId s' d = ContainerId_default \<and>
      ec_cpu (ec s') = cpu_incr_unallocated_rt (get_quota sc) (cpu_decr_alloc_rt (get_quota sc) (ec_cpu (ec s))) \<and>
      ec_mem (ec s') = mem_decr_allocated (get_mem_limit_in_pages sc) (mem_incr_unallocated (get_mem_limit_in_pages sc) (ec_mem (ec s))) \<and>
      reg_look (ec s') = (reg_look (ec s))(cid_key k := tl (reg_look (ec s) (cid_key k))) \<and>
      um_find cid_key (sc_ac_map (ec s')) k = None \<and>
      (\<exists>e. ec_wf e \<and> subcontainers e = subcontainers (ec s) \<and> sc_heap e = sc_heap (ec s) \<and> sc_heap (ec s') = sc_heap (reg_pop (cid_key k) e))"
  using run wf
proof (cases rule: delete_pod_Inr)
    case (found k' r1 r3 r4 front' s1 s2 s3 s4)
    have k: "k' = k" "front' = sc" using found(1,3) front by (simp_all add: k_def)
    note l = delete_link_frame [OF found(4)]
    have wf1: "ec_wf (ec s1)"
      using wf found(4) by (auto simp: deleteFromScAcMap_def on_ec_def ec_wf_sc_ac um_wf_erase ec_wf_um_ac split: if_splits)
    have e4: "ec s4 = reg_pop (cid_key k) (ec s1)"
      using delete_maps_frame(1) [OF found(7)] delete_maps_frame(2) [OF found(8)] by (simp add: found(6) k)
    have fair: "ec_cpu (update_fair_cpu_share e) = ec_cpu e" "ec_mem (update_fair_cpu_share e) = ec_mem e"
      "sc_heap (update_fair_cpu_share e) = sc_heap e" "subcontainers (update_fair_cpu_share e) = subcontainers e"
      "sc_ac_map (update_fair_cpu_share e) = sc_ac_map e" for e by (simp_all add: update_fair_cpu_share_def)
    have look: "reg_look (ec s') = reg_look (ec s4)" "reg_look (ec s1) = reg_look (ec s)"
      by (rule reg_look_cong, simp add: found(11) on_ec_def on_cpu_def on_mem_def fair)
        (rule reg_look_cong [OF l(3)])
    have dock: "getScIdFromDockerId s' d = getScIdFromDockerId s4 d" by (simp add: found(11) on_ec_def getScIdFromDockerId_def)
    show ?thesis
      unfolding look(1) e4 registry.look_pop [OF wf1] look(2)
      using found(9) dock um_erase_docker [OF found(8)] l wf1
      by (auto simp: found(11) on_ec_def on_cpu_def on_mem_def fair e4 reg_pop_frame k)
qed (use known in simp)

text \<open>
  C16: removing a pod whose container is known returns its quota to the unallocated CPU time and its
  memory limit to the unallocated memory, and keeps both books balanced; the oldest container of
  the id leaves the registry, and the docker id is forgotten.
\<close>

theorem delete_returns_resources:
  assumes inv: "ctl_inv s" and run: "DeletePod d r s = Inr (st, r', s')"
    and front: "get_subcontainer_front (ec s) (getScIdFromDockerId s d) = Inr sc"
    and known: "cid_cgroup_id (getScIdFromDockerId s d) \<noteq> 0"
    and cpu: "cpu_small (ec_cpu (ec s))" "get_quota sc \<le> alloc_rt (ec_cpu (ec s))"
    and mem: "get_mem_limit_in_pages sc \<le> allocated_memory_in_pages (ec_mem (ec s))" "unat (allocated_memory_in_pages (ec_mem (ec s))) < 2 ^ 63"
  shows "st = Status_OK \<and> getScIdFromDockerId s' d = ContainerId_default \<and>
    alloc_rt (ec_cpu (ec s')) = alloc_rt (ec_cpu (ec s)) - get_quota sc \<and>
    unallocated_rt (ec_cpu (ec s')) = unallocated_rt (ec_cpu (ec s)) + get_quota sc \<and>
    allocated_memory_in_pages (ec_mem (ec s')) = allocated_memory_in_pages (ec_mem (ec s)) - get_mem_limit_in_pages sc \<and>
    unallocated_memory_in_pages (ec_mem (ec s')) = unallocated_memory_in_pages (ec_mem (ec s)) + get_mem_limit_in_pages sc \<and>
    cpu_ledger (ec_cpu (ec s')) = cpu_ledger (ec_cpu (ec s)) \<and> mem_ledger (ec_mem (ec s')) = mem_ledger (ec_mem (ec s)) \<and>
    (let key = cid_key (getScIdFromDockerId s d) in reg_look (ec s') = (reg_look (ec s))(key := tl (reg_look (ec s) key)))"
proof -
  have "ec_wf (ec s)" using inv by (simp add: ctl_inv_def)
  note d = delete_pod_ec [OF run this front known]
  have c: "\<not> sint (alloc_rt (ec_cpu (ec s)) - get_quota sc) < 0"
    using cpu by (intro decr_exact) (simp_all add: cpu_small_def word_le_nat_alt)
  have m: "\<not> sint (allocated_memory_in_pages (ec_mem (ec s)) - get_mem_limit_in_pages sc) < 0"
    using mem by (intro decr_exact) (simp_all add: word_le_nat_alt)
  show ?thesis
    using d c m
    by (simp add: stat_simps alloc_ctr.get_decr mem_alloc_ctr.get_decr cpu_ledger_decr mem_ledger_decr Let_def)
qed

text \<open>
  C34: a container that was restarted under the same id before the old pod is removed: the removal
  drops the link of the id, which the new container shares, so the next change of the new
  container's quota makes the controller exit.
\<close>

theorem delete_cuts_restarted:
  fixes s :: "'a Controller_scheme"
  assumes inv: "ctl_inv s" and run: "DeletePod d r s = Inr (st, r', s')"
    and known: "cid_cgroup_id (getScIdFromDockerId s d) \<noteq> 0"
    and two: "reg_look (ec s) (cid_key (getScIdFromDockerId s d)) = [old, new]"
    and sc: "sc_heap (ec s) new = Some sc" "inserted sc"
  shows "reg_look (ec s') (cid_key (getScIdFromDockerId s d)) = [new] \<and>
    set_sc_quota_syscall env (Some new) q n s' = Inl Exit_Failure"
proof -
  let ?k = "getScIdFromDockerId s d"
  have wf: "ec_wf (ec s)" using inv by (simp add: ctl_inv_def)
  obtain front where f: "get_subcontainer_front (ec s) ?k = Inr front"
    using run known by (auto simp: DeletePod_def Let_def bind_r_eq_Inr)
  note d = delete_pod_ec [OF run wf f known]
  then obtain e where e: "ec_wf e" "subcontainers e = subcontainers (ec s)" "sc_heap e = sc_heap (ec s)"
    "sc_heap (ec s') = sc_heap (reg_pop (cid_key ?k) e)" by blast
  have look: "reg_look e = reg_look (ec s)" by (rule reg_look_cong) (rule e(2))
  have "new \<noteq> old" using ec_wf_look(1) [OF wf, of "cid_key ?k"] two by simp
  moreover have "find_queue e ?k = Some [old, new]"
    using reg_look_find [of e ?k] two look by (auto split: option.splits)
  ultimately have heap: "sc_heap (ec s') new = Some sc"
    using delete_eq(3) [OF e(1), of ?k] sc(1) unfolding e(3,4) by simp
  have key: "cid_key (c_id sc) = cid_key ?k" using ec_wf_look(3) [OF wf, of new "cid_key ?k"] two sc(1) by auto
  have "um_find cid_key (sc_ac_map (ec s')) (c_id sc) = None" using d by (simp add: um_find_cong [where kf = cid_key, OF key])
  then have "fst (get_corres_agent_client (c_id sc) (ec s')) = None" by (simp add: get_corres_fst)
  then have "set_sc_quota_syscall env (Some new) q n s' = Inl Exit_Failure"
    using heap sc(2) by (cases "get_corres_agent_client (c_id sc) (ec s')") (simp add: set_sc_quota_syscall_def sc_deref_def Let_def)
  then show ?thesis using d two by simp
qed

text \<open>
  C30: attaching a docker id. The call waits until the container id has an entry in the map of links;
  then the newest container of that id carries the docker id, and no other container changes. An
  entry without a registered container, as an early lookup leaves it, makes the controller exit.
\<close>

theorem matcher_outcome:
  assumes "ctl_inv s"
  shows "if um_find cid_key (sc_ac_map (ec s)) k = None then scIdToDockerIdMatcherThread k d s = Inl Never_Returns
    else if um_find cid_key (subcontainers (ec s)) k = None then scIdToDockerIdMatcherThread k d s = Inl Exit_Failure
    else \<exists>s' p sc. scIdToDockerIdMatcherThread k d s = Inr s' \<and> get_sc_for_update_back (ec s) k = Inr p \<and>
      sc_heap (ec s) p = Some sc \<and> sc_heap (ec s') = (sc_heap (ec s))(p \<mapsto> set_docker_id d sc) \<and>
      subcontainers (ec s') = subcontainers (ec s) \<and> cid_docker_id (c_id (set_docker_id d sc)) = d"
proof (cases "um_find cid_key (subcontainers (ec s)) k")
  case None
  then show ?thesis by (simp add: scIdToDockerIdMatcherThread_def get_back_missing)
next
  case (Some q)
  have "ec_wf (ec s)" using assms by (simp add: ctl_inv_def)
  from this Some obtain sc where "get_sc_for_update_back (ec s) k = Inr (last q)" "sc_heap (ec s) (last q) = Some sc"
    by (rule get_back_wf)
  then show ?thesis using Some
    by (simp add: scIdToDockerIdMatcherThread_def sc_deref_def on_ec_def sc_upd_def set_docker_id_def)
qed

section \<open>Witnesses\<close>

text \<open>A container that was reported, and one that was restarted under its id.\<close>

definition sample_pod :: ExportPodSpec where
  "sample_pod = \<lparr>ps_docker_id = ''d'', ps_cgroup_id = 3, ps_node_ip = ''n''\<rparr>"

definition sample_reported :: Controller where
  "sample_reported = (sample_ctl (sample_ec (sample_sc 40000000 100) (sample_cpu 60000000 100000000 0 40000000)
     (sample_mem 900 100 1000) 100000000))\<lparr>dockerToSubContainer := [(''d'', sample_cid)], deployedPods := [(sample_cid, [''d''])]\<rparr>"

definition sample_restarted :: Controller where
  "sample_restarted = on_ec (\<lambda>e. e\<lparr>subcontainers := [(sample_cid, [0, 1])], sc_heap := (sc_heap e)(1 \<mapsto> sample_sc 0 0), sc_next := 2\<rparr>) sample_reported"

lemmas deploy_eval = sample_eval mem_defs sample_pod_def sample_reported_def sample_restarted_def DeletePod_def
  getScIdFromDockerId_def get_subcontainer_front_def deleteFromScAcMap_def deleteFromSubcontainersMap_def
  ec_delete_from_subcontainers_map_def deleteFromDeployedPodsMap_def deleteFromDockerIdScMap_def um_erase_def um_set_def
  update_fair_cpu_share_def

lemma sample_reported_inv: "ctl_inv sample_reported" "ctl_inv sample_restarted"
  by (simp_all add: ctl_inv_def ec_wf_def um_wf_def deploy_eval links_ok_def links_def db_wf_def get_agent_ip_def)

theorem app_spec_pools_witness:
  "\<exists>r' s'. ReportAppSpec (Some \<lparr>as_app_name = [], as_cpu_limit = 1000, as_mem_limit = 100\<rparr>)
      (Some \<lparr>asr_app_name = [], asr_cpu_limit = 0, asr_mem_limit = 0, asr_thanks = []\<rparr>) sample_started =
      (Status_OK, Some r', s') \<and> cpu_ledger (ec_cpu (ec s')) = 0 \<and> mem_ledger (ec_mem (ec s')) = 0"
  using app_spec_pools [of "\<lparr>as_app_name = [], as_cpu_limit = 1000, as_mem_limit = 100\<rparr>" sample_started
      "\<lparr>asr_app_name = [], asr_cpu_limit = 0, asr_mem_limit = 0, asr_thanks = []\<rparr>"]
  by (auto simp: sample_started_def sample_ctl_def ElasticContainer_new_def cpu_g_default_def)

theorem pod_spec_roundtrip_witness:
  "\<exists>ret s'. insertPodSpec (\<lambda>_. 1) sample_pod sample_started = Inr (ret, s') \<and> ret = 0 \<and>
     getScIdFromDockerId s' ''d'' = sample_cid"
proof -
  obtain ret s' where r: "insertPodSpec (\<lambda>_. 1) sample_pod sample_started = Inr (ret, s')"
    by (simp add: insertPodSpec_def sample_pod_def ContainerId_of_string_def from_string_def ip4_parse_def Let_def)
  from pod_spec_roundtrip [OF r] r show ?thesis
    by (auto simp: sample_pod_def sample_started_def sample_eval ContainerId_of_string_def from_string_def ip4_parse_def)
qed

theorem delete_returns_resources_witness:
  "\<exists>st r' s'. DeletePod ''d'' \<lparr>dpr_docker_id = [], dpr_thanks = []\<rparr> sample_reported = Inr (st, r', s') \<and>
     alloc_rt (ec_cpu (ec s')) = 0 \<and> unallocated_memory_in_pages (ec_mem (ec s')) = 1000"
proof -
  have "\<exists>x. DeletePod ''d'' \<lparr>dpr_docker_id = [], dpr_thanks = []\<rparr> sample_reported = Inr x" by (simp add: deploy_eval)
  then obtain st r' s' where r: "DeletePod ''d'' \<lparr>dpr_docker_id = [], dpr_thanks = []\<rparr> sample_reported = Inr (st, r', s')"
    by (metis prod_cases3)
  have f: "get_subcontainer_front (ec sample_reported) (getScIdFromDockerId sample_reported ''d'') = Inr (sample_sc 40000000 100)"
    "cid_cgroup_id (getScIdFromDockerId sample_reported ''d'') \<noteq> 0" "get_quota (sample_sc 40000000 100) = 40000000"
    "get_mem_limit_in_pages (sample_sc 40000000 100) = 100"
    "ec_cpu (ec sample_reported) = sample_cpu 60000000 100000000 0 40000000" "ec_mem (ec sample_reported) = sample_mem 900 100 1000"
    by (simp_all add: deploy_eval get_mem_limit_in_pages_def get_quota_def)
  from delete_returns_resources [OF sample_reported_inv(1) r f(1,2)] r show ?thesis
    by (auto simp: f(3-6) cpu_small_def sample_cpu_def sample_mem_def)
qed

theorem delete_cuts_restarted_witness:
  "\<exists>st r' s'. DeletePod ''d'' \<lparr>dpr_docker_id = [], dpr_thanks = []\<rparr> sample_restarted = Inr (st, r', s') \<and>
     set_sc_quota_syscall (sample_env Http_Exception) (Some 1) 50000000 0 s' = Inl Exit_Failure"
proof -
  have "\<exists>x. DeletePod ''d'' \<lparr>dpr_docker_id = [], dpr_thanks = []\<rparr> sample_restarted = Inr x" by (simp add: deploy_eval)
  then obtain st r' s' where r: "DeletePod ''d'' \<lparr>dpr_docker_id = [], dpr_thanks = []\<rparr> sample_restarted = Inr (st, r', s')"
    by (metis prod_cases3)
  have f: "cid_cgroup_id (getScIdFromDockerId sample_restarted ''d'') \<noteq> 0"
    "reg_look (ec sample_restarted) (cid_key (getScIdFromDockerId sample_restarted ''d'')) = [0, 1]"
    "sc_heap (ec sample_restarted) 1 = Some (sample_sc 0 0)" "inserted (sample_sc 0 0)"
    by (simp_all add: deploy_eval reg_look_def)
  from delete_cuts_restarted [OF sample_reported_inv(2) r f] r show ?thesis by blast
qed

theorem matcher_outcome_witness:
  "\<exists>s' sc. scIdToDockerIdMatcherThread sample_cid ''d'' sample_grow = Inr s' \<and> sc_heap (ec s') 0 = Some sc \<and>
     cid_docker_id (c_id sc) = ''d''"
proof -
  have i: "ctl_inv sample_grow"
    unfolding sample_grow_def by (rule sample_ctl_inv) (rule sample_ec_wf, simp add: sample_ec_def)
  have "um_find cid_key (sc_ac_map (ec sample_grow)) sample_cid = Some (Some sample_agent)"
    "um_find cid_key (subcontainers (ec sample_grow)) sample_cid = Some [0]" "get_sc_for_update_back (ec sample_grow) sample_cid = Inr 0"
    by (simp_all add: sample_grow_def sample_eval)
  then show ?thesis using matcher_outcome [OF i, of sample_cid "''d''"] by auto
qed

end
