(* ===== verification/Server_Accept.thy ===== *)
theory Server_Accept
  imports Gcm_Server
begin

text \<open>
  The accept loops of \<open>Server.cpp\<close>. \<open>serve_tcp\<close> hands each connection to a detached thread together
  with a pointer to the server's one address structure, which \<open>accept\<close> overwrites with every new
  connection; the thread reads the address when it starts to run. One round of the loop and the
  start of a thread are the steps of a small machine whose state is the shared address, the threads
  that have not read it yet, and those that have. \<open>accepted\<close> is the history of connections.

  \<open>serve_udp\<close> handles each datagram before it waits for the next. Both loops run forever; what is
  modelled is the work of any finite number of rounds.
\<close>

record accept_state =
  shared_addr :: u32
  waiting :: "i32 list"
  serving :: "(i32 \<times> u32) list"
  accepted :: "(i32 \<times> u32) list"

text \<open>What \<open>select\<close> and \<open>accept\<close> report in a round: readiness, the new descriptor, the peer's address.\<close>

record accept_round =
  is_set :: bool
  new_fd :: i32
  peer :: u32

definition serve_tcp_round :: "accept_round \<Rightarrow> accept_state \<Rightarrow> accept_state" where
  "serve_tcp_round r s =
     (if is_set r \<and> 0 < sint (new_fd r)
      then s\<lparr>shared_addr := peer r, waiting := waiting s @ [new_fd r], accepted := accepted s @ [(new_fd r, peer r)]\<rparr>
      else s)"

text \<open>The beginning of \<open>handle_client_reqs_tcp\<close>: the thread at position \<open>i\<close> reads its arguments.\<close>

definition client_thread_begin :: "nat \<Rightarrow> accept_state \<Rightarrow> accept_state" where
  "client_thread_begin i s =
     s\<lparr>waiting := take i (waiting s) @ drop (Suc i) (waiting s), serving := serving s @ [(waiting s ! i, shared_addr s)]\<rparr>"

definition serve_tcp_start :: "Server \<Rightarrow> u32 \<Rightarrow> accept_state result" where
  "serve_tcp_start srv addr = bind_r (serve_guard srv) (\<lambda>u.
     Inr \<lparr>shared_addr = addr, waiting = [], serving = [], accepted = []\<rparr>)"

inductive accept_step :: "accept_state \<Rightarrow> accept_state \<Rightarrow> bool" where
  round: "accept_step s (serve_tcp_round r s)"
| begin_thread: "i < length (waiting s) \<Longrightarrow> accept_step s (client_thread_begin i s)"

inductive_cases accept_stepE: "accept_step s s'"

inductive accept_reach :: "accept_state \<Rightarrow> bool" where
  start: "serve_tcp_start srv addr = Inr s \<Longrightarrow> accept_reach s"
| later: "accept_reach s \<Longrightarrow> accept_step s s' \<Longrightarrow> accept_reach s'"

text \<open>The UDP loop over the rounds in which the socket was readable, each at its time.\<close>

fun serve_udp_rounds ::
  "'s handler \<Rightarrow> indeterminate \<Rightarrow> (int \<times> bool \<times> u8 list) list \<Rightarrow> Server \<Rightarrow> 's \<Rightarrow> (u8 list list \<times> Server \<times> 's) result" where
  "serve_udp_rounds hreq indet [] srv s = Inr ([], srv, s)"
| "serve_udp_rounds hreq indet ((now, ready, datagram) # rounds) srv s =
     (if ready then
        bind_r (handle_client_reqs_udp hreq indet now datagram srv s) (\<lambda>(sent, srv, s).
        bind_r (serve_udp_rounds hreq indet rounds srv s) (\<lambda>(sent', srv, s). Inr (sent @ sent', srv, s)))
      else serve_udp_rounds hreq indet rounds srv s)"

definition serve_udp ::
  "'s handler \<Rightarrow> indeterminate \<Rightarrow> (int \<times> bool \<times> u8 list) list \<Rightarrow> Server \<Rightarrow> 's \<Rightarrow> (u8 list list \<times> Server \<times> 's) result" where
  "serve_udp hreq indet rounds srv s = bind_r (serve_guard srv) (\<lambda>u. serve_udp_rounds hreq indet rounds srv s)"

section \<open>Lemmas\<close>

definition accept_inv :: "accept_state \<Rightarrow> bool" where
  "accept_inv s \<longleftrightarrow> (accepted s \<noteq> [] \<longrightarrow> shared_addr s = snd (last (accepted s))) \<and>
     set (map fst (serving s)) \<union> set (waiting s) = set (map fst (accepted s)) \<and>
     length (serving s) + length (waiting s) = length (accepted s) \<and> snd ` set (serving s) \<subseteq> snd ` set (accepted s)"

lemma set_without: "i < length xs \<Longrightarrow> set xs = insert (xs ! i) (set (take i xs @ drop (Suc i) xs))"
  by (metis id_take_nth_drop insert_is_Un set_append list.simps(15) Un_insert_right)

lemma accept_step_inv: "accept_step s s' \<Longrightarrow> accept_inv s \<Longrightarrow> accept_inv s'"
proof (erule accept_stepE)
  fix r assume "s' = serve_tcp_round r s" "accept_inv s"
  then show "accept_inv s'" by (auto simp: accept_inv_def serve_tcp_round_def)
next
  fix i assume i: "s' = client_thread_begin i s" "i < length (waiting s)" and inv: "accept_inv s"
  have "accepted s \<noteq> []" using inv i(2) by (auto simp: accept_inv_def)
  then have "shared_addr s \<in> snd ` set (accepted s)" using inv by (simp add: accept_inv_def)
  then show "accept_inv s'" using inv i set_without [OF i(2)]
    by (auto simp: accept_inv_def client_thread_begin_def min_def)
qed

lemma accept_reach_inv: "accept_reach s \<Longrightarrow> accept_inv s"
proof (induction rule: accept_reach.induct)
  case (start srv addr s)
  then show ?case by (auto simp: serve_tcp_start_def serve_guard_def accept_inv_def split: if_splits)
next
  case (later s s')
  then show ?case by (blast intro: accept_step_inv)
qed

text \<open>Connections that come one at a time: each thread starts before the next round.\<close>

primrec one_by_one :: "(i32 \<times> u32) list \<Rightarrow> accept_state \<Rightarrow> accept_state" where
  "one_by_one [] s = s"
| "one_by_one (c # cs) s =
     one_by_one cs (client_thread_begin 0 (serve_tcp_round \<lparr>is_set = True, new_fd = fst c, peer = snd c\<rparr> s))"

lemma one_by_one_serving:
  "waiting s = [] \<Longrightarrow> \<forall>c \<in> set cs. 0 < sint (fst c) \<Longrightarrow> serving (one_by_one cs s) = serving s @ cs"
  by (induction cs arbitrary: s) (auto simp: serve_tcp_round_def client_thread_begin_def)

section \<open>Properties\<close>

text \<open>
  C40: which address a connection is handled under. In every reachable state each thread has been
  given the address of some accepted connection, and a thread that starts now works under the
  address of the connection accepted last, whichever connection it was created for.
\<close>

theorem thread_address:
  assumes "accept_reach s" and "i < length (waiting s)"
  shows "serving (client_thread_begin i s) = serving s @ [(waiting s ! i, snd (last (accepted s)))] \<and>
    snd ` set (serving (client_thread_begin i s)) \<subseteq> snd ` set (accepted s)"
proof -
  have inv: "accept_inv s" by (rule accept_reach_inv) fact
  then have "accepted s \<noteq> []" using assms(2) by (auto simp: accept_inv_def)
  with inv show ?thesis by (auto simp: accept_inv_def client_thread_begin_def)
qed

text \<open>Two connections accepted before either thread runs: the first is handled under the second's address.\<close>

theorem thread_address_witness:
  "\<exists>s. accept_reach s \<and> accepted s = [(5, 1), (6, 2)] \<and> serving (client_thread_begin 0 s) = [(5, 2)]"
proof -
  let ?srv = "(Server_new 3 4 1 ip4_default (ports_new 1 2) [])\<lparr>server_initialized := 2\<rparr>"
  let ?r = "\<lambda>f a. \<lparr>is_set = True, new_fd = f, peer = a\<rparr>"
  let ?init = "\<lparr>shared_addr = 0, waiting = [], serving = [], accepted = []\<rparr>"
  let ?s = "serve_tcp_round (?r 6 2) (serve_tcp_round (?r 5 1) ?init)"
  have "accept_reach ?init" by (rule accept_reach.start [of ?srv 0]) (simp add: serve_tcp_start_def serve_guard_def)
  then have "accept_reach (serve_tcp_round (?r 5 1) ?init)" by (rule accept_reach.later) (rule accept_step.round)
  then have reach: "accept_reach ?s" by (rule accept_reach.later) (rule accept_step.round)
  have "waiting ?s = [5, 6]" "accepted ?s = [(5, 1), (6, 2)]" "serving ?s = []" by (simp_all add: serve_tcp_round_def)
  then show ?thesis using thread_address [OF reach, of 0] reach by (intro exI [of _ ?s]) simp
qed

text \<open>
  When every thread has started before the next connection is accepted, each connection is
  handled under its own address, in the order of the connections.
\<close>

theorem prompt_threads_correct:
  assumes "serve_tcp_start srv addr = Inr s" and "\<forall>c \<in> set cs. 0 < sint (fst c)"
  shows "serving (one_by_one cs s) = cs"
proof -
  have "waiting s = []" "serving s = []" using assms(1) by (auto simp: serve_tcp_start_def serve_guard_def split: if_splits)
  then show ?thesis using one_by_one_serving [of s cs] assms(2) by simp
qed

theorem prompt_threads_correct_witness:
  "\<exists>s. serve_tcp_start ((Server_new 3 4 1 ip4_default (ports_new 1 2) [])\<lparr>server_initialized := 2\<rparr>) 0 = Inr s \<and>
     serving (one_by_one [(5, 1), (6, 2)] s) = [(5, 1), (6, 2)]"
  using prompt_threads_correct [of "(Server_new 3 4 1 ip4_default (ports_new 1 2) [])\<lparr>server_initialized := 2\<rparr>" 0 _ "[(5, 1), (6, 2)]"]
  by (simp add: serve_tcp_start_def serve_guard_def)

end
