(* ===== verification/Om_Packet.thy ===== *)
theory Om_Packet
  imports Msg_Types
begin

text \<open>
  The packet classes of \<open>om.h\<close>: \<open>packet_header\<close> and its subclasses for Ethernet, ARP, IPv4, ICMP, TCP
  and UDP, \<open>ip4_flow_key\<close> with its order and hash, and \<open>mac_addr::write\<close>.

  A header object points to bytes, its own or the caller's; \<open>ph_buf\<close> is the memory from that pointer
  on, as far as it belongs to the same object, and reading or writing past its end is undefined.
  A setter of a header on a caller's buffer writes to that buffer: the new \<open>ph_buf\<close> is its contents.
  Fields are at the offsets of the C library's structures; multi-byte members are read and written
  in the byte order of the host (little-endian).

  Each settable field is an instance of the locale \<open>header_field\<close>: what was set is read back, no byte
  outside the field changes, and the getter looks at no other byte. Two fields that do not overlap
  do not influence each other (\<open>separate_fields\<close>).
\<close>

section \<open>Headers\<close>

record packet_header =
  ph_alloc :: bool
  ph_buf :: "u8 list"
  ph_len :: nat

definition packet_header_new :: "nat \<Rightarrow> packet_header" where
  "packet_header_new len = \<lparr>ph_alloc = True, ph_buf = replicate len 0, ph_len = len\<rparr>"

definition packet_header_of :: "u8 list \<Rightarrow> packet_header" where
  "packet_header_of buf = \<lparr>ph_alloc = False, ph_buf = buf, ph_len = 0\<rparr>"

definition header_len :: "packet_header \<Rightarrow> nat" where
  "header_len h = ph_len h"

definition header_write :: "packet_header \<Rightarrow> u8 list \<Rightarrow> u8 list result" where
  "header_write h dst =
     (if length (ph_buf h) < header_len h \<or> length dst < header_len h then Inl Undefined_Behaviour
      else Inr (take (header_len h) (ph_buf h) @ drop (header_len h) dst))"

text \<open>Reading and writing members of a structure laid over the buffer.\<close>

definition le16_at :: "u8 list \<Rightarrow> nat \<Rightarrow> u16" where
  "le16_at b i = ucast (b ! i) OR push_bit 8 (ucast (b ! (i + 1)))"

definition le16 :: "u16 \<Rightarrow> u8 list" where
  "le16 w = [ucast w, ucast (drop_bit 8 w)]"

definition put_bytes :: "nat \<Rightarrow> u8 list \<Rightarrow> u8 list \<Rightarrow> u8 list" where
  "put_bytes i bs b = take i b @ bs @ drop (i + length bs) b"

definition get_member :: "nat \<Rightarrow> nat \<Rightarrow> (u8 list \<Rightarrow> 'a) \<Rightarrow> packet_header \<Rightarrow> 'a result" where
  "get_member i n f h = (if length (ph_buf h) < i + n then Inl Undefined_Behaviour else Inr (f (ph_buf h)))"

definition set_member :: "nat \<Rightarrow> u8 list \<Rightarrow> packet_header \<Rightarrow> packet_header result" where
  "set_member i bs h = (if length (ph_buf h) < i + length bs then Inl Undefined_Behaviour
     else Inr (h\<lparr>ph_buf := put_bytes i bs (ph_buf h)\<rparr>))"

definition mac_from_buf :: "u8 list \<Rightarrow> nat \<Rightarrow> mac_addr" where
  "mac_from_buf b i = Mac (b ! i) (b ! (i + 1)) (b ! (i + 2)) (b ! (i + 3)) (b ! (i + 4)) (b ! (i + 5))"

fun mac_write :: "mac_addr \<Rightarrow> u8 list" where
  "mac_write (Mac a b c d e f) = [a, b, c, d, e, f]"

subsection \<open>Ethernet\<close>

definition ethernet_header_new :: packet_header where
  "ethernet_header_new = packet_header_new 14"

definition ethernet_header_of :: "u8 list \<Rightarrow> packet_header" where
  "ethernet_header_of buf = (packet_header_of buf)\<lparr>ph_len := 14\<rparr>"

definition eth_dest_addr :: "packet_header \<Rightarrow> mac_addr result" where
  "eth_dest_addr = get_member 0 6 (\<lambda>b. mac_from_buf b 0)"

definition eth_set_dest_addr :: "mac_addr \<Rightarrow> packet_header \<Rightarrow> packet_header result" where
  "eth_set_dest_addr a = set_member 0 (mac_write a)"

definition eth_src_addr :: "packet_header \<Rightarrow> mac_addr result" where
  "eth_src_addr = get_member 6 6 (\<lambda>b. mac_from_buf b 6)"

definition eth_set_src_addr :: "mac_addr \<Rightarrow> packet_header \<Rightarrow> packet_header result" where
  "eth_set_src_addr a = set_member 6 (mac_write a)"

definition ether_type :: "packet_header \<Rightarrow> u16 result" where
  "ether_type = get_member 12 2 (\<lambda>b. reverse_byte_order16 (le16_at b 12))"

definition set_ether_type :: "u16 \<Rightarrow> packet_header \<Rightarrow> packet_header result" where
  "set_ether_type t = set_member 12 (le16 (reverse_byte_order16 t))"

subsection \<open>ARP\<close>

definition arp_header_new :: packet_header where
  "arp_header_new = packet_header_new (8 + 20)"

definition arp_header_of :: "u8 list \<Rightarrow> packet_header" where
  "arp_header_of buf = (packet_header_of buf)\<lparr>ph_len := 28\<rparr>"

definition hardware_type :: "packet_header \<Rightarrow> u16 result" where
  "hardware_type = get_member 0 2 (\<lambda>b. reverse_byte_order16 (le16_at b 0))"

definition protocol_type :: "packet_header \<Rightarrow> u16 result" where
  "protocol_type = get_member 2 2 (\<lambda>b. reverse_byte_order16 (le16_at b 2))"

definition arp_operation :: "packet_header \<Rightarrow> u16 result" where
  "arp_operation = get_member 6 2 (\<lambda>b. reverse_byte_order16 (le16_at b 6))"

definition sender_hardware_addr :: "packet_header \<Rightarrow> mac_addr result" where
  "sender_hardware_addr = get_member 8 6 (\<lambda>b. mac_from_buf b 8)"

definition sender_protocol_addr :: "packet_header \<Rightarrow> ip4_addr result" where
  "sender_protocol_addr = get_member 14 4 (\<lambda>b. from_bytes (b ! 14) (b ! 15) (b ! 16) (b ! 17))"

definition target_hardware_addr :: "packet_header \<Rightarrow> mac_addr result" where
  "target_hardware_addr = get_member 18 6 (\<lambda>b. mac_from_buf b 18)"

definition target_protocol_addr :: "packet_header \<Rightarrow> ip4_addr result" where
  "target_protocol_addr = get_member 24 4 (\<lambda>b. from_bytes (b ! 24) (b ! 25) (b ! 26) (b ! 27))"

subsection \<open>IPv4\<close>

text \<open>\<open>ip_hl\<close> is the lower and \<open>ip_v\<close> the upper half of the first byte.\<close>

definition with_ip_hl :: "u32 \<Rightarrow> u8 \<Rightarrow> u8" where
  "with_ip_hl x b = (b AND 0xf0) OR (ucast x AND 0x0f)"

definition with_ip_v :: "u32 \<Rightarrow> u8 \<Rightarrow> u8" where
  "with_ip_v x b = (b AND 0x0f) OR push_bit 4 (ucast x AND 0x0f)"

definition get_ip_hl :: "u8 \<Rightarrow> u8" where
  "get_ip_hl b = b AND 0x0f"

definition get_ip_v :: "u8 \<Rightarrow> u8" where
  "get_ip_v b = drop_bit 4 b"

definition ip4_header_new :: packet_header where
  "ip4_header_new = (packet_header_new 20)\<lparr>ph_buf := put_bytes 0 [with_ip_hl 5 (with_ip_v 4 0)] (replicate 20 0)\<rparr>"

text \<open>The constructor writes the version and the length into the buffer it is given.\<close>

definition ip4_header_of :: "u8 list \<Rightarrow> packet_header result" where
  "ip4_header_of buf =
     (if buf = [] then Inl Undefined_Behaviour
      else let b1 = (if get_ip_hl (buf ! 0) \<noteq> 5 then buf[0 := with_ip_hl 5 (buf ! 0)] else buf);
               b2 = (if get_ip_v (b1 ! 0) \<noteq> 4 then b1[0 := with_ip_v 4 (b1 ! 0)] else b1)
           in Inr ((packet_header_of b2)\<lparr>ph_len := unat (get_ip_hl (b2 ! 0)) * 4\<rparr>))"

definition set_ip_v :: "u32 \<Rightarrow> packet_header \<Rightarrow> packet_header result" where
  "set_ip_v x h = (if ph_buf h = [] then Inl Undefined_Behaviour
     else Inr (h\<lparr>ph_buf := (ph_buf h)[0 := with_ip_v x (ph_buf h ! 0)]\<rparr>))"

definition set_ip_hl :: "u32 \<Rightarrow> packet_header \<Rightarrow> packet_header result" where
  "set_ip_hl x h = (if ph_buf h = [] then Inl Undefined_Behaviour
     else Inr (h\<lparr>ph_buf := (ph_buf h)[0 := with_ip_hl x (ph_buf h ! 0)]\<rparr>))"

definition total_len :: "packet_header \<Rightarrow> u16 result" where
  "total_len = get_member 2 2 (\<lambda>b. reverse_byte_order16 (le16_at b 2))"

definition set_total_len :: "u16 \<Rightarrow> packet_header \<Rightarrow> packet_header result" where
  "set_total_len x = set_member 2 (le16 (reverse_byte_order16 x))"

definition ip_id :: "packet_header \<Rightarrow> u16 result" where
  "ip_id = get_member 4 2 (\<lambda>b. reverse_byte_order16 (le16_at b 4))"

definition set_ip_id :: "u16 \<Rightarrow> packet_header \<Rightarrow> packet_header result" where
  "set_ip_id x = set_member 4 (le16 (reverse_byte_order16 x))"

definition ttl :: "packet_header \<Rightarrow> u8 result" where
  "ttl = get_member 8 1 (\<lambda>b. b ! 8)"

definition set_ttl :: "u8 \<Rightarrow> packet_header \<Rightarrow> packet_header result" where
  "set_ttl x = set_member 8 [x]"

definition proto :: "packet_header \<Rightarrow> u8 result" where
  "proto = get_member 9 1 (\<lambda>b. b ! 9)"

definition set_proto :: "u8 \<Rightarrow> packet_header \<Rightarrow> packet_header result" where
  "set_proto x = set_member 9 [x]"

definition ip_src_addr :: "packet_header \<Rightarrow> ip4_addr result" where
  "ip_src_addr = get_member 12 4 (\<lambda>b. from_net (le32_at b 12))"

definition ip_set_src_addr :: "ip4_addr \<Rightarrow> packet_header \<Rightarrow> packet_header result" where
  "ip_set_src_addr a = set_member 12 (le32 (to_uint32 a))"

definition ip_dest_addr :: "packet_header \<Rightarrow> ip4_addr result" where
  "ip_dest_addr = get_member 16 4 (\<lambda>b. from_net (le32_at b 16))"

definition ip_set_dest_addr :: "ip4_addr \<Rightarrow> packet_header \<Rightarrow> packet_header result" where
  "ip_set_dest_addr a = set_member 16 (le32 (to_uint32 a))"

subsection \<open>ICMP, TCP and UDP\<close>

definition icmp_header_new :: packet_header where
  "icmp_header_new = packet_header_new 8"

definition icmp_header_of :: "u8 list \<Rightarrow> packet_header" where
  "icmp_header_of buf = (packet_header_of buf)\<lparr>ph_len := 8\<rparr>"

definition icmp_type :: "packet_header \<Rightarrow> u8 result" where
  "icmp_type = get_member 0 1 (\<lambda>b. b ! 0)"

definition icmp_code :: "packet_header \<Rightarrow> u8 result" where
  "icmp_code = get_member 1 1 (\<lambda>b. b ! 1)"

definition tcp_header_new :: packet_header where
  "tcp_header_new = packet_header_new 20"

definition tcp_header_of :: "u8 list \<Rightarrow> packet_header" where
  "tcp_header_of buf = (packet_header_of buf)\<lparr>ph_len := 20\<rparr>"

definition tcp_src_port :: "packet_header \<Rightarrow> u16 result" where
  "tcp_src_port = get_member 0 2 (\<lambda>b. reverse_byte_order16 (le16_at b 0))"

definition tcp_dest_port :: "packet_header \<Rightarrow> u16 result" where
  "tcp_dest_port = get_member 2 2 (\<lambda>b. reverse_byte_order16 (le16_at b 2))"

definition seq_no :: "packet_header \<Rightarrow> u32 result" where
  "seq_no = get_member 4 4 (\<lambda>b. reverse_byte_order32 (le32_at b 4))"

definition ack_no :: "packet_header \<Rightarrow> u32 result" where
  "ack_no = get_member 8 4 (\<lambda>b. reverse_byte_order32 (le32_at b 8))"

definition tcp_flags :: "packet_header \<Rightarrow> u8 result" where
  "tcp_flags = get_member 13 1 (\<lambda>b. b ! 13)"

definition window_size :: "packet_header \<Rightarrow> u16 result" where
  "window_size = get_member 14 2 (\<lambda>b. reverse_byte_order16 (le16_at b 14))"

definition udp_header_new :: packet_header where
  "udp_header_new = packet_header_new 8"

definition udp_header_of :: "u8 list \<Rightarrow> packet_header" where
  "udp_header_of buf = (packet_header_of buf)\<lparr>ph_len := 8\<rparr>"

definition udp_src_port :: "packet_header \<Rightarrow> u16 result" where
  "udp_src_port = get_member 0 2 (\<lambda>b. reverse_byte_order16 (le16_at b 0))"

definition udp_set_src_port :: "u16 \<Rightarrow> packet_header \<Rightarrow> packet_header result" where
  "udp_set_src_port x = set_member 0 (le16 (reverse_byte_order16 x))"

definition udp_dest_port :: "packet_header \<Rightarrow> u16 result" where
  "udp_dest_port = get_member 2 2 (\<lambda>b. reverse_byte_order16 (le16_at b 2))"

definition udp_set_dest_port :: "u16 \<Rightarrow> packet_header \<Rightarrow> packet_header result" where
  "udp_set_dest_port x = set_member 2 (le16 (reverse_byte_order16 x))"

definition payload_length :: "packet_header \<Rightarrow> u16 result" where
  "payload_length = get_member 4 2 (\<lambda>b. reverse_byte_order16 (le16_at b 4))"

definition set_payload_length :: "u16 \<Rightarrow> packet_header \<Rightarrow> packet_header result" where
  "set_payload_length x = set_member 4 (le16 (reverse_byte_order16 x))"

section \<open>Flow keys\<close>

record ip4_flow_key =
  fk_ip_src :: ip4_addr
  fk_ip_dst :: ip4_addr
  fk_tp_src :: u16
  fk_tp_dst :: u16
  fk_ip_proto :: u8

definition flow_key_default :: ip4_flow_key where
  "flow_key_default = \<lparr>fk_ip_src = ip4_default, fk_ip_dst = ip4_default, fk_tp_src = 0, fk_tp_dst = 0, fk_ip_proto = 0\<rparr>"

definition flow_key_new :: "ip4_addr \<Rightarrow> ip4_addr \<Rightarrow> u16 \<Rightarrow> u16 \<Rightarrow> u8 \<Rightarrow> ip4_flow_key" where
  "flow_key_new s d ts td p = \<lparr>fk_ip_src = s, fk_ip_dst = d, fk_tp_src = ts, fk_tp_dst = td, fk_ip_proto = p\<rparr>"

definition flow_key_eq :: "ip4_flow_key \<Rightarrow> ip4_flow_key \<Rightarrow> bool" where
  "flow_key_eq a b \<longleftrightarrow> fk_ip_src a = fk_ip_src b \<and> fk_ip_dst a = fk_ip_dst b \<and> fk_ip_proto a = fk_ip_proto b \<and>
     fk_tp_src a = fk_tp_src b \<and> fk_tp_dst a = fk_tp_dst b"

definition flow_key_less :: "ip4_flow_key \<Rightarrow> ip4_flow_key \<Rightarrow> bool" where
  "flow_key_less a b \<longleftrightarrow> ip4_less (fk_ip_src a) (fk_ip_src b) \<or> ip4_less (fk_ip_dst a) (fk_ip_dst b) \<or>
     fk_ip_proto a < fk_ip_proto b \<or> fk_tp_src a < fk_tp_src b \<or> fk_tp_dst a < fk_tp_dst b"

text \<open>
  Reading a flow key from the bytes of a packet also returns the buffer, which the \<open>ip4_header\<close>
  constructor may have changed. The destination is set from \<open>src_addr()\<close>, as in the source.
\<close>

definition from_ip4_bytes :: "u8 list \<Rightarrow> (ip4_flow_key \<times> u8 list) result" where
  "from_ip4_bytes buf =
     bind_r (ip4_header_of buf) (\<lambda>ip.
     bind_r (ip_src_addr ip) (\<lambda>src.
     bind_r (ip_src_addr ip) (\<lambda>dst.
     bind_r (proto ip) (\<lambda>p.
     let key = flow_key_default\<lparr>fk_ip_src := src, fk_ip_dst := dst, fk_ip_proto := p\<rparr>; b = ph_buf ip in
     if p = 6 then
       bind_r (tcp_src_port (tcp_header_of (drop 20 b))) (\<lambda>ts.
       bind_r (tcp_dest_port (tcp_header_of (drop 20 b))) (\<lambda>td.
       Inr (key\<lparr>fk_tp_src := ts, fk_tp_dst := td\<rparr>, b)))
     else if p = 17 then
       bind_r (udp_src_port (udp_header_of (drop 20 b))) (\<lambda>ts.
       bind_r (udp_dest_port (udp_header_of (drop 20 b))) (\<lambda>td.
       Inr (key\<lparr>fk_tp_src := ts, fk_tp_dst := td\<rparr>, b)))
     else Inr (key, b)))))"

definition hash_flow_key :: "ip4_flow_key \<Rightarrow> u64" where
  "hash_flow_key d =
     (let a = (push_bit 32 (ucast (to_uint32 (fk_ip_src d))) OR push_bit 0 (ucast (to_uint32 (fk_ip_dst d))) :: u64);
          b = (push_bit 24 (ucast (fk_tp_src d)) OR push_bit 8 (ucast (fk_tp_dst d)) OR push_bit 0 (ucast (fk_ip_proto d)) :: u64)
      in a XOR (b + 0x9e3779b9 + push_bit 6 a + drop_bit 2 b))"

section \<open>Lemmas\<close>

lemma length_put_bytes [simp]: "i + length bs \<le> length b \<Longrightarrow> length (put_bytes i bs b) = length b"
  by (simp add: put_bytes_def)

lemma nth_put_bytes:
  "i + length bs \<le> length b \<Longrightarrow> j < length b \<Longrightarrow>
     put_bytes i bs b ! j = (if i \<le> j \<and> j < i + length bs then bs ! (j - i) else b ! j)"
  by (auto simp: put_bytes_def nth_append min_def)

lemma put_bytes_commute:
  assumes "i + length bs \<le> j \<or> j + length cs \<le> i" "i + length bs \<le> length b" "j + length cs \<le> length b"
  shows "put_bytes j cs (put_bytes i bs b) = put_bytes i bs (put_bytes j cs b)"
  using assms by (intro nth_equalityI) (auto simp: nth_put_bytes)

lemma length_le16 [simp]: "length (le16 w) = 2"
  by (simp add: le16_def)

lemma length_mac_write [simp]: "length (mac_write m) = 6"
  by (cases m) simp

lemma le16_at_put: "i + 2 \<le> length b \<Longrightarrow> le16_at (put_bytes i (le16 w) b) i = w"
  by (rule u16_eqI) (simp add: le16_at_def le16_def nth_put_bytes bit_simps upt_0_2 bit_u8_high)

lemma le32_at_put: "i + 4 \<le> length b \<Longrightarrow> le32_at (put_bytes i (le32 w) b) i = w"
  using le32_at_head [of w "[]"] by (simp add: le32_at_def nth_put_bytes numeral_2_eq_2)

lemma mac_from_put: "i + 6 \<le> length b \<Longrightarrow> mac_from_buf (put_bytes i (mac_write m) b) i = m"
  by (cases m) (simp add: mac_from_buf_def nth_put_bytes)

lemma set_member_eq_Inr:
  "set_member i bs h = Inr h' \<longleftrightarrow> i + length bs \<le> length (ph_buf h) \<and> h' = h\<lparr>ph_buf := put_bytes i bs (ph_buf h)\<rparr>"
  by (auto simp: set_member_def)

subsection \<open>Fields\<close>

locale header_field =
  fixes get :: "packet_header \<Rightarrow> 'a result"
    and set_to :: "'a \<Rightarrow> packet_header \<Rightarrow> packet_header result"
    and off :: nat
    and width :: nat
  assumes set_fits: "off + width \<le> length (ph_buf h) \<Longrightarrow>
      \<exists>bs. length bs = width \<and> set_to v h = Inr (h\<lparr>ph_buf := put_bytes off bs (ph_buf h)\<rparr>)"
    and set_short: "length (ph_buf h) < off + width \<Longrightarrow> set_to v h = Inl Undefined_Behaviour"
    and get_short: "length (ph_buf h) < off + width \<Longrightarrow> get h = Inl Undefined_Behaviour"
    and get_local: "off + width \<le> length (ph_buf h) \<Longrightarrow> off + width \<le> length (ph_buf h') \<Longrightarrow>
      (\<And>i. off \<le> i \<Longrightarrow> i < off + width \<Longrightarrow> ph_buf h ! i = ph_buf h' ! i) \<Longrightarrow> get h = get h'"
    and get_set: "set_to v h = Inr h' \<Longrightarrow> get h' = Inr v"
begin

lemma set_eq_Inr:
  assumes "set_to v h = Inr h'"
  obtains bs where "length bs = width" "off + width \<le> length (ph_buf h)" "h' = h\<lparr>ph_buf := put_bytes off bs (ph_buf h)\<rparr>"
proof -
  have fits: "off + width \<le> length (ph_buf h)" using assms set_short [of h v] by (cases "length (ph_buf h) < off + width") auto
  obtain bs where "length bs = width" "set_to v h = Inr (h\<lparr>ph_buf := put_bytes off bs (ph_buf h)\<rparr>)"
    using set_fits [OF fits] by blast
  with assms fits show thesis by (intro that) auto
qed

lemma set_keeps:
  assumes "set_to v h = Inr h'"
  shows "length (ph_buf h') = length (ph_buf h)" "ph_len h' = ph_len h" "ph_alloc h' = ph_alloc h"
    "i < length (ph_buf h) \<Longrightarrow> i < off \<or> off + width \<le> i \<Longrightarrow> ph_buf h' ! i = ph_buf h ! i"
proof -
  obtain bs where "length bs = width" "off + width \<le> length (ph_buf h)" "h' = h\<lparr>ph_buf := put_bytes off bs (ph_buf h)\<rparr>"
    using assms by (rule set_eq_Inr)
  then show "length (ph_buf h') = length (ph_buf h)" "ph_len h' = ph_len h" "ph_alloc h' = ph_alloc h"
    "i < length (ph_buf h) \<Longrightarrow> i < off \<or> off + width \<le> i \<Longrightarrow> ph_buf h' ! i = ph_buf h ! i"
    by (auto simp: nth_put_bytes)
qed

lemma set_defined: "(\<exists>h'. set_to v h = Inr h') \<longleftrightarrow> off + width \<le> length (ph_buf h)"
  using set_fits [of h v] set_short [of h v] by (cases "off + width \<le> length (ph_buf h)") auto

text \<open>A field is carried by writing the header out and laying a new header over the copy.\<close>

lemma get_written:
  assumes "header_write h dst = Inr b" "off + width \<le> ph_len h" "ph_buf k = b @ c"
  shows "get k = get h"
  using assms by (intro get_local) (auto simp: header_write_def header_len_def nth_append split: if_splits)

text \<open>Equal lengths and equal bytes in the field are enough to read the same.\<close>

lemma get_cong:
  assumes "length (ph_buf h') = length (ph_buf h)"
    and "\<And>i. off \<le> i \<Longrightarrow> i < off + width \<Longrightarrow> i < length (ph_buf h) \<Longrightarrow> ph_buf h' ! i = ph_buf h ! i"
  shows "get h' = get h"
proof (cases "off + width \<le> length (ph_buf h)")
  case True
  with assms show ?thesis by (intro get_local) auto
next
  case False
  with assms(1) show ?thesis by (simp add: get_short)
qed

end

locale separate_fields =
  a: header_field get1 set1 off1 width1 + b: header_field get2 set2 off2 width2
  for get1 :: "packet_header \<Rightarrow> 'a result" and set1 :: "'a \<Rightarrow> packet_header \<Rightarrow> packet_header result"
    and off1 :: nat and width1 :: nat
    and get2 :: "packet_header \<Rightarrow> 'b result" and set2 :: "'b \<Rightarrow> packet_header \<Rightarrow> packet_header result"
    and off2 :: nat and width2 :: nat +
  assumes apart: "off1 + width1 \<le> off2 \<or> off2 + width2 \<le> off1"
begin

lemma get2_set1: "set1 v h = Inr h' \<Longrightarrow> get2 h' = get2 h"
  using apart a.set_keeps(1,4) by (intro b.get_cong) auto

lemma get1_set2: "set2 v h = Inr h' \<Longrightarrow> get1 h' = get1 h"
  using apart b.set_keeps(1,4) by (intro a.get_cong) auto

lemma both_set:
  assumes "set1 v h = Inr h1" and "set2 w h1 = Inr h2"
  shows "get1 h2 = Inr v \<and> get2 h2 = Inr w"
  using a.get_set [OF assms(1)] b.get_set [OF assms(2)] get1_set2 [OF assms(2)] by simp

end

text \<open>The members of the structures are fields.\<close>

lemma member_field:
  assumes "\<And>v. length (g v) = n" "\<And>v b. i + n \<le> length b \<Longrightarrow> f (put_bytes i (g v) b) = v"
    and "\<And>b c. (\<And>j. i \<le> j \<Longrightarrow> j < i + n \<Longrightarrow> b ! j = c ! j) \<Longrightarrow> f b = f c"
  shows "header_field (get_member i n f) (\<lambda>v. set_member i (g v)) i n"
proof
  fix h v
  show "i + n \<le> length (ph_buf h) \<Longrightarrow>
      \<exists>bs. length bs = n \<and> set_member i (g v) h = Inr (h\<lparr>ph_buf := put_bytes i bs (ph_buf h)\<rparr>)"
    using assms(1) by (auto simp: set_member_def)
  show "length (ph_buf h) < i + n \<Longrightarrow> set_member i (g v) h = Inl Undefined_Behaviour"
    using assms(1) by (simp add: set_member_def)
  show "length (ph_buf h) < i + n \<Longrightarrow> get_member i n f h = Inl Undefined_Behaviour"
    by (simp add: get_member_def)
  fix h'
  show "i + n \<le> length (ph_buf h) \<Longrightarrow> i + n \<le> length (ph_buf h') \<Longrightarrow>
      (\<And>j. i \<le> j \<Longrightarrow> j < i + n \<Longrightarrow> ph_buf h ! j = ph_buf h' ! j) \<Longrightarrow> get_member i n f h = get_member i n f h'"
    using assms(3) [of "ph_buf h" "ph_buf h'"] by (simp add: get_member_def)
  show "set_member i (g v) h = Inr h' \<Longrightarrow> get_member i n f h' = Inr v"
    using assms(1,2) by (auto simp: set_member_eq_Inr get_member_def)
qed

lemma member_fields:
  "header_field (get_member i 2 (\<lambda>b. reverse_byte_order16 (le16_at b i))) (\<lambda>v. set_member i (le16 (reverse_byte_order16 v))) i 2"
  "header_field (get_member i 4 (\<lambda>b. from_net (le32_at b i))) (\<lambda>v. set_member i (le32 (to_uint32 v))) i 4"
  "header_field (get_member i 6 (\<lambda>b. mac_from_buf b i)) (\<lambda>v. set_member i (mac_write v)) i 6"
  "header_field (get_member i 1 (\<lambda>b. b ! i)) (\<lambda>v. set_member i [v]) i 1"
     apply (rule member_field, simp, simp add: le16_at_put reverse_byte_order16_invol, simp add: le16_at_def)
    apply (rule member_field, simp, simp add: le32_at_put from_net_def to_uint32_def, simp add: le32_at_def)
   apply (rule member_field, simp, simp add: mac_from_put, simp add: mac_from_buf_def)
  apply (rule member_field, simp, simp add: nth_put_bytes, simp)
  done

interpretation eth_dest: header_field eth_dest_addr eth_set_dest_addr 0 6
  unfolding eth_dest_addr_def eth_set_dest_addr_def [abs_def] by (rule member_fields)

interpretation eth_src: header_field eth_src_addr eth_set_src_addr 6 6
  unfolding eth_src_addr_def eth_set_src_addr_def [abs_def] by (rule member_fields)

interpretation eth_type: header_field ether_type set_ether_type 12 2
  unfolding ether_type_def set_ether_type_def [abs_def] by (rule member_fields)

interpretation ip_length: header_field total_len set_total_len 2 2
  unfolding total_len_def set_total_len_def [abs_def] by (rule member_fields)

interpretation ip_ident: header_field ip_id set_ip_id 4 2
  unfolding ip_id_def set_ip_id_def [abs_def] by (rule member_fields)

interpretation ip_ttl: header_field ttl set_ttl 8 1
  unfolding ttl_def set_ttl_def [abs_def] by (rule member_fields)

interpretation ip_proto: header_field proto set_proto 9 1
  unfolding proto_def set_proto_def [abs_def] by (rule member_fields)

interpretation ip_src: header_field ip_src_addr ip_set_src_addr 12 4
  unfolding ip_src_addr_def ip_set_src_addr_def [abs_def] by (rule member_fields)

interpretation ip_dest: header_field ip_dest_addr ip_set_dest_addr 16 4
  unfolding ip_dest_addr_def ip_set_dest_addr_def [abs_def] by (rule member_fields)

interpretation udp_src: header_field udp_src_port udp_set_src_port 0 2
  unfolding udp_src_port_def udp_set_src_port_def [abs_def] by (rule member_fields)

interpretation udp_dest: header_field udp_dest_port udp_set_dest_port 2 2
  unfolding udp_dest_port_def udp_set_dest_port_def [abs_def] by (rule member_fields)

interpretation udp_length: header_field payload_length set_payload_length 4 2
  unfolding payload_length_def set_payload_length_def [abs_def] by (rule member_fields)

interpretation eth_dest_src: separate_fields eth_dest_addr eth_set_dest_addr 0 6 eth_src_addr eth_set_src_addr 6 6
  by unfold_locales simp

interpretation eth_dest_type: separate_fields eth_dest_addr eth_set_dest_addr 0 6 ether_type set_ether_type 12 2
  by unfold_locales simp

interpretation eth_src_type: separate_fields eth_src_addr eth_set_src_addr 6 6 ether_type set_ether_type 12 2
  by unfold_locales simp

interpretation ip_src_dest: separate_fields ip_src_addr ip_set_src_addr 12 4 ip_dest_addr ip_set_dest_addr 16 4
  by unfold_locales simp

interpretation ip_src_proto: separate_fields ip_src_addr ip_set_src_addr 12 4 proto set_proto 9 1
  by unfold_locales simp

interpretation ip_dest_proto: separate_fields ip_dest_addr ip_set_dest_addr 16 4 proto set_proto 9 1
  by unfold_locales simp

interpretation udp_ports: separate_fields udp_src_port udp_set_src_port 0 2 udp_dest_port udp_set_dest_port 2 2
  by unfold_locales simp

interpretation udp_src_length: separate_fields udp_src_port udp_set_src_port 0 2 payload_length set_payload_length 4 2
  by unfold_locales simp

interpretation udp_dest_length: separate_fields udp_dest_port udp_set_dest_port 2 2 payload_length set_payload_length 4 2
  by unfold_locales simp

end
