(* ===== verification/Om_Text.thy ===== *)
theory Om_Text
  imports Om_Packet
begin

text \<open>
  Text forms in \<open>om.h\<close>: \<open>parse_host_port\<close>, the string constructor and \<open>to_string\<close> of \<open>mac_addr\<close>, and
  the formatting functions of \<open>om::etc\<close>. Of the standard library this needs \<open>std::stoul\<close>, the
  conversion \<open>%x\<close> of \<open>sscanf\<close> and the output of integers to a stream in base 10 and 16 with a field
  width; they are defined here for the "C" locale. A hexadecimal number that does not fit into an
  \<open>unsigned int\<close> makes \<open>sscanf\<close> undefined.
\<close>

section \<open>Numbers as text\<close>

definition is_space :: "char \<Rightarrow> bool" where
  "is_space c = (c \<in> set [CHR '' '', CHR 0x09, CHR 0x0A, CHR 0x0B, CHR 0x0C, CHR 0x0D])"

definition digit_value :: "char \<Rightarrow> nat option" where
  "digit_value c = (let n = of_char c :: nat in
     if 48 \<le> n \<and> n \<le> 57 then Some (n - 48)
     else if 97 \<le> n \<and> n \<le> 102 then Some (n - 87)
     else if 65 \<le> n \<and> n \<le> 70 then Some (n - 55) else None)"

definition is_digit_in :: "nat \<Rightarrow> char \<Rightarrow> bool" where
  "is_digit_in base c = (case digit_value c of Some d \<Rightarrow> d < base | None \<Rightarrow> False)"

definition digits_value :: "nat \<Rightarrow> string \<Rightarrow> nat" where
  "digits_value base ds = foldl (\<lambda>a c. base * a + (case digit_value c of Some d \<Rightarrow> d | None \<Rightarrow> 0)) 0 ds"

text \<open>The sign and what follows it.\<close>

fun strip_sign :: "string \<Rightarrow> bool \<times> string" where
  "strip_sign [] = (False, [])"
| "strip_sign (c # r) = (if c = CHR ''-'' then (True, r) else if c = CHR ''+'' then (False, r) else (False, c # r))"

definition stoul :: "string \<Rightarrow> u64 result" where
  "stoul s =
     (let (neg, s2) = strip_sign (dropWhile is_space s); ds = takeWhile (is_digit_in 10) s2; n = digits_value 10 ds
      in if ds = [] \<or> 2 ^ 64 \<le> n then Inl Uncaught_Exception
         else Inr (if neg then - of_nat n else of_nat n))"

text \<open>One conversion \<open>%x\<close>: no match, or the value and what is left of the input.\<close>

fun strip_0x :: "string \<Rightarrow> string" where
  "strip_0x (z # x # r) = (if z = CHR ''0'' \<and> (x = CHR ''x'' \<or> x = CHR ''X'') then r else z # x # r)"
| "strip_0x s = s"

definition scan_hex :: "string \<Rightarrow> (u32 \<times> string) option result" where
  "scan_hex s =
     (let (neg, s2) = strip_sign (dropWhile is_space s); s3 = strip_0x s2;
          ds = takeWhile (is_digit_in 16) s3; n = digits_value 16 ds
      in if ds = [] then Inr None
         else if 2 ^ 32 \<le> n then Inl Undefined_Behaviour
         else Inr (Some (if neg then - of_nat n else of_nat n, drop (length ds) s3)))"

definition hex_char :: "nat \<Rightarrow> char" where
  "hex_char d = (if d < 10 then char_of (48 + d) else char_of (87 + d))"

fun show_hex :: "nat \<Rightarrow> string" where
  "show_hex n = (if n < 16 then [hex_char n] else show_hex (n div 16) @ [hex_char (n mod 16)])"

declare show_hex.simps [simp del] show_dec.simps [simp del]

text \<open>\<open>setw\<close> and \<open>setfill\<close>.\<close>

definition pad :: "nat \<Rightarrow> char \<Rightarrow> string \<Rightarrow> string" where
  "pad w c s = replicate (w - length s) c @ s"

section \<open>Hosts and ports\<close>

definition parse_host_port :: "string \<Rightarrow> (string \<times> u16) result" where
  "parse_host_port s =
     (if CHR '':'' \<in> set s then
        (let host_part = takeWhile (\<lambda>c. c \<noteq> CHR '':'') s; port_part = drop (Suc (length host_part)) s
         in bind_r (stoul port_part) (\<lambda>p. Inr (host_part, ucast p)))
      else Inl Uncaught_Exception)"

section \<open>MAC addresses\<close>

fun scan_mac :: "nat \<Rightarrow> string \<Rightarrow> u32 list option result" where
  "scan_mac 0 s = Inr (Some [])"
| "scan_mac (Suc n) s = bind_r (scan_hex s) (\<lambda>r. case r of
       None \<Rightarrow> Inr None
     | Some (v, rest) \<Rightarrow>
         if n = 0 then Inr (Some [v])
         else if rest \<noteq> [] \<and> hd rest = CHR '':'' then bind_r (scan_mac n (tl rest)) (\<lambda>r. Inr (map_option ((#) v) r))
         else Inr None)"

definition mac_from_string :: "string \<Rightarrow> mac_addr result" where
  "mac_from_string s = bind_r (scan_mac 6 s) (\<lambda>r. case r of
       None \<Rightarrow> Inl Uncaught_Exception
     | Some t \<Rightarrow> Inr (Mac (ucast (t ! 0)) (ucast (t ! 1)) (ucast (t ! 2)) (ucast (t ! 3)) (ucast (t ! 4)) (ucast (t ! 5))))"

definition hex_byte :: "u8 \<Rightarrow> string" where
  "hex_byte b = pad 2 (CHR ''0'') (show_hex (unat b))"

fun mac_to_string :: "mac_addr \<Rightarrow> string" where
  "mac_to_string (Mac a b c d e f) = hex_byte a @ '':'' @ hex_byte b @ '':'' @ hex_byte c @ '':'' @ hex_byte d
     @ '':'' @ hex_byte e @ '':'' @ hex_byte f"

section \<open>Dumps\<close>

definition format_ptr :: "u64 \<Rightarrow> string" where
  "format_ptr p = ''0x'' @ pad 16 (CHR ''0'') (show_hex (unat p))"

text \<open>The text that one element adds to a dump.\<close>

definition dump_byte :: "bool \<Rightarrow> nat \<Rightarrow> u8 \<Rightarrow> string" where
  "dump_byte fmt i b =
     (if fmt \<and> i > 0 \<and> i mod 8 = 0 then [CHR 0x0A] @ pad 5 (CHR '' '') (show_dec i) @ ''  '' else '''')
     @ '' '' @ pad 2 (CHR ''0'') (show_hex (unat b))"

definition print_bytes :: "u8 list \<Rightarrow> nat \<Rightarrow> bool \<Rightarrow> string \<Rightarrow> string result" where
  "print_bytes buf len fmt os =
     (if length buf < len then Inl Undefined_Behaviour
      else Inr (os @ (if fmt then ''    0  '' else '''') @ concat (map (\<lambda>i. dump_byte fmt i (buf ! i)) [0..<len]) @ [CHR 0x0A]))"

definition format_bytes :: "u8 list \<Rightarrow> nat \<Rightarrow> bool \<Rightarrow> string result" where
  "format_bytes buf len fmt = print_bytes buf len fmt ''''"

section \<open>Lemmas\<close>

lemma digit_char_10: "d < 10 \<Longrightarrow> digit_value (char_of (48 + d)) = Some d"
  by (simp add: digit_value_def of_char_of)

lemma hex_char_value: "d < 16 \<Longrightarrow> digit_value (hex_char d) = Some d"
  by (simp add: digit_value_def hex_char_def of_char_of)

lemma hex_char_zero: "hex_char 0 = CHR ''0''"
  by (simp add: hex_char_def char_of_def bit_Suc_0_iff)

lemma digits_value_snoc:
  "digit_value c = Some d \<Longrightarrow> digits_value b (ds @ [c]) = b * digits_value b ds + d"
  by (simp add: digits_value_def)

lemma show_dec_digits: "list_all (is_digit_in 10) (show_dec n) \<and> show_dec n \<noteq> [] \<and> digits_value 10 (show_dec n) = n"
proof (induction n rule: show_dec.induct)
  case (1 n)
  show ?case
  proof (cases "n < 10")
    case True
    then show ?thesis
      by (subst (1 2 3) show_dec.simps) (simp add: is_digit_in_def digit_char_10 digits_value_def)
  next
    case False
    have d: "digit_value (char_of (48 + n mod 10)) = Some (n mod 10)" by (rule digit_char_10) simp
    then have "is_digit_in 10 (char_of (48 + n mod 10))" by (simp add: is_digit_in_def)
    with d 1 [OF False] False show ?thesis
      by (subst (1 2 3) show_dec.simps) (simp add: digits_value_snoc)
  qed
qed

lemma takeWhile_stop: "list_all P xs \<Longrightarrow> rest = [] \<or> \<not> P (hd rest) \<Longrightarrow> takeWhile P (xs @ rest) = xs"
  by (cases rest) (auto simp: list_all_iff takeWhile_tail)

text \<open>A digit is neither white space nor a sign.\<close>

lemma digit_start:
  assumes "digit_value c = Some d"
  shows "dropWhile is_space (c # r) = c # r \<and> strip_sign (c # r) = (False, c # r) \<and> c \<noteq> CHR ''x'' \<and> c \<noteq> CHR ''X''"
proof -
  have n: "digit_value CHR '' '' = None" "digit_value CHR 0x09 = None" "digit_value CHR 0x0A = None" "digit_value CHR 0x0B = None"
    "digit_value CHR 0x0C = None" "digit_value CHR 0x0D = None" "digit_value CHR ''-'' = None" "digit_value CHR ''+'' = None"
    "digit_value CHR ''x'' = None" "digit_value CHR ''X'' = None"
    by (simp_all add: digit_value_def)
  have "\<not> is_space c" unfolding is_space_def using assms n by auto
  moreover have "c \<noteq> CHR ''-''" "c \<noteq> CHR ''+''" "c \<noteq> CHR ''x''" "c \<noteq> CHR ''X''" using assms n by auto
  ultimately show ?thesis by simp
qed

lemma stoul_show_dec: "stoul (show_dec n) = (if n < 2 ^ 64 then Inr (of_nat n) else Inl Uncaught_Exception)"
proof -
  note d = show_dec_digits [of n]
  then obtain c r v where c: "show_dec n = c # r" "digit_value c = Some v"
    by (cases "show_dec n") (auto simp: is_digit_in_def split: option.splits)
  then have "dropWhile is_space (show_dec n) = show_dec n" "strip_sign (show_dec n) = (False, show_dec n)"
    using digit_start [OF c(2), of r] by simp_all
  moreover have t: "takeWhile (is_digit_in 10) (show_dec n) = show_dec n" using d by (simp add: list_all_iff)
  ultimately show ?thesis using d by (simp add: stoul_def Let_def not_le t)
qed

lemma hex_byte_eq: "hex_byte b = [hex_char (unat b div 16), hex_char (unat b mod 16)]"
proof -
  have b: "unat b < 256" using unsigned_less [of b, where 'a = nat] by simp
  show ?thesis
  proof (cases "unat b < 16")
    case True
    then show ?thesis by (simp add: hex_byte_def pad_def show_hex.simps [of "unat b"] hex_char_zero)
  next
    case False
    with b show ?thesis
      by (simp add: hex_byte_def pad_def show_hex.simps [of "unat b"] show_hex.simps [of "unat b div 16"] div_less_iff_less_mult)
  qed
qed

lemma scan_hex_byte:
  assumes "rest = [] \<or> hd rest = CHR '':''"
  shows "scan_hex (hex_byte b @ rest) = Inr (Some (ucast b, rest))"
proof -
  let ?h = "hex_char (unat b div 16)" and ?l = "hex_char (unat b mod 16)"
  have "unat b div 16 < 16" using unsigned_less [of b, where 'a = nat] by (simp add: div_less_iff_less_mult)
  then have v: "digit_value ?h = Some (unat b div 16)" "digit_value ?l = Some (unat b mod 16)" "unat b div 16 < 16"
    by (simp_all add: hex_char_value)
  have "\<not> is_digit_in 16 CHR '':''" by (simp add: is_digit_in_def digit_value_def)
  then have t: "takeWhile (is_digit_in 16) (hex_byte b @ rest) = hex_byte b"
    using assms v by (intro takeWhile_stop) (auto simp: hex_byte_eq is_digit_in_def)
  have x: "strip_0x (hex_byte b @ rest) = hex_byte b @ rest" using digit_start [OF v(2)] by (simp add: hex_byte_eq)
  have "digits_value 16 (hex_byte b) = unat b" using v by (simp add: hex_byte_eq digits_value_def)
  moreover have "unat b < 2 ^ 32" using unsigned_less [of b, where 'a = nat] by simp
  moreover have "dropWhile is_space (hex_byte b @ rest) = hex_byte b @ rest"
    "strip_sign (hex_byte b @ rest) = (False, hex_byte b @ rest)"
    using digit_start [OF v(1), of "?l # rest"] by (simp_all add: hex_byte_eq)
  moreover have "hex_byte b \<noteq> []" by (simp add: hex_byte_eq)
  ultimately show ?thesis by (simp add: scan_hex_def x t Let_def)
qed

lemma ucast_u8_u32: "ucast (ucast (b :: u8) :: u32) = b"
  by (rule u8_eqI) (simp add: bit_simps upt_0_2)

end
