(* ===== verification/Net_Properties.thy ===== *)
theory Net_Properties
  imports Om_Text
begin

text \<open>
  What the packet classes guarantee: headers survive being written out and read back, and what a
  flow key takes from the bytes of a packet.
\<close>

section \<open>Headers\<close>

lemma header_write_fits:
  assumes "ph_len h \<le> length (ph_buf h)" "ph_len h \<le> length dst"
  shows "\<exists>b. header_write h dst = Inr b \<and> length b = length dst \<and> drop (ph_len h) b = drop (ph_len h) dst"
  using assms by (simp add: header_write_def header_len_def)

text \<open>
  An Ethernet header built from addresses and a type, and written into a buffer of at least 14
  bytes, is read back by a header laid over that buffer; the rest of the buffer is untouched.
\<close>

theorem ethernet_roundtrip:
  assumes "14 \<le> length dst"
  shows "\<exists>h1 h2 h3 b. eth_set_dest_addr d ethernet_header_new = Inr h1 \<and> eth_set_src_addr s h1 = Inr h2 \<and>
     set_ether_type t h2 = Inr h3 \<and> header_write h3 dst = Inr b \<and> length b = length dst \<and> drop 14 b = drop 14 dst \<and>
     eth_dest_addr (ethernet_header_of b) = Inr d \<and> eth_src_addr (ethernet_header_of b) = Inr s \<and>
     ether_type (ethernet_header_of b) = Inr t"
proof -
  have l0: "length (ph_buf ethernet_header_new) = 14" "ph_len ethernet_header_new = 14"
    by (simp_all add: ethernet_header_new_def packet_header_new_def)
  then obtain h1 where h1: "eth_set_dest_addr d ethernet_header_new = Inr h1" using eth_dest.set_defined by force
  note k1 = eth_dest.set_keeps [OF h1]
  then obtain h2 where h2: "eth_set_src_addr s h1 = Inr h2" using eth_src.set_defined l0 by force
  note k2 = eth_src.set_keeps [OF h2]
  then obtain h3 where h3: "set_ether_type t h2 = Inr h3" using eth_type.set_defined k1 l0 by force
  note k3 = eth_type.set_keeps [OF h3]
  have l3: "ph_len h3 = 14" "length (ph_buf h3) = 14" using l0 k1 k2 k3 by auto
  with assms obtain b where b: "header_write h3 dst = Inr b" "length b = length dst" "drop 14 b = drop 14 dst"
    using header_write_fits [of h3 dst] by auto
  have buf: "ph_buf (ethernet_header_of b) = b @ []" by (simp add: ethernet_header_of_def packet_header_of_def)
  have "eth_dest_addr h3 = Inr d" using eth_dest_src.both_set [OF h1 h2] eth_dest_type.get1_set2 [OF h3] by simp
  moreover have "eth_src_addr h3 = Inr s" "ether_type h3 = Inr t" using eth_src_type.both_set [OF h2 h3] by simp_all
  ultimately show ?thesis
    using h1 h2 h3 b l3 eth_dest.get_written [OF b(1) _ buf] eth_src.get_written [OF b(1) _ buf] eth_type.get_written [OF b(1) _ buf]
    by auto
qed

theorem ethernet_roundtrip_witness:
  "\<exists>b. ether_type (ethernet_header_of b) = Inr 0x0800 \<and> length b = 20"
  using ethernet_roundtrip [of "replicate 20 0" mac_default mac_default "0x0800"] by auto

section \<open>Flow keys\<close>

lemma ip4_header_of_eq:
  "buf \<noteq> [] \<Longrightarrow> ip4_header_of buf = Inr \<lparr>ph_alloc = False, ph_buf = buf[0 := 0x45], ph_len = 20\<rparr>"
proof -
  assume ne: "buf \<noteq> []"
  have hl: "get_ip_hl (with_ip_hl 5 x) = 5" "get_ip_v (with_ip_hl 5 x) = get_ip_v x" for x
    unfolding get_ip_hl_def get_ip_v_def with_ip_hl_def
    by (rule u8_eqI, simp add: bit_simps upt_0_2 bit_u8_high)+
  have v: "with_ip_v 4 x = 0x45" if "get_ip_hl x = 5" for x
  proof -
    have "x AND 0x0f = 5" using that by (simp add: get_ip_hl_def)
    then show ?thesis by (simp add: with_ip_v_def)
  qed
  have both: "x = 0x45" if "get_ip_hl x = 5" "get_ip_v x = 4" for x
  proof -
    have "x = (x AND 0x0f) OR push_bit 4 (drop_bit 4 x)" by (rule u8_eqI) (simp add: bit_simps upt_0_2 bit_u8_high)
    with that show ?thesis by (simp add: get_ip_hl_def get_ip_v_def)
  qed
  have "with_ip_hl 5 x = 0x45" if "get_ip_v x = 4" for x by (rule both) (simp_all add: hl that)
  moreover have "buf[0 := 0x45] = buf" if "get_ip_hl (buf ! 0) = 5" "get_ip_v (buf ! 0) = 4"
    using both [OF that] by (metis list_update_id)
  moreover have "get_ip_hl 0x45 = 5" by (simp add: get_ip_hl_def)
  ultimately show ?thesis using ne hl v
    by (simp add: ip4_header_of_def packet_header_of_def Let_def)
qed

lemma reverse_le16_at: "reverse_byte_order16 (le16_at b i) = push_bit 8 (ucast (b ! i)) OR ucast (b ! (i + 1))"
  by (rule u16_eqI) (simp add: reverse_byte_order16_def le16_at_def bit_simps upt_0_2 bit_u8_high)

text \<open>
  The flow key of a packet. The protocol is byte 9, the ports of a TCP or UDP packet are the two
  big-endian numbers behind the 20-byte header, and the ports of any other packet are 0; both
  addresses are the source address, the destination is never looked at. Reading is undefined
  exactly when the packet is too short for the fields that are read, and it overwrites the first
  byte of the packet with version 4 and length 5.
\<close>

theorem flow_key_of_packet:
  "from_ip4_bytes buf =
     (if length buf < 16 \<or> (buf ! 9 = 6 \<or> buf ! 9 = 17) \<and> length buf < 24 then Inl Undefined_Behaviour
      else Inr (if buf ! 9 = 6 \<or> buf ! 9 = 17
        then flow_key_new (Ip4 (le32_at buf 12)) (Ip4 (le32_at buf 12))
          (push_bit 8 (ucast (buf ! 20)) OR ucast (buf ! 21)) (push_bit 8 (ucast (buf ! 22)) OR ucast (buf ! 23)) (buf ! 9)
        else flow_key_new (Ip4 (le32_at buf 12)) (Ip4 (le32_at buf 12)) 0 0 (buf ! 9), buf[0 := 0x45]))"
proof (cases "buf = []")
  case True
  then show ?thesis by (simp add: from_ip4_bytes_def ip4_header_of_def)
next
  case False
  have [simp]: "drop 20 (buf[0 := 0x45]) = drop 20 buf" by (simp add: drop_update_cancel)
  have [simp]: "le32_at (buf[0 := 0x45]) 12 = le32_at buf 12" by (simp add: le32_at_def)
  have [simp]: "n < length buf - 20 \<Longrightarrow> drop 20 buf ! n = buf ! (20 + n)" for n by simp
  show ?thesis
    unfolding from_ip4_bytes_def ip4_header_of_eq [OF False]
    by (auto simp: ip_src_addr_def proto_def tcp_src_port_def tcp_dest_port_def udp_src_port_def udp_dest_port_def
        get_member_def tcp_header_of_def udp_header_of_def packet_header_of_def reverse_le16_at flow_key_default_def
        flow_key_new_def from_net_def Let_def)
qed

section \<open>Text forms\<close>

text \<open>
  \<open>parse_host_port\<close> splits a host without a colon from a decimal port and rejects a text without a
  colon. A port of 65536 or more is not rejected but taken modulo 65536; only a number of more
  than 64 bits raises an exception.
\<close>

theorem host_port_parsed:
  assumes "CHR '':'' \<notin> set host"
  shows "parse_host_port (host @ '':'' @ show_dec port) =
       (if port < 2 ^ 64 then Inr (host, of_nat port) else Inl Uncaught_Exception) \<and>
     parse_host_port host = Inl Uncaught_Exception"
proof -
  have "takeWhile (\<lambda>c. c \<noteq> CHR '':'') (host @ '':'' @ show_dec port) = host"
    using assms by (intro takeWhile_stop) (auto simp: list_all_iff)
  moreover have "ucast (of_nat port :: u64) = (of_nat port :: u16)"
    by (rule bit_word_eqI) (simp add: bit_simps)
  ultimately show ?thesis using assms by (simp add: parse_host_port_def Let_def stoul_show_dec)
qed

theorem host_port_parsed_witness:
  "parse_host_port (''n'' @ '':'' @ show_dec 70000) = Inr (''n'', 4464)"
  using host_port_parsed [of "''n''" 70000] by simp

text \<open>The canonical text of a MAC address is read back as the same address.\<close>

theorem mac_string_roundtrip: "mac_from_string (mac_to_string m) = Inr m"
proof (cases m)
  case (Mac a b c d e f)
  have six: "(6 :: nat) = Suc (Suc (Suc (Suc (Suc (Suc 0)))))" by simp
  have "scan_mac 6 (mac_to_string m) = Inr (Some [ucast a, ucast b, ucast c, ucast d, ucast e, ucast f])"
    unfolding Mac mac_to_string.simps six
    by (simp add: scan_hex_byte scan_hex_byte [where rest = "[]", simplified])
  then show ?thesis by (simp add: mac_from_string_def Mac ucast_u8_u32)
qed

lemma write_uint64_room: "\<not> length buf < 8 \<Longrightarrow> \<exists>b. write_uint64 v buf = Inr (8, b) \<and> drop 8 b = drop 8 buf"
  by (simp add: write_uint64_def)

lemma write_uint32_room: "\<not> length buf < 4 \<Longrightarrow> \<exists>b. write_uint32 v buf = Inr (4, b) \<and> drop 4 b = drop 4 buf"
  by (simp add: write_uint32_def)

lemma write_uint16_room: "\<not> length buf < 2 \<Longrightarrow> \<exists>b. write_uint16 v buf = Inr (2, b) \<and> drop 2 b = drop 2 buf"
  by (simp add: write_uint16_def)

lemma codec_short:
  "length buf < 8 \<Longrightarrow> write_uint64 v buf = Inl Undefined_Behaviour" "length buf < 8 \<Longrightarrow> read_uint64 buf = Inl Undefined_Behaviour"
  "length buf < 4 \<Longrightarrow> write_uint32 w buf = Inl Undefined_Behaviour" "length buf < 4 \<Longrightarrow> read_uint32 buf = Inl Undefined_Behaviour"
  "length buf < 2 \<Longrightarrow> write_uint16 x buf = Inl Undefined_Behaviour" "length buf < 2 \<Longrightarrow> read_uint16 buf = Inl Undefined_Behaviour"
  by (simp_all add: write_uint64_def read_uint64_def write_uint32_def read_uint32_def write_uint16_def read_uint16_def)

lemma uint64_codec:
  "if length buf < 8 then write_uint64 v buf = Inl Undefined_Behaviour \<and> read_uint64 buf = Inl Undefined_Behaviour
   else \<exists>b. write_uint64 v buf = Inr (8, b) \<and> read_uint64 b = Inr v \<and> drop 8 b = drop 8 buf"
proof (cases "length buf < 8")
  case False
  then obtain b where b: "write_uint64 v buf = Inr (8, b)" "drop 8 b = drop 8 buf" using write_uint64_room by blast
  then have "read_uint64 b = Inr v" using read_write_uint64 by blast
  with False b show ?thesis by simp
qed (simp add: codec_short)

lemma uint32_codec:
  "if length buf < 4 then write_uint32 v buf = Inl Undefined_Behaviour \<and> read_uint32 buf = Inl Undefined_Behaviour
   else \<exists>b. write_uint32 v buf = Inr (4, b) \<and> read_uint32 b = Inr v \<and> drop 4 b = drop 4 buf"
proof (cases "length buf < 4")
  case False
  then obtain b where b: "write_uint32 v buf = Inr (4, b)" "drop 4 b = drop 4 buf" using write_uint32_room by blast
  then have "read_uint32 b = Inr v" using read_write_uint32 by blast
  with False b show ?thesis by simp
qed (simp add: codec_short)

lemma uint16_codec:
  "if length buf < 2 then write_uint16 v buf = Inl Undefined_Behaviour \<and> read_uint16 buf = Inl Undefined_Behaviour
   else \<exists>b. write_uint16 v buf = Inr (2, b) \<and> read_uint16 b = Inr v \<and> drop 2 b = drop 2 buf"
proof (cases "length buf < 2")
  case False
  then obtain b where b: "write_uint16 v buf = Inr (2, b)" "drop 2 b = drop 2 buf" using write_uint16_room by blast
  then have "read_uint16 b = Inr v" using read_write_uint16 by blast
  with False b show ?thesis by simp
qed (simp add: codec_short)

text \<open>
  The byte codecs. What \<open>write_uint64\<close> stores in a buffer that has room for it, \<open>read_uint64\<close> reads
  back, although it widens signed characters; the same holds for 32 and 16 bits. No byte behind
  the number changes, and a buffer that is too short is undefined for both.
\<close>

theorem byte_codecs_roundtrip:
  "(if length buf < 8 then write_uint64 v buf = Inl Undefined_Behaviour \<and> read_uint64 buf = Inl Undefined_Behaviour
    else \<exists>b. write_uint64 v buf = Inr (8, b) \<and> read_uint64 b = Inr v \<and> drop 8 b = drop 8 buf) \<and>
   (if length buf < 4 then write_uint32 w buf = Inl Undefined_Behaviour \<and> read_uint32 buf = Inl Undefined_Behaviour
    else \<exists>b. write_uint32 w buf = Inr (4, b) \<and> read_uint32 b = Inr w \<and> drop 4 b = drop 4 buf) \<and>
   (if length buf < 2 then write_uint16 x buf = Inl Undefined_Behaviour \<and> read_uint16 buf = Inl Undefined_Behaviour
    else \<exists>b. write_uint16 x buf = Inr (2, b) \<and> read_uint16 b = Inr x \<and> drop 2 b = drop 2 buf)"
  by (intro conjI uint64_codec uint32_codec uint16_codec)

end
