(* ===== verification/Core_Properties.thy ===== *)
theory Core_Properties
  imports Lifecycle_Properties Server_Accept Net_Properties
begin

text \<open>
  Properties that span components: the registry as a map of first-in first-out queues, the idle
  check, the set-up of the controllers and of the connections to the agents, and a connect
  request from its bytes on the wire to the answer.
\<close>

section \<open>The registry as a map of queues\<close>

text \<open>
  The abstract state: the next address, and for each container id the queue of its containers. A
  call adds a container or removes the oldest one of an id.
\<close>

datatype reg_call =
    Reg_Add int u32 u32 i32 u64 u32
  | Reg_Delete ContainerId

type_synonym reg_state = "sc_ptr \<times> (cid_key_t \<Rightarrow> sc_ptr list)"

fun reg_spec :: "reg_call \<Rightarrow> reg_state \<Rightarrow> reg_state" where
  "reg_spec (Reg_Add now cg ip f q t) (n, m) = (Suc n, m((cg, Ip4 ip) := m (cg, Ip4 ip) @ [n]))"
| "reg_spec (Reg_Delete k) (n, m) = (n, m(cid_key k := tl (m (cid_key k))))"

fun reg_exec :: "reg_call \<Rightarrow> ElasticContainer \<Rightarrow> ElasticContainer result" where
  "reg_exec (Reg_Add now cg ip f q t) e =
     (case create_new_sc_quota now cg ip f q t e of (p, e1) \<Rightarrow> bind_r (insert_sc p e1) (\<lambda>(r, e2). Inr e2))"
| "reg_exec (Reg_Delete k) e = bind_r (ec_delete_from_subcontainers_map k e) (\<lambda>(r, e'). Inr e')"

primrec reg_run :: "reg_call list \<Rightarrow> ElasticContainer \<Rightarrow> ElasticContainer result" where
  "reg_run [] e = Inr e"
| "reg_run (c # cs) e = bind_r (reg_exec c e) (reg_run cs)"

definition reg_abs :: "ElasticContainer \<Rightarrow> reg_state" where
  "reg_abs e = (sc_next e, reg_look e)"

lemma reg_exec_refines:
  assumes "ec_wf e"
  shows "\<exists>e'. reg_exec c e = Inr e' \<and> ec_wf e' \<and> reg_abs e' = reg_spec c (reg_abs e)"
proof (cases c)
  case (Reg_Add now cg ip f q t)
  obtain p e1 where c: "create_new_sc_quota now cg ip f q t e = (p, e1)" by force
  then have p: "p = sc_next e" "sc_next e1 = Suc p" "sc_heap e1 p = Some (SubContainer_new_quota now cg ip f q t)"
    by (auto simp: create_new_sc_quota_def)
  let ?e2 = "reg_push (cid_key (c_id (SubContainer_new_quota now cg ip f q t))) p e1"
  have i: "insert_sc p e1 = Inr (ALLOC_INIT, ?e2)" by (rule insert_sc_eq(1) [OF p(3)])
  then show ?thesis using create_insert [OF assms c i] Reg_Add c p by (simp add: reg_abs_def reg_push_frame)
next
  case (Reg_Delete k)
  then show ?thesis
    using delete_eq(1) [OF assms, of k] registry.invar_pop [OF assms, of "cid_key k"] registry.look_pop [OF assms, of "cid_key k"]
    by (simp add: reg_abs_def reg_pop_frame)
qed

lemma reg_run_refines: "ec_wf e \<Longrightarrow> \<exists>e'. reg_run cs e = Inr e' \<and> ec_wf e' \<and> reg_abs e' = fold reg_spec cs (reg_abs e)"
proof (induction cs arbitrary: e)
  case (Cons c cs)
  obtain e1 where "reg_exec c e = Inr e1" "ec_wf e1" "reg_abs e1 = reg_spec c (reg_abs e)"
    using reg_exec_refines [OF Cons.prems] by blast
  with Cons.IH [of e1] show ?case by simp
qed simp

text \<open>The lookups of the code in terms of the abstract state.\<close>

lemma lookups_abs:
  fixes k :: ContainerId
  assumes "ec_wf e"
  defines "q \<equiv> snd (reg_abs e) (cid_key k)"
  shows "get_sc_for_update_back e k = (if q = [] then Inl Exit_Failure else Inr (last q))"
    and "get_subcontainer_front e k = (if q = [] then Inl Exit_Failure else Inr (the (sc_heap e (hd q))))"
    and "get_subcontainer_back e k = (if q = [] then Inl Exit_Failure else Inr (the (sc_heap e (last q))))"
proof -
  have q: "q = (case find_queue e k of None \<Rightarrow> [] | Some r \<Rightarrow> r)" by (simp add: q_def reg_abs_def reg_look_find)
  have ne: "find_queue e k \<noteq> Some []" using ec_wf_queue(1) [OF assms(1)] by blast
  have live: "p \<in> set q \<Longrightarrow> sc_deref e p = Inr (the (sc_heap e p))" for p
    using ec_wf_look(3) [OF assms(1), of p "cid_key k"] by (auto simp: q_def reg_abs_def sc_deref_def)
  show "get_sc_for_update_back e k = (if q = [] then Inl Exit_Failure else Inr (last q))"
    using q ne by (auto simp: get_sc_for_update_back_def queue_back_def split: option.splits)
  show "get_subcontainer_front e k = (if q = [] then Inl Exit_Failure else Inr (the (sc_heap e (hd q))))"
    "get_subcontainer_back e k = (if q = [] then Inl Exit_Failure else Inr (the (sc_heap e (last q))))"
    using q ne live [of "hd q"] live [of "last q"]
    by (auto simp: get_subcontainer_front_def get_subcontainer_back_def queue_front_def queue_back_def split: option.splits list.splits)
qed

text \<open>
  C6: the registry refines a map of first-in first-out queues. Any sequence of creations and removals
  on a well-formed elastic container runs to its end; the queues afterwards are those of the
  abstract map, and the code's lookups return the oldest and the newest element of the queue of
  an id, and make the controller exit for an id without one.
\<close>

theorem registry_refines:
  assumes "ec_wf e"
  shows "\<exists>e'. reg_run cs e = Inr e' \<and> reg_abs e' = fold reg_spec cs (reg_abs e) \<and>
    (let q = snd (fold reg_spec cs (reg_abs e)) (cid_key k) in
     get_sc_for_update_back e' k = (if q = [] then Inl Exit_Failure else Inr (last q)) \<and>
     get_subcontainer_front e' k = (if q = [] then Inl Exit_Failure else Inr (the (sc_heap e' (hd q)))) \<and>
     get_subcontainer_back e' k = (if q = [] then Inl Exit_Failure else Inr (the (sc_heap e' (last q)))))"
proof -
  obtain e' where "reg_run cs e = Inr e'" "ec_wf e'" "reg_abs e' = fold reg_spec cs (reg_abs e)"
    using reg_run_refines [OF assms] by blast
  with lookups_abs [of e' k] show ?thesis by (intro exI [of _ e']) (simp add: Let_def)
qed

theorem registry_refines_witness:
  "\<exists>e'. reg_run [Reg_Add 0 3 1 9 5 0, Reg_Add 0 3 1 9 6 0, Reg_Delete (ContainerId_new 3 (Ip4 1))] (ElasticContainer_new 1) = Inr e' \<and>
     get_sc_for_update_back e' (ContainerId_new 3 (Ip4 1)) = Inr 1"
proof -
  have "reg_abs (ElasticContainer_new 1) = (0, \<lambda>_. [])" by (auto simp: reg_abs_def ElasticContainer_new_def reg_look_def)
  then show ?thesis
    using registry_refines [OF ec_wf_new [of 1], of "[Reg_Add 0 3 1 9 5 0, Reg_Add 0 3 1 9 6 0, Reg_Delete (ContainerId_new 3 (Ip4 1))]"
        "ContainerId_new 3 (Ip4 1)"]
    by (auto simp: Let_def ContainerId_new_def cid_key_def)
qed

section \<open>The idle check\<close>

text \<open>Adding to one side of the books what is taken from the other.\<close>

lemma unat_plus_minus:
  fixes a b c :: u64
  assumes "unat a + unat b < 2 ^ 64"
  shows "unat (a + b - c) = (if unat c \<le> unat a + unat b then unat a + unat b - unat c else unat a + unat b + 2 ^ 64 - unat c)"
proof -
  have sum: "unat (a + b) = unat a + unat b" by (rule unat_plus_no_overflow) fact
  show ?thesis unfolding unat_sub_if' [of "a + b" c] sum by simp
qed

lemma idle_min_unat: "unat idle_min_quota = 30000000"
  by (simp add: idle_min_quota_def)

text \<open>One entry of the map whose newest container is idle: what is sent, and what becomes of the books.\<close>

lemma idle_step:
  fixes s :: "'a ECAPI_scheme"
  assumes c: "connected (ec s) p sc ac" and idle: "check_if_idle now sc" "get_quota sc \<noteq> idle_min_quota"
    and ok: "quota_status env (rpc_log s @ [quota_request sc ac idle_min_quota seq]) = 0"
    and small: "unat (alloc_rt (ec_cpu (ec s))) < 2 ^ 62" "get_quota sc \<le> alloc_rt (ec_cpu (ec s))"
  obtains s' sc' where "idle_pass env now ((k, q @ [p]) # m) seq s = idle_pass env now m (seq + 1) s'"
    "rpc_log s' = rpc_log s @ [quota_request sc ac idle_min_quota seq]"
    "sc_heap (ec s') = (sc_heap (ec s))(p \<mapsto> sc')" "get_quota sc' = idle_min_quota"
    "cpu_ledger (ec_cpu (ec s')) = cpu_ledger (ec_cpu (ec s))"
    "unallocated_rt (ec_cpu (ec s')) = unallocated_rt (ec_cpu (ec s)) + get_quota sc - idle_min_quota"
proof -
  let ?l = "rpc_log s @ [quota_request sc ac idle_min_quota seq]"
  let ?d = "get_quota sc - idle_min_quota" and ?c = "ec_cpu (ec s)"
  have sc: "sc_heap (ec s) p = Some sc" using c by (simp add: connected_def)
  have u: "unat idle_min_quota = 30000000" by (simp add: idle_min_quota_def)
  have q: "unat (get_quota sc) < 2 ^ 62" "unat (get_quota sc) \<le> unat (alloc_rt ?c)"
    using small by (simp_all add: word_le_nat_alt)
  have split: "alloc_rt ?c - ?d = alloc_rt ?c - get_quota sc + idle_min_quota" by simp
  have "unat (alloc_rt ?c - get_quota sc) < 2 ^ 62" using q small(1) by (simp add: unat_minus_no_borrow)
  then have "unat (alloc_rt ?c - ?d) < 2 ^ 63" unfolding split using u by (simp add: unat_plus_no_overflow)
  then have pos: "\<not> sint (alloc_rt ?c - ?d) < 0" using unat_less_half_sint by simp
  define s' where "s' = ec_decr_alloc_rt ?d (on_sc p sc_flush (on_sc p (set_quota idle_min_quota)
      (ec_incr_unallocated_rt ?d (on_sc p (sc_set_quota_flag True) (s\<lparr>rpc_log := ?l\<rparr>)))))"
  have run: "idle_pass env now ((k, q @ [p]) # m) seq s = idle_pass env now m (seq + 1) s'" unfolding s'_def
    using sc idle ok by (simp add: queue_back_def sc_deref_def with_quota_syscall_def set_sc_quota_syscall_connected [OF c] Let_def)
  have log: "rpc_log s' = ?l" unfolding s'_def by (simp add: api_defs)
  have cpu: "ec_cpu (ec s') = cpu_decr_alloc_rt ?d (cpu_incr_unallocated_rt ?d ?c)"
    unfolding s'_def by (simp add: api_defs sc_upd_def sc split: option.splits)
  define sc' where "sc' = sc_flush (set_quota idle_min_quota (sc_set_quota_flag True sc))"
  have heap: "sc_heap (ec s') = (sc_heap (ec s))(p \<mapsto> sc')" "get_quota sc' = idle_min_quota"
    unfolding s'_def sc'_def by (simp_all add: api_defs sc_upd_def sc state_defs get_quota_def)
  have "cpu_ledger (ec_cpu (ec s')) = cpu_ledger ?c"
    unfolding cpu using pos by (subst cpu_ledger_decr(1)) (simp_all add: cpu_ledger_incr(2) stat_simps)
  moreover have "unallocated_rt (ec_cpu (ec s')) = unallocated_rt ?c + get_quota sc - idle_min_quota" by (simp add: cpu stat_simps)
  ultimately show thesis using that [OF run log heap] by simp
qed

text \<open>
  C14: the idle check. When the newest container of an entry of the map is idle, linked, and has more
  than 30 ms per period, and its agent accepts the request, then one request resets it to 30 ms, and
  the pass goes on with the rest of the map. All amounts are below \<open>2^62\<close> and the quota is part of
  what is allocated. What the container loses becomes unallocated, the books stay as they were, and no other container, in
  particular no older one in the same queue, is touched.
\<close>

theorem idle_check_resets:
  fixes s :: "'a ECAPI_scheme"
  assumes c: "connected (ec s) p sc ac" and idle: "check_if_idle now sc" "idle_min_quota < get_quota sc"
    and ok: "quota_status env (rpc_log s @ [quota_request sc ac idle_min_quota seq]) = 0"
    and small: "unat (alloc_rt (ec_cpu (ec s))) < 2 ^ 62" "get_quota sc \<le> alloc_rt (ec_cpu (ec s))"
      "unat (unallocated_rt (ec_cpu (ec s))) < 2 ^ 62"
  shows "\<exists>s' sc'. idle_pass env now ((k, q @ [p]) # m) seq s = idle_pass env now m (seq + 1) s' \<and>
    rpc_log s' = rpc_log s @ [quota_request sc ac idle_min_quota seq] \<and>
    sc_heap (ec s') = (sc_heap (ec s))(p \<mapsto> sc') \<and> unat (get_quota sc') = 30000000 \<and>
    cpu_ledger (ec_cpu (ec s')) = cpu_ledger (ec_cpu (ec s)) \<and>
    unat (unallocated_rt (ec_cpu (ec s'))) = unat (unallocated_rt (ec_cpu (ec s))) + (unat (get_quota sc) - 30000000)"
proof -
  have q: "get_quota sc \<noteq> idle_min_quota" "30000000 < unat (get_quota sc)" "unat (get_quota sc) < 2 ^ 62"
    using idle(2) small(1,2) by (auto simp: idle_min_quota_def word_less_nat_alt word_le_nat_alt)
  have "unat (unallocated_rt (ec_cpu (ec s)) + get_quota sc - idle_min_quota) =
      unat (unallocated_rt (ec_cpu (ec s))) + (unat (get_quota sc) - 30000000)"
    using unat_plus_minus [of "unallocated_rt (ec_cpu (ec s))" "get_quota sc" idle_min_quota] q(2,3) small(3)
    by (simp add: idle_min_quota_def)
  then show ?thesis
    using idle_step [OF c idle(1) q(1) ok small(1,2), of k q m] by (metis idle_min_unat)
qed

text \<open>An idle container with 50 ms, behind an older one in the queue, while 5 ms are unallocated.\<close>

theorem idle_check_resets_witness:
  "\<exists>s'. idle_pass (sample_env Http_Exception) 1000000000000 [(sample_cid, [7, 0])] 0
       (sample_ctl (sample_ec (sample_sc 50000000 0) (sample_cpu 5000000 55000000 0 50000000) mem_g_default 0)) = Inr (1, s') \<and>
     unat (unallocated_rt (ec_cpu (ec s'))) = 25000000"
proof -
  let ?s = "sample_ctl (sample_ec (sample_sc 50000000 0) (sample_cpu 5000000 55000000 0 50000000) mem_g_default 0)"
  have "connected (ec ?s) 0 (sample_sc 50000000 0) sample_agent" by (simp add: connected_def sample_eval)
  moreover have "check_if_idle 1000000000000 (sample_sc 50000000 0)" "get_quota (sample_sc 50000000 0) = 50000000"
    by (simp_all add: check_if_idle_def sample_eval get_quota_def)
  ultimately obtain s' where "idle_pass (sample_env Http_Exception) 1000000000000 ((sample_cid, [7] @ [0]) # []) 0 ?s =
      idle_pass (sample_env Http_Exception) 1000000000000 [] (0 + 1) s'" "unat (unallocated_rt (ec_cpu (ec s'))) = 25000000"
    using idle_check_resets [of ?s 0 "sample_sc 50000000 0" sample_agent 1000000000000 "sample_env Http_Exception" 0 sample_cid "[7]" "[]"]
    by (auto simp: sample_env_def sample_ctl_def sample_ec_def sample_cpu_def idle_min_quota_def simp del: idle_pass.simps)
  then show ?thesis by (intro exI [of _ s']) simp
qed



section \<open>Connections to the agents\<close>

lemma get_agent_ip_new [simp]: "get_agent_ip (AgentClient_new p a) = ag_ip a"
  by (simp add: get_agent_ip_def AgentClient_new_def)

lemma add_clients_keeps:
  "get_agent_client_by_ip db ip = Some c \<Longrightarrow> get_agent_client_by_ip (add_clients p as db) ip = Some c"
proof (induction as arbitrary: p db)
  case (Cons a as)
  then have "get_agent_client_by_ip (add_agent_client (AgentClient_new p a) db) ip = Some c" by (auto simp: get_after_add)
  then show ?case by (simp add: Cons.IH)
qed simp

lemma add_clients_registers:
  "a \<in> set as \<Longrightarrow> distinct (map ag_ip as) \<Longrightarrow> get_agent_client_by_ip db (ag_ip a) = None \<Longrightarrow>
     \<exists>c. get_agent_client_by_ip (add_clients p as db) (ag_ip a) = Some c \<and> ac_agent c = a"
proof (induction as arbitrary: p db)
  case (Cons b as)
  show ?case
  proof (cases "a = b")
    case True
    have "get_agent_client_by_ip (add_clients (Suc p) as (add_agent_client (AgentClient_new p a) db)) (ag_ip a) = Some (AgentClient_new p a)"
      using Cons.prems(3) by (intro add_clients_keeps) (simp add: get_after_add)
    then show ?thesis by (simp add: True AgentClient_new_def)
  next
    case False
    then have "ag_ip a \<noteq> ag_ip b" using Cons.prems(1,2) by (auto simp: image_iff)
    then show ?thesis using Cons.IH [of "add_agent_client (AgentClient_new p b) db" "Suc p"] Cons.prems False
      by (simp add: get_after_add)
  qed
qed simp

text \<open>Every address that is new to the directory adds an entry.\<close>

lemma length_add_clients:
  "length (add_clients p as db) \<le> length db + length as \<and>
   (length (add_clients p as db) = length db + length as \<longleftrightarrow>
      distinct (map ag_ip as) \<and> (\<forall>a \<in> set as. get_agent_client_by_ip db (ag_ip a) = None))"
proof (induction as arbitrary: p db)
  case (Cons b as)
  let ?db = "add_agent_client (AgentClient_new p b) db"
  show ?case
  proof (cases "get_agent_client_by_ip db (ag_ip b)")
    case None
    then show ?thesis using Cons.IH [of "Suc p" ?db]
      by (auto simp: length_add_agent_client get_after_add image_iff split: if_splits)
  next
    case (Some c)
    then show ?thesis using Cons.IH [of "Suc p" ?db] by (auto simp: length_add_agent_client)
  qed
qed simp

text \<open>
  C28: connecting to the agents succeeds exactly when no two configured agents share an address, and
  then every agent has a client in the directory, found under its address.
\<close>

theorem agents_connected:
  assumes "length (gcm_agents g) < 2 ^ 32"
  shows "\<exists>ok db. init_agent_connections g None = (ok, Some db) \<and> (ok \<longleftrightarrow> distinct (map ag_ip (gcm_agents g))) \<and>
    (ok \<longrightarrow> (\<forall>a \<in> set (gcm_agents g). \<exists>c. get_agent_client_by_ip db (ag_ip a) = Some c \<and> ac_agent c = a))"
proof -
  let ?as = "gcm_agents g" and ?db = "add_clients 0 (gcm_agents g) []"
  have empty: "get_agent_client_by_ip [] ip = None" for ip by (simp add: get_agent_client_by_ip_def um_find_def)
  note len = length_add_clients [of 0 ?as "[]"]
  have "(of_nat (length ?as) :: u32) = of_nat (length ?db) \<longleftrightarrow> length ?as = length ?db"
    using assms len by (auto simp: of_nat_inverse word_unat_eq_iff unsigned_of_nat take_bit_nat_eq_self)
  then have "fst (init_agent_connections g None) \<longleftrightarrow> distinct (map ag_ip ?as)" "snd (init_agent_connections g None) = Some ?db"
    using len empty by (auto simp: init_agent_connections_def get_agent_client_db_instance_def get_agent_clients_db_size_def Let_def)
  then show ?thesis using add_clients_registers [of _ ?as "[]" 0] empty
    by (intro exI [of _ "fst (init_agent_connections g None)"] exI [of _ ?db]) (auto simp: prod_eq_iff)
qed

theorem agents_connected_witness:
  "\<exists>db. init_agent_connections \<lparr>gcm_ip = Ip4 1, gcm_port = 1, controller_ports = [], server_ports = [], managers = [],
       manager_counts = 1, gcm_agents = [\<lparr>ag_ip = Ip4 2, ag_port = 4448, ag_sockfd = 0\<rparr>, \<lparr>ag_ip = Ip4 2, ag_port = 4449, ag_sockfd = 0\<rparr>]\<rparr>
       None = (False, Some db)"
  using agents_connected [of "\<lparr>gcm_ip = Ip4 1, gcm_port = 1, controller_ports = [], server_ports = [], managers = [],
       manager_counts = 1, gcm_agents = [\<lparr>ag_ip = Ip4 2, ag_port = 4448, ag_sockfd = 0\<rparr>, \<lparr>ag_ip = Ip4 2, ag_port = 4449, ag_sockfd = 0\<rparr>]\<rparr>"]
  by auto

section \<open>From the wire to the registry\<close>

text \<open>56 bytes read into the buffer, under the address of the connection.\<close>

lemma decode_set_ip:
  assumes "length b = 56"
  shows "decode_msg (buff_set_ip ip b) = (decode_msg b)\<lparr>client_ip := ip\<rparr>"
proof -
  have "le32_at (le32 w @ drop 4 b) i = le32_at b i" if "4 \<le> i" for w i
    using that assms by (simp add: le32_at_skip) (simp add: le32_at_def add.commute)
  moreover from this have "le64_at (le32 w @ drop 4 b) i = le64_at b i" if "4 \<le> i" for w i
    using that by (simp add: le64_at_def)
  ultimately show ?thesis by (simp add: decode_msg_def buff_set_ip_def le32_at_head)
qed

lemma decode_received:
  assumes "length b = 56"
  shows "decode_msg (buff_set_ip (from_net ip) (buff_read (replicate HANDLE_REQ_BUFF 0) b)) = (decode_msg b)\<lparr>client_ip := Ip4 ip\<rparr>"
  using assms by (simp add: buff_read_def HANDLE_REQ_BUFF_def decode_set_ip from_net_def)

lemma not_mem_cpu: "req_INIT \<noteq> req_MEM" "req_INIT \<noteq> req_CPU"
  by (simp_all add: req_INIT_def req_MEM_def req_CPU_def)

text \<open>
  C18: a container connects over TCP, in a state that satisfies the invariant of all reachable states.
  56 bytes arrive that are an \<open>INIT\<close> message with a request for no
  more than what is unallocated. The container is registered as the newest one of its cgroup id on
  the node of the connection, a job for its memory limit is started, and the server counts one more
  client, whether or not an answer can be written. If the write succeeds, exactly one answer goes
  back; it is 56 bytes long and repeats the request, but for the address, which is that of the
  connection, the field \<open>request\<close>, which is raised by one, and \<open>sock_addr\<close>, which is indeterminate.
\<close>

theorem tcp_connect:
  fixes ip :: u32
  assumes inv: "ctl_inv s" and len: "length b = 56" and init: "req_type (decode_msg b) = req_INIT"
    and pool: "rsrc_amnt (decode_msg b) \<le> unallocated_rt (ec_cpu (ec s))"
  defines "key \<equiv> (msg_t.cgroup_id (decode_msg b), Ip4 ip)"
  shows "\<exists>s' ans. handle_client_reqs_tcp (handle_req env) indet write_ok ip f [(now, b)] srv s =
      Inr (if write_ok [] then [ans] else [], srv\<lparr>num_of_cli := num_of_cli srv + 1\<rparr>, s') \<and>
    length ans = 56 \<and>
    decode_msg ans = (decode_msg b)\<lparr>client_ip := Ip4 ip, request := request (decode_msg b) + 1, sock_addr := fst indet\<rparr> \<and>
    reg_look (ec s') = (reg_look (ec s))(key := reg_look (ec s) key @ [sc_next (ec s)]) \<and>
    (sc_next (ec s), f) \<in> set (mem_limit_jobs s')"
proof -
  let ?rq = "(decode_msg b)\<lparr>client_ip := Ip4 ip\<rparr>"
  let ?rs = "msg_copy (fst indet) ?rq"
  let ?ans = "?rs\<lparr>request := request (decode_msg b) + 1\<rparr>"
  obtain q s1 where d: "determine_quota_for_new_pod (rsrc_amnt ?rq) s = (0, q, s1)"
    using pool by (auto simp: determine_quota_for_new_pod_def api_defs Let_def)
  then obtain ret res s' where run: "handle_add_cgroup_to_ec env now (Some ?rq) (Some ?rs) ip f s = Inr (ret, res, s')"
    using connecting_outcome [OF inv d, where ip = ip and env = env and now = now and rs = ?rs and f = f] by (auto simp: split_paired_all)
  note reg = connecting_registers [OF inv run]
  have "handle_req env now (Some ?rq) (Some ?rs) ip f s = Inr (ret, res, s')"
    using run init not_mem_cpu by (simp add: handle_req_def)
  moreover have "b \<noteq> []" using len by force
  moreover have "tcp_replies ALLOC_INIT r" for r by (simp add: tcp_replies_iff)
  moreover have "request ?rs = request (decode_msg b)" by (simp add: msg_copy_def)
  ultimately have "handle_client_reqs_tcp (handle_req env) indet write_ok ip f [(now, b)] srv s =
      Inr (if write_ok [] then [write_msg indet ?ans] else [], srv\<lparr>num_of_cli := num_of_cli srv + 1\<rparr>, s')"
    using reg decode_received [OF len, of ip] by (simp add: handle_client_reqs_tcp_def Let_def from_net_def to_uint32_def)
  moreover have "length (write_msg indet ?ans) = 56" "decode_msg (write_msg indet ?ans) = ?ans"
    by (simp_all add: write_msg_def length_encode_msg decode_encode_msg split: prod.splits)
  moreover have "?ans = (decode_msg b)\<lparr>client_ip := Ip4 ip, request := request (decode_msg b) + 1, sock_addr := fst indet\<rparr>"
    by (simp add: msg_copy_def)
  ultimately show ?thesis using reg unfolding key_def by (intro exI [of _ s'] exI [of _ "write_msg indet ?ans"]) (simp add: Let_def)
qed

theorem tcp_connect_witness:
  "\<exists>ans srv' s'. handle_client_reqs_tcp (handle_req (sample_env Http_Exception)) (8, 0, 0) (\<lambda>_. True) 1 9
       [(0, [1, 0, 0, 0, 3, 0, 0, 0, 2, 0, 0, 0, 0, 0, 0, 0, 64, 66, 15, 0] @ replicate 36 0)]
       (Server_new 3 4 1 (Ip4 1) (ports_new 1 2) []) sample_grow = Inr ([ans], srv', s') \<and>
     length ans = 56 \<and> rsrc_amnt (decode_msg ans) = 1000000 \<and> reg_look (ec s') (3, Ip4 1) = [0, 1]"
proof -
  have i: "ctl_inv sample_grow"
    unfolding sample_grow_def by (rule sample_ctl_inv) (rule sample_ec_wf, simp add: sample_ec_def)
  have h: "sc_next (ec sample_grow) = 1" "reg_look (ec sample_grow) (3, Ip4 1) = [0]" "unallocated_rt (ec_cpu (ec sample_grow)) = 60000000"
    by (simp_all add: sample_grow_def sample_eval reg_look_def)
  let ?b = "[1, 0, 0, 0, 3, 0, 0, 0, 2, 0, 0, 0, 0, 0, 0, 0, 64, 66, 15, 0] @ replicate 36 0 :: u8 list"
  have b: "length ?b = 56" by simp
  have f: "req_type (decode_msg ?b) = req_INIT" "rsrc_amnt (decode_msg ?b) = 1000000" "msg_t.cgroup_id (decode_msg ?b) = 3"
    by (simp_all add: decode_msg_def le32_at_def le64_at_def req_INIT_def nth_append)
  have "rsrc_amnt (decode_msg ?b) \<le> unallocated_rt (ec_cpu (ec sample_grow))" by (simp only: f h) simp
  from tcp_connect [OF i b f(1) this, where ip = 1 and env = "sample_env Http_Exception" and indet = "(8, 0, 0)"
      and write_ok = "\<lambda>_. True" and f = 9 and now = 0 and srv = "Server_new 3 4 1 (Ip4 1) (ports_new 1 2) []"]
  show ?thesis unfolding f(3) h(1) using f(2) h(2) by (auto simp del: append.simps replicate.simps)
qed

section \<open>Setting up the controllers\<close>

definition sock_ok :: "sock_results \<Rightarrow> bool" where
  "sock_ok r \<longleftrightarrow> socket_rv r \<noteq> 0 \<and> setsockopt_rv r = 0 \<and> \<not> sint (bind_rv r) < 0 \<and> \<not> sint (listen_rv r) < 0"

text \<open>The \<open>i\<close>-th controller, counted from 0: its id, its ports, and that its server is set up.\<close>

definition manager_ok :: "nat \<Rightarrow> ports_t list \<Rightarrow> manager \<Rightarrow> bool" where
  "manager_ok i ps m \<longleftrightarrow> server_id (snd m) = of_nat (Suc i) \<and> srv_ports (snd m) = ps ! i \<and>
     server_initialized (snd m) = 2 \<and> manager_id (fst m) = of_nat (Suc i) \<and> grpc_port (fst m) = 4447 + of_nat i"

lemma manager_new_ok:
  assumes "sock_ok r1" "sock_ok r2"
  shows "\<exists>m. Manager_new ind r1 r2 (of_nat (Suc i)) ip (ps ! i) ags = Inr m \<and> manager_ok i ps m"
  using assms
  by (simp add: Manager_new_def initialize_tcp_def initialize_udp_def Server_new_def sock_ok_def manager_ok_def BASE_GRPC_PORT_def Let_def)

definition managers_upto :: "nat \<Rightarrow> GCM \<Rightarrow> bool" where
  "managers_upto j g \<longleftrightarrow> manager_counts g = of_nat (Suc j) \<and> fst ` set (managers g) \<subseteq> (\<lambda>i. of_nat (Suc i)) ` {..<j} \<and>
     (\<forall>i < j. \<exists>m. um_find id (managers g) (of_nat (Suc i)) = Some m \<and> manager_ok i (controller_ports g) m)"

lemma managers_uptoD:
  assumes "managers_upto j g" "i < j"
  shows "\<exists>m. um_find id (managers g) (of_nat (Suc i)) = Some m \<and> manager_ok i (controller_ports g) m"
  using assms unfolding managers_upto_def by (elim conjE allE impE)

lemma i32_of_nat_inject: "i < 2 ^ 31 \<Longrightarrow> j < 2 ^ 31 \<Longrightarrow> (of_nat i :: i32) = of_nat j \<longleftrightarrow> i = j"
  by (auto simp: word_unat_eq_iff unsigned_of_nat take_bit_nat_eq_self)

lemma sint_of_nat_i32: "i < 2 ^ 31 \<Longrightarrow> sint (of_nat i :: i32) = int i"
  by (simp add: signed_of_nat signed_take_bit_int_eq_self)

lemma create_manager_next:
  assumes upto: "managers_upto j g" and room: "j < length (controller_ports g)" "Suc j < 2 ^ 31" and ok: "sock_ok r1" "sock_ok r2"
  shows "\<exists>r g'. create_manager ind r1 r2 g = Inr (r, g') \<and> managers_upto (Suc j) g' \<and> controller_ports g' = controller_ports g"
proof -
  have c: "manager_counts g = of_nat (Suc j)" and keys: "fst ` set (managers g) \<subseteq> (\<lambda>i. of_nat (Suc i)) ` {..<j}"
    using upto by (simp_all add: managers_upto_def)
  have "of_nat (Suc j) \<notin> fst ` set (managers g)"
  proof
    assume "of_nat (Suc j) \<in> fst ` set (managers g)"
    then obtain i where "i < j" "(of_nat (Suc j) :: i32) = of_nat (Suc i)" using keys by blast
    then show False using i32_of_nat_inject [of "Suc j" "Suc i"] room(2) by simp
  qed
  then have fresh: "um_find id (managers g) (of_nat (Suc j)) = None" by (simp add: um_find_None_iff)
  have idx: "of_nat (Suc j) - 1 = (of_nat j :: i32)" by simp
  obtain m where m: "Manager_new ind r1 r2 (of_nat (Suc j)) (gcm_ip g) (controller_ports g ! j) (gcm_agents g) = Inr m"
    "manager_ok j (controller_ports g) m" using manager_new_ok [OF ok] by blast
  let ?g = "g\<lparr>managers := um_insert id (of_nat (Suc j)) m (managers g), manager_counts := of_nat (Suc j) + 1\<rparr>"
  have "create_manager ind r1 r2 g = Inr (server_id (snd m), ?g)"
    unfolding create_manager_def c Let_def idx
    using room m(1) fresh sint_of_nat_i32 [of j] by (simp del: of_nat_Suc)
  moreover have "managers_upto (Suc j) ?g"
  proof -
    have "um_find id (managers ?g) (of_nat (Suc i)) = (if i = j then Some m else um_find id (managers g) (of_nat (Suc i)))"
      if "i < Suc j" for i
      using fresh i32_of_nat_inject [of "Suc j" "Suc i"] that room(2) by (simp add: um_find_insert del: of_nat_Suc)
    moreover have "fst ` set (managers ?g) \<subseteq> (\<lambda>i. of_nat (Suc i)) ` {..<Suc j}"
      using keys fresh by (auto simp: um_insert_def lessThan_Suc split: option.splits)
    ultimately show ?thesis using upto m(2) by (cases m) (auto simp: managers_upto_def less_Suc_eq)
  qed
  ultimately show ?thesis by (intro exI [of _ "server_id (snd m)"] exI [of _ ?g]) simp
qed

lemma create_managers_upto:
  "managers_upto j g \<Longrightarrow> j + n \<le> length (controller_ports g) \<Longrightarrow> j + n < 2 ^ 31 \<Longrightarrow>
     (\<forall>i < n. sock_ok (fst (rv i)) \<and> sock_ok (snd (rv i))) \<Longrightarrow>
     \<exists>g'. create_managers ind rv n g = Inr g' \<and> managers_upto (j + n) g' \<and> controller_ports g' = controller_ports g"
proof (induction n arbitrary: j g)
  case (Suc n)
  obtain r g1 where g1: "create_manager (ind n) (fst (rv n)) (snd (rv n)) g = Inr (r, g1)" "managers_upto (Suc j) g1"
    "controller_ports g1 = controller_ports g"
    using create_manager_next [OF Suc.prems(1), of "fst (rv n)" "snd (rv n)" "ind n"] Suc.prems by auto
  have "\<exists>g'. create_managers ind rv n g1 = Inr g' \<and> managers_upto (Suc j + n) g' \<and> controller_ports g' = controller_ports g1"
    using Suc.prems g1 by (intro Suc.IH) auto
  then show ?case using g1 by auto
qed simp

text \<open>
  C29: one controller per tenant. With as many port pairs as tenants and sockets that can be set up,
  the loop of \<open>main\<close> creates controllers with the ids 1, 2, and so on, each found under its id
  with the ports 5000 + i and 6000 + i and the deployment service at port 4447 + i, and its server
  ready to serve; the controller that \<open>run\<close> starts is the first one, and no other is started.
\<close>

theorem managers_created:
  assumes new: "GCM_new inet ip port ags (tenant_ports (of_nat n)) = Inr g" and n: "0 < n" "n < 2 ^ 31"
    and socks: "\<forall>i < n. sock_ok (fst (rv i)) \<and> sock_ok (snd (rv i))"
  shows "\<exists>g'. create_managers ind rv n g = Inr g' \<and>
    (\<forall>i < n. \<exists>m. get_manager g' (of_nat (Suc i)) = Inr m \<and> server_id (snd m) = of_nat (Suc i) \<and>
       srv_ports (snd m) = ports_new (of_nat (5000 + i)) (of_nat (6000 + i)) \<and> grpc_port (fst m) = 4447 + of_nat i \<and>
       serve_guard (snd m) = Inr ()) \<and>
    (\<exists>m. get_manager g' 1 = Inr m \<and> gcm_run g' = manager_start m)"
proof -
  have ports: "length (tenant_ports (of_nat n)) = n" "i < n \<Longrightarrow> tenant_ports (of_nat n) ! i = ports_new (of_nat (5000 + i)) (of_nat (6000 + i))" for i
    using sint_of_nat_i32 [OF n(2)] by (simp_all add: tenant_ports_def)
  have g: "controller_ports g = tenant_ports (of_nat n)" "managers_upto 0 g"
    using new by (auto simp: GCM_new_def bind_r_eq_Inr managers_upto_def split: if_splits)
  obtain g' where g': "create_managers ind rv n g = Inr g'" "managers_upto n g'" "controller_ports g' = tenant_ports (of_nat n)"
    using create_managers_upto [OF g(2), of n rv ind] ports g(1) n(2) socks by auto
  have each: "\<exists>m. get_manager g' (of_nat (Suc i)) = Inr m \<and> server_id (snd m) = of_nat (Suc i) \<and>
       srv_ports (snd m) = ports_new (of_nat (5000 + i)) (of_nat (6000 + i)) \<and> grpc_port (fst m) = 4447 + of_nat i \<and>
       serve_guard (snd m) = Inr ()" if i: "i < n" for i
  proof -
    obtain m where m: "um_find id (managers g') (of_nat (Suc i)) = Some m" "manager_ok i (controller_ports g') m"
      using managers_uptoD [OF g'(2) i] by (elim exE conjE)
    then have "get_manager g' (of_nat (Suc i)) = Inr m" "serve_guard (snd m) = Inr ()"
      by (simp_all only: get_manager_def manager_ok_def serve_guard_def option.case not_True_eq_False if_False simp_thms)
    with m(2) ports(2) [OF i] show ?thesis unfolding manager_ok_def g'(3) by (intro exI [of _ m] conjI) simp_all
  qed
  obtain m where m: "get_manager g' 1 = Inr m" using each [OF n(1)] by auto
  then have "gcm_run g' = manager_start m" by (simp add: get_manager_def gcm_run_def split: option.splits)
  with g'(1) each m show ?thesis by blast
qed

theorem managers_created_witness:
  "\<exists>g g' m. GCM_new (\<lambda>_. 1) ''a'' 8888 [''b''] (tenant_ports (of_nat 2)) = Inr g \<and>
     create_managers (\<lambda>_. (sample_started, Server_new 0 0 0 ip4_default (ports_new 0 0) []))
       (\<lambda>_. (\<lparr>socket_rv = 3, setsockopt_rv = 0, bind_rv = 0, listen_rv = 0\<rparr>,
          \<lparr>socket_rv = 4, setsockopt_rv = 0, bind_rv = 0, listen_rv = 0\<rparr>)) 2 g = Inr g' \<and>
     get_manager g' 2 = Inr m \<and> srv_ports (snd m) = ports_new 5001 6001"
proof -
  let ?rv = "\<lambda>_ :: nat. (\<lparr>socket_rv = 3, setsockopt_rv = 0, bind_rv = 0, listen_rv = 0\<rparr>,
       \<lparr>socket_rv = 4, setsockopt_rv = 0, bind_rv = 0, listen_rv = 0\<rparr>)"
  let ?ind = "\<lambda>_ :: nat. (sample_started, Server_new 0 0 0 ip4_default (ports_new 0 0) [])"
  obtain g where g: "GCM_new (\<lambda>_. 1) ''a'' 8888 [''b''] (tenant_ports (of_nat 2)) = Inr g"
    by (simp add: GCM_new_def from_string_def ip4_parse_def Agent_new_def Let_def)
  have socks: "\<forall>i < 2. sock_ok (fst (?rv i)) \<and> sock_ok (snd (?rv i))" by (simp add: sock_ok_def)
  have "(0 :: nat) < 2" "(2 :: nat) < 2 ^ 31" by simp_all
  note made = managers_created [OF g this socks, of ?ind]
  then obtain g' where g': "create_managers ?ind ?rv 2 g = Inr g'"
    "\<exists>m. get_manager g' (of_nat (Suc 1)) = Inr m \<and> srv_ports (snd m) = ports_new (of_nat (5000 + 1)) (of_nat (6000 + 1))"
    by (meson one_less_numeral_iff semiring_norm(76))
  with g show ?thesis by auto
qed

end
