(* ===== verification/Pool_Threads.thy ===== *)
theory Pool_Threads
  imports Manager_Cpu "HOL-Library.Multiset"
begin

text \<open>
  Handlers run in threads of their own, and only the single accesses to a pool are atomic: each takes
  the mutex of one field of \<open>ec::global::stats::cpu\<close>. Here the bookkeeping of a handler is the list of
  its accesses, and several handlers interleave access by access.

  A handler decides on what it has read before, so its list of accesses is fixed once the amounts
  are chosen: \<open>transfer_ops\<close> for the branches of the report handler (each is a transfer, by
  \<open>Manager_Cpu\<close>), \<open>connect_ops\<close> for the quota of a new container.

  Main results: while the pools cover everything that is taken, every interleaving of any number of
  transfers ends where running them one after the other ends (\<open>concurrent_transfers\<close>). Two
  handlers that chose their amounts from the same reading of the pool hand out more than there is
  (\<open>concurrent_grants\<close>), and a connecting container can wipe out time that is given back at the same
  time (\<open>connect_wipes_give_back\<close>).
\<close>

section \<open>Accesses\<close>

datatype pool = Unalloc | Alloc | Overrun

datatype access = Up u64 | Down u64 | Put u64

type_synonym pool_op = "pool \<times> access"

fun pool_get :: "pool \<Rightarrow> cpu_g \<Rightarrow> u64" where
  "pool_get Unalloc c = unallocated_rt c"
| "pool_get Alloc c = alloc_rt c"
| "pool_get Overrun c = overrun c"

text \<open>There is no operation that sets the allocated time; that access is never used.\<close>

fun pool_apply :: "pool_op \<Rightarrow> cpu_g \<Rightarrow> cpu_g" where
  "pool_apply (Unalloc, Up n) c = cpu_incr_unallocated_rt n c"
| "pool_apply (Unalloc, Down n) c = cpu_decr_unallocated_rt n c"
| "pool_apply (Unalloc, Put n) c = cpu_set_unallocated_rt n c"
| "pool_apply (Alloc, Up n) c = cpu_incr_alloc_rt n c"
| "pool_apply (Alloc, Down n) c = cpu_decr_alloc_rt n c"
| "pool_apply (Alloc, Put n) c = c"
| "pool_apply (Overrun, Up n) c = cpu_incr_overrun n c"
| "pool_apply (Overrun, Down n) c = cpu_decr_overrun n c"
| "pool_apply (Overrun, Put n) c = cpu_set_overrun n c"

text \<open>
  The order of the two accesses is that of the branches that set a quota. The mismatch branch
  (lines 116 and 117 of \<open>Manager.cpp\<close>) gives time back in the other order; \<open>concurrent_transfers\<close> holds
  for every permutation of the accesses and so does not depend on it.
\<close>

fun transfer_ops :: "transfer \<Rightarrow> pool_op list" where
  "transfer_ops (Grant n) = [(Unalloc, Down n), (Alloc, Up n)]"
| "transfer_ops (Give_Back n) = [(Unalloc, Up n), (Alloc, Down n)]"
| "transfer_ops (Borrow n) = [(Overrun, Up n), (Alloc, Up n)]"
| "transfer_ops (Repay n) = [(Overrun, Down n), (Alloc, Down n)]"

lemma fold_transfer_ops: "fold pool_apply (transfer_ops t) c = apply_transfer t c"
  by (cases t) simp_all

text \<open>
  The accesses of \<open>determine_quota_for_new_pod\<close> when the unallocated time it reads is \<open>u\<close> (it reads it up to
  three times; the model has no access of another thread in between).
\<close>

definition connect_ops :: "u64 \<Rightarrow> u64 \<Rightarrow> u64 \<Rightarrow> pool_op list" where
  "connect_ops req u sl =
     (if req \<le> u then [(Unalloc, Down req), (Alloc, Up req)]
      else if u = 0 then [(Overrun, Up sl), (Alloc, Up sl)]
      else [(Unalloc, Put 0), (Alloc, Up u)])"

lemma determine_quota_ops:
  assumes "determine_quota_for_new_pod req s = (fl, q, s')"
  shows "ec_cpu (ec s') = fold pool_apply (connect_ops req (unallocated_rt (ec_cpu (ec s))) (slice_size (ec_cpu (ec s)))) (ec_cpu (ec s))"
  using assms by (auto simp: determine_quota_for_new_pod_def connect_ops_def Let_def api_defs split: if_splits)

section \<open>One counter\<close>

text \<open>What an access does to the value of its counter.\<close>

fun access_val :: "access \<Rightarrow> u64 \<Rightarrow> u64" where
  "access_val (Up n) v = v + n"
| "access_val (Down n) v = (if sint (v - n) < 0 then 0 else v - n)"
| "access_val (Put n) v = n"

fun access_delta :: "access \<Rightarrow> u64" where
  "access_delta (Up n) = n"
| "access_delta (Down n) = - n"
| "access_delta (Put n) = 0"

fun access_up :: "access \<Rightarrow> nat" where
  "access_up (Up n) = unat n"
| "access_up _ = 0"

fun access_down :: "access \<Rightarrow> nat" where
  "access_down (Down n) = unat n"
| "access_down _ = 0"

text \<open>The pool covers a list of increments and decrements, in whatever order they come.\<close>

definition covers :: "u64 \<Rightarrow> access list \<Rightarrow> bool" where
  "covers v as \<longleftrightarrow> (\<forall>n. Put n \<notin> set as) \<and> unat v + sum_list (map access_up as) < 2 ^ 63 \<and> sum_list (map access_down as) \<le> unat v"

lemma covers_mset: "mset as = mset bs \<Longrightarrow> covers v as = covers v bs"
  unfolding covers_def by (metis mset_eq_setD mset_map sum_mset_sum_list)

lemma fold_access_val: "covers v as \<Longrightarrow> fold access_val as v = v + sum_list (map access_delta as)"
proof (induction as arbitrary: v)
  case (Cons a as)
  show ?case
  proof (cases a)
    case (Up n)
    with Cons.prems have "unat (v + n) = unat v + unat n" by (intro unat_plus_no_overflow) (simp add: covers_def)
    with Up Cons.prems have "covers (v + n) as" by (auto simp: covers_def)
    with Up Cons.IH show ?thesis by (simp add: add.assoc)
  next
    case (Down n)
    with Cons.prems have n: "unat n \<le> unat v" "unat v < 2 ^ 63" by (auto simp: covers_def)
    with Down Cons.prems have "covers (v - n) as" by (auto simp: covers_def unat_minus_no_borrow)
    with Down n Cons.IH [of "v - n"] show ?thesis using decr_exact [of v n] by simp
  qed (use Cons.prems in \<open>auto simp: covers_def\<close>)
qed simp

section \<open>All counters\<close>

definition accesses :: "pool \<Rightarrow> pool_op list \<Rightarrow> access list" where
  "accesses x ops = map snd (filter (\<lambda>op. fst op = x) ops)"

lemma accesses_simps [simp]:
  "accesses x [] = []" "accesses x (op # ops) = (if fst op = x then [snd op] else []) @ accesses x ops"
  by (simp_all add: accesses_def)

lemma accesses_mset: "mset ops = mset ops' \<Longrightarrow> mset (accesses x ops) = mset (accesses x ops')"
  by (simp add: accesses_def mset_filter)

text \<open>An access reaches its own counter only, and there it does what \<open>access_val\<close> says.\<close>

definition op_ok :: "pool_op \<Rightarrow> bool" where
  "op_ok op \<longleftrightarrow> (\<forall>n. op \<noteq> (Alloc, Put n))"

lemma pool_get_apply:
  "op_ok op \<Longrightarrow> pool_get x (pool_apply op c) = (if fst op = x then access_val (snd op) (pool_get x c) else pool_get x c)"
  by (cases "(op, c)" rule: pool_apply.cases; cases x)
    (simp_all add: op_ok_def stat_simps unalloc_ctr.get_decr alloc_ctr.get_decr overrun_ctr.get_decr cpu_set_overrun_def)

lemma pool_get_fold:
  "list_all op_ok ops \<Longrightarrow> pool_get x (fold pool_apply ops c) = fold access_val (accesses x ops) (pool_get x c)"
  by (induction ops arbitrary: c) (simp_all add: pool_get_apply)

lemma pool_frame [simp]: "total_cpu (pool_apply op c) = total_cpu c" "slice_size (pool_apply op c) = slice_size c"
  by (cases "(op, c)" rule: pool_apply.cases; simp add: stat_simps cpu_set_overrun_def)+

lemma pool_fold_frame [simp]:
  "total_cpu (fold pool_apply ops c) = total_cpu c" "slice_size (fold pool_apply ops c) = slice_size c"
  by (induction ops arbitrary: c) simp_all

lemma pool_eqI:
  assumes "\<And>x. pool_get x c = pool_get x d" "total_cpu c = total_cpu d" "slice_size c = slice_size d"
  shows "c = (d :: cpu_g)"
  using assms(1) [of Unalloc] assms(1) [of Alloc] assms(1) [of Overrun] assms(2,3) by (intro cpu_g.equality) simp_all

lemma fold_pool_exact:
  assumes "list_all op_ok ops" "covers (pool_get x c) (accesses x ops)"
  shows "pool_get x (fold pool_apply ops c) = pool_get x c + sum_list (map access_delta (accesses x ops))"
  using assms by (simp add: pool_get_fold fold_access_val)

lemma op_ok_transfers: "list_all op_ok (concat (map transfer_ops ts))"
proof -
  have "list_all op_ok (transfer_ops t)" for t by (cases t) (simp_all add: op_ok_def)
  then show ?thesis by (induction ts) simp_all
qed

lemma fold_transfers: "fold pool_apply (concat (map transfer_ops ts)) c = fold apply_transfer ts c"
  by (induction ts arbitrary: c) (simp_all add: fold_transfer_ops)

text \<open>The pools cover a list of transfers: what each takes from a pool is there from the start.\<close>

definition pools_cover :: "cpu_g \<Rightarrow> transfer list \<Rightarrow> bool" where
  "pools_cover c ts \<longleftrightarrow> (\<forall>x. covers (pool_get x c) (accesses x (concat (map transfer_ops ts))))"

lemma ledger_pools: "cpu_ledger c = pool_get Alloc c + pool_get Unalloc c - pool_get Overrun c - total_cpu c"
  by (simp add: cpu_ledger_def)

lemma transfers_ledger_delta:
  "sum_list (map access_delta (accesses Alloc (concat (map transfer_ops ts)))) +
   sum_list (map access_delta (accesses Unalloc (concat (map transfer_ops ts)))) =
   sum_list (map access_delta (accesses Overrun (concat (map transfer_ops ts))))"
proof (induction ts)
  case (Cons t ts)
  have app: "accesses x (a @ b) = accesses x a @ accesses x b" for x a b by (simp add: accesses_def)
  from Cons show ?case by (cases t) (simp_all add: app algebra_simps)
qed simp

text \<open>
  C3: the books under concurrency. Any number of handlers carry out transfers at the same time, their
  accesses to the pools in any order whatever; the pools cover from the start what the handlers take.
  Then the pools end up exactly as if the handlers had run one after the other, in any order, and the
  books are as balanced as before.
\<close>

theorem concurrent_transfers:
  assumes "pools_cover c ts" and "mset ops = mset (concat (map transfer_ops ts))"
  shows "fold pool_apply ops c = fold apply_transfer ts c \<and> cpu_ledger (fold pool_apply ops c) = cpu_ledger c"
proof -
  let ?seq = "concat (map transfer_ops ts)" and ?sum = "\<lambda>x ops. sum_list (map access_delta (accesses x ops))"
  have ok: "list_all op_ok ops"
    using op_ok_transfers [of ts] mset_eq_setD [OF assms(2)] unfolding list_all_iff by simp
  note perm = accesses_mset [OF assms(2)]
  have cov: "covers (pool_get x c) (accesses x ops)" "covers (pool_get x c) (accesses x ?seq)" for x
    using assms(1) covers_mset [OF perm] by (simp_all add: pools_cover_def)
  have sums: "?sum x ops = ?sum x ?seq" for x using perm [of x] by (metis mset_map sum_mset_sum_list)
  have get: "pool_get x (fold pool_apply ops c) = pool_get x c + ?sum x ?seq"
    "pool_get x (fold pool_apply ?seq c) = pool_get x c + ?sum x ?seq" for x
    using fold_pool_exact [OF ok cov(1), of x] fold_pool_exact [OF op_ok_transfers cov(2), of x] sums by simp_all
  then have "fold pool_apply ops c = fold pool_apply ?seq c" by (intro pool_eqI) simp_all
  moreover have "cpu_ledger (fold pool_apply ops c) = cpu_ledger c"
    unfolding ledger_pools get(1) using transfers_ledger_delta [of ts] by (simp add: algebra_simps)
  ultimately show ?thesis by (simp add: fold_transfers)
qed

theorem concurrent_transfers_witness:
  "fold pool_apply [(Unalloc, Up 3), (Unalloc, Down 5), (Alloc, Up 5), (Alloc, Down 3)]
       \<lparr>slice_size = 1, unallocated_rt = 5, total_cpu = 9, overrun = 0, alloc_rt = 4\<rparr> =
     \<lparr>slice_size = 1, unallocated_rt = 3, total_cpu = 9, overrun = 0, alloc_rt = 6\<rparr>"
proof -
  let ?c = "\<lparr>slice_size = 1, unallocated_rt = 5, total_cpu = 9, overrun = 0, alloc_rt = 4\<rparr> :: cpu_g"
  have "covers (pool_get x ?c) (accesses x (concat (map transfer_ops [Grant 5, Give_Back 3])))" for x
    by (cases x) (simp_all add: covers_def)
  then have "pools_cover ?c [Grant 5, Give_Back 3]" by (simp add: pools_cover_def)
  from concurrent_transfers [OF this, of "[(Unalloc, Up 3), (Unalloc, Down 5), (Alloc, Up 5), (Alloc, Down 3)]"]
  show ?thesis
    by (simp add: cpu_incr_alloc_rt_def cpu_decr_alloc_rt_def cpu_incr_unallocated_rt_def cpu_decr_unallocated_rt_def)
qed

section \<open>Races\<close>

lemma cut_off: "unat v < 2 ^ 63 \<Longrightarrow> unat n < 2 ^ 63 \<Longrightarrow> unat (access_val (Down n) v) = unat v - unat n"
  by (auto simp: sint_minus_neg_iff unat_minus_no_borrow not_less)

text \<open>
  C4: two handlers that read the unallocated time before either of them takes its share, as reports of
  two throttled containers do when they arrive together. Each takes at most what it has read, but
  together they take more than there is. Then, in whatever order their accesses come, the
  unallocated time is cut off at zero and the books are off by what was handed out twice.
\<close>

theorem concurrent_grants:
  fixes x y :: u64
  assumes "unat (unallocated_rt c) < 2 ^ 62"
  defines "m \<equiv> min (unallocated_rt c) x" and "n \<equiv> min (unallocated_rt c) y"
  assumes twice: "unat (unallocated_rt c) < unat m + unat n"
    and ops: "ops \<in> shuffles (transfer_ops (Grant m)) (transfer_ops (Grant n))"
  shows "unallocated_rt (fold pool_apply ops c) = 0 \<and>
    cpu_ledger (fold pool_apply ops c) = cpu_ledger c + (m + n - unallocated_rt c)"
proof -
  let ?u = "unallocated_rt c"
  have small: "unat m \<le> unat ?u" "unat n \<le> unat ?u" unfolding m_def n_def by (simp_all add: word_le_nat_alt [symmetric])
  have perm: "mset ops = mset [(Unalloc, Down m), (Alloc, Up m), (Unalloc, Down n), (Alloc, Up n)]"
    using mset_shuffles [OF ops] by simp
  have ok: "list_all op_ok ops" using mset_eq_setD [OF perm] by (simp add: list_all_iff op_ok_def)
  have "access_val (Down a) (access_val (Down b) ?u) = 0" if "{a, b} = {m, n}" for a b
  proof -
    have "unat (access_val (Down a) (access_val (Down b) ?u)) = unat ?u - unat b - unat a"
      using small assms(1) that by (subst cut_off; (subst cut_off)?) (auto simp: doubleton_eq_iff)
    then show ?thesis using twice that by (auto simp: doubleton_eq_iff unat_eq_zero)
  qed
  moreover have "accesses Unalloc ops = [Down m, Down n] \<or> accesses Unalloc ops = [Down n, Down m]"
    "accesses Alloc ops = [Up m, Up n] \<or> accesses Alloc ops = [Up n, Up m]" "accesses Overrun ops = []"
    using ops by (auto simp: shuffles.simps)
  ultimately have "pool_get Unalloc (fold pool_apply ops c) = 0" "pool_get Overrun (fold pool_apply ops c) = overrun c"
    "pool_get Alloc (fold pool_apply ops c) = alloc_rt c + (m + n)"
    using pool_get_fold [OF ok] by (auto simp: algebra_simps insert_commute simp del: access_val.simps(2))
  then show ?thesis unfolding ledger_pools by (simp add: algebra_simps)
qed

theorem concurrent_grants_witness:
  "unallocated_rt (fold pool_apply [(Unalloc, Down 6), (Unalloc, Down 7), (Alloc, Up 7), (Alloc, Up 6)]
       \<lparr>slice_size = 1, unallocated_rt = 7, total_cpu = 20, overrun = 0, alloc_rt = 13\<rparr>) = 0 \<and>
   cpu_ledger (fold pool_apply [(Unalloc, Down 6), (Unalloc, Down 7), (Alloc, Up 7), (Alloc, Up 6)]
       \<lparr>slice_size = 1, unallocated_rt = 7, total_cpu = 20, overrun = 0, alloc_rt = 13\<rparr>) = 6"
proof -
  let ?c = "\<lparr>slice_size = 1, unallocated_rt = 7, total_cpu = 20, overrun = 0, alloc_rt = 13\<rparr> :: cpu_g"
  have min: "min (7 :: u64) 6 = 6" "min (7 :: u64) 9 = 7" by (simp_all add: min_def)
  let ?ops = "[(Unalloc, Down 6), (Unalloc, Down 7), (Alloc, Up 7), (Alloc, Up 6)]"
  have "unallocated_rt (fold pool_apply ?ops ?c) = 0 \<and> cpu_ledger (fold pool_apply ?ops ?c) =
      cpu_ledger ?c + (min (unallocated_rt ?c) 6 + min (unallocated_rt ?c) 9 - unallocated_rt ?c)"
    by (rule concurrent_grants) (simp_all add: min shuffles.simps)
  moreover have "cpu_ledger ?c + (min (unallocated_rt ?c) 6 + min (unallocated_rt ?c) 9 - unallocated_rt ?c) = 6"
    by (simp add: cpu_ledger_def min)
  ultimately show ?thesis by (simp only: simp_thms)
qed

text \<open>
  C21: a container connects and asks for more than is unallocated while another handler gives time back.
  \<open>determine_quota_for_new_pod\<close> takes over the amount \<open>u\<close> that it has read and then sets the unallocated time
  to zero. If the time that is given back arrives before that, it is lost and the books fall short by
  it; otherwise they stay as they were.
\<close>

theorem connect_wipes_give_back:
  fixes c :: cpu_g
  defines "u \<equiv> unallocated_rt c"
  assumes short: "u < req" "u \<noteq> 0" and alloc: "unat (alloc_rt c) + unat u < 2 ^ 63" "unat n \<le> unat (alloc_rt c)"
    and ops: "ops \<in> shuffles (connect_ops req u sl) (transfer_ops (Give_Back n))"
  shows "cpu_ledger (fold pool_apply ops c) =
    (if accesses Unalloc ops = [Up n, Put 0] then cpu_ledger c - n else cpu_ledger c)"
proof -
  have c: "connect_ops req u sl = [(Unalloc, Put 0), (Alloc, Up u)]" using short by (simp add: connect_ops_def)
  have perm: "mset ops = mset [(Unalloc, Put 0), (Alloc, Up u), (Unalloc, Up n), (Alloc, Down n)]"
    using mset_shuffles [OF ops] by (simp add: c)
  have ok: "list_all op_ok ops" using mset_eq_setD [OF perm] by (simp add: list_all_iff op_ok_def)
  have seqs: "accesses Unalloc ops = [Up n, Put 0] \<or> accesses Unalloc ops = [Put 0, Up n]"
    "mset (accesses Alloc ops) = mset [Up u, Down n]" "accesses Overrun ops = []"
    using ops by (auto simp: c shuffles.simps)
  have "covers (alloc_rt c) (accesses Alloc ops)" using alloc unfolding covers_mset [OF seqs(2)] by (simp add: covers_def)
  moreover have "sum_list (map access_delta (accesses Alloc ops)) = u - n"
    using seqs(2) by (metis (no_types, lifting) access_delta.simps(1,2) add.right_neutral diff_conv_add_uminus
        list.simps(8,9) mset_map sum_list.Cons sum_list.Nil sum_mset_sum_list)
  ultimately have "pool_get Alloc (fold pool_apply ops c) = alloc_rt c + (u - n)"
    using fold_pool_exact [OF ok, of Alloc c] by simp
  moreover have "pool_get Overrun (fold pool_apply ops c) = overrun c" using pool_get_fold [OF ok, of Overrun c] seqs(3) by simp
  moreover have "pool_get Unalloc (fold pool_apply ops c) = (if accesses Unalloc ops = [Up n, Put 0] then 0 else n)"
    using pool_get_fold [OF ok, of Unalloc c] seqs(1) by auto
  ultimately show ?thesis unfolding ledger_pools by (simp add: u_def algebra_simps)
qed

theorem connect_wipes_give_back_witness:
  "cpu_ledger (fold pool_apply [(Unalloc, Up 3), (Unalloc, Put 0), (Alloc, Up 7), (Alloc, Down 3)]
     \<lparr>slice_size = 1, unallocated_rt = 7, total_cpu = 20, overrun = 0, alloc_rt = 13\<rparr>) = - 3"
proof -
  let ?c = "\<lparr>slice_size = 1, unallocated_rt = 7, total_cpu = 20, overrun = 0, alloc_rt = 13\<rparr> :: cpu_g"
  let ?ops = "[(Unalloc, Up 3), (Unalloc, Put 0), (Alloc, Up 7), (Alloc, Down 3)]"
  have "cpu_ledger (fold pool_apply ?ops ?c) = (if accesses Unalloc ?ops = [Up 3, Put 0] then cpu_ledger ?c - 3 else cpu_ledger ?c)"
    by (rule connect_wipes_give_back [where req = 9 and sl = 1]) (simp_all add: connect_ops_def shuffles.simps)
  moreover have "accesses Unalloc ?ops = [Up 3, Put 0]" "cpu_ledger ?c - 3 = - 3" by (simp_all add: cpu_ledger_def)
  ultimately show ?thesis by (simp only: simp_thms if_True)
qed

end
