(* ===== verification/Handler_Races.thy ===== *)
theory Handler_Races
  imports Core_Properties Pool_Threads
begin

text \<open>
  A report handler looks its container up first (line 84 of \<open>Manager.cpp\<close>) and works on the pointer from
  then on, while connects and removals of other threads change the registry. Each change of the
  registry is taken as one step here; in the code only the removal holds the lock \<open>sc_map_lock\<close>, so that
  a lookup or an insertion at the very same time is a data race on top of what is shown below.

  Main results: the pointer stays good while fewer containers of the id are removed than were
  registered under it (\<open>held_pointer_live\<close>); a removal frees it once a second container has connected
  under the id and no older one is left (\<open>held_pointer_freed\<close>).
\<close>

section \<open>What a handler holds\<close>

text \<open>The pointer is registered under its key, behind at least \<open>n\<close> older ones.\<close>

definition held :: "cid_key_t \<Rightarrow> nat \<Rightarrow> sc_ptr \<Rightarrow> ElasticContainer \<Rightarrow> bool" where
  "held j n p e \<longleftrightarrow> ec_wf e \<and> (\<exists>older newer. reg_look e j = older @ p # newer \<and> n \<le> length older)"

fun removes_key :: "cid_key_t \<Rightarrow> reg_call \<Rightarrow> bool" where
  "removes_key j (Reg_Add now cg ip f q t) \<longleftrightarrow> False"
| "removes_key j (Reg_Delete k) \<longleftrightarrow> cid_key k = j"

definition removals :: "cid_key_t \<Rightarrow> reg_call list \<Rightarrow> nat" where
  "removals j cs = length (filter (removes_key j) cs)"

lemma held_live: "held j n p e \<Longrightarrow> \<exists>sc. sc_heap e p = Some sc \<and> cid_key (c_id sc) = j"
  using ec_wf_look(3) [of e p j] by (auto simp: held_def)

lemma lookup_held:
  assumes "ec_wf e" and "get_sc_for_update_back e k = Inr p" and "n < length (reg_look e (cid_key k))"
  shows "held (cid_key k) n p e"
proof -
  let ?q = "reg_look e (cid_key k)"
  have "?q \<noteq> []" "p = last ?q"
    using assms(2) lookups_abs(1) [OF assms(1), of k] by (auto simp: reg_abs_def split: if_splits)
  then have "?q = butlast ?q @ p # []" by simp
  then show ?thesis using assms(1,3) unfolding held_def by (metis One_nat_def Suc_pred diff_Suc_1 length_append_singleton
        less_Suc_eq_le)
qed

text \<open>An insertion writes one fresh address.\<close>

lemma reg_add_exec:
  assumes "ec_wf e"
  obtains e' where "reg_exec (Reg_Add now cg ip f q t) e = Inr e'" and "ec_wf e'"
    and "reg_look e' = (reg_look e)((cg, Ip4 ip) := reg_look e (cg, Ip4 ip) @ [sc_next e])"
    and "sc_heap e' = (sc_heap e)(sc_next e \<mapsto> SubContainer_new_quota now cg ip f q t)"
proof -
  obtain p e1 where c: "create_new_sc_quota now cg ip f q t e = (p, e1)" by force
  let ?sc = "SubContainer_new_quota now cg ip f q t"
  let ?e' = "reg_push (cid_key (c_id ?sc)) p e1"
  from c have p: "p = sc_next e" "sc_heap e1 = (sc_heap e)(p \<mapsto> ?sc)" by (auto simp: create_new_sc_quota_def)
  then have i: "insert_sc p e1 = Inr (ALLOC_INIT, ?e')" by (intro insert_sc_eq(1)) simp
  have "reg_exec (Reg_Add now cg ip f q t) e = Inr ?e'" using c i by simp
  then show ?thesis using create_insert [OF assms c i] p by (intro that [of ?e']) (simp_all add: reg_push_frame)
qed

text \<open>A removal frees the oldest container of a queue of two or more, and nothing else.\<close>

lemma reg_delete_exec:
  assumes "ec_wf e"
  obtains e' where "reg_exec (Reg_Delete k) e = Inr e'" and "ec_wf e'"
    and "reg_look e' = (reg_look e)(cid_key k := tl (reg_look e (cid_key k)))"
    and "sc_heap e' = (case reg_look e (cid_key k) of p # p' # ps \<Rightarrow> (sc_heap e)(p := None) | _ \<Rightarrow> sc_heap e)"
  using that [of "reg_pop (cid_key k) e"] delete_eq(1,3) [OF assms, of k] reg_look_find [of e k]
    registry.invar_pop [OF assms, of "cid_key k"] registry.look_pop [OF assms, of "cid_key k"]
  by (simp split: option.splits list.splits)

lemma held_add:
  assumes h: "held j n p e" and run: "reg_exec (Reg_Add now cg ip f q t) e = Inr e'"
  shows "held j n p e' \<and> sc_heap e' p = sc_heap e p"
proof -
  from h have wf: "ec_wf e" by (simp add: held_def)
  obtain e1 where e1: "reg_exec (Reg_Add now cg ip f q t) e = Inr e1" "ec_wf e1"
    "reg_look e1 = (reg_look e)((cg, Ip4 ip) := reg_look e (cg, Ip4 ip) @ [sc_next e])"
    "sc_heap e1 = (sc_heap e)(sc_next e \<mapsto> SubContainer_new_quota now cg ip f q t)"
    by (rule reg_add_exec [OF wf, of now cg ip f q t])
  have "p < sc_next e" using wf held_live [OF h] by (auto simp: ec_wf_def)
  then have "e' = e1" "sc_heap e1 p = sc_heap e p" using run e1(1,4) by auto
  moreover have "\<exists>newer'. reg_look e1 j = older @ p # newer'" if "reg_look e j = older @ p # newer" for older newer
    using that e1(3) by (cases "j = (cg, Ip4 ip)") auto
  ultimately show ?thesis using h e1(2) by (fastforce simp: held_def)
qed

lemma held_delete:
  assumes h: "held j (if cid_key k = j then Suc n else n) p e" and run: "reg_exec (Reg_Delete k) e = Inr e'"
  shows "held j n p e' \<and> sc_heap e' p = sc_heap e p"
proof -
  from h have wf: "ec_wf e" by (simp add: held_def)
  obtain older newer where q: "reg_look e j = older @ p # newer" "(if cid_key k = j then Suc n else n) \<le> length older"
    using h by (auto simp: held_def)
  obtain e1 where run1: "reg_exec (Reg_Delete k) e = Inr e1"
    and e1: "ec_wf e1" "reg_look e1 = (reg_look e)(cid_key k := tl (reg_look e (cid_key k)))"
    "sc_heap e1 = (case reg_look e (cid_key k) of p # p' # ps \<Rightarrow> (sc_heap e)(p := None) | _ \<Rightarrow> sc_heap e)"
    by (rule reg_delete_exec [OF wf, of k])
  have "p \<noteq> a" if a: "reg_look e (cid_key k) = a # ps" for a ps
  proof
    assume "p = a"
    then have "cid_key k = j" using a held_live [OF h] ec_wf_look(3) [OF wf, of p "cid_key k"] by auto
    then show False using a q ec_wf_look(1) [OF wf, of j] \<open>p = a\<close> by (cases older) auto
  qed
  then have "sc_heap e1 p = sc_heap e p" using e1(3) by (auto split: list.splits)
  moreover have "\<exists>older. reg_look e1 j = older @ p # newer \<and> n \<le> length older"
    using q e1(2) by (cases "cid_key k = j"; cases older) auto
  ultimately show ?thesis using run run1 e1(1) by (auto simp: held_def simp del: reg_exec.simps)
qed

lemma held_run:
  "held j (removals j cs) p e \<Longrightarrow> reg_run cs e = Inr e' \<Longrightarrow> held j 0 p e' \<and> sc_heap e' p = sc_heap e p"
proof (induction cs arbitrary: e)
  case (Cons c cs)
  then obtain e1 where e1: "reg_exec c e = Inr e1" "reg_run cs e1 = Inr e'" by (auto simp: bind_r_eq_Inr)
  have "held j (removals j cs) p e1 \<and> sc_heap e1 p = sc_heap e p"
  proof (cases c)
    case (Reg_Add now cg ip f q t)
    then show ?thesis using Cons.prems(1) e1(1) by (intro held_add [of j _ p e now cg ip f q t]) (simp_all add: removals_def)
  next
    case (Reg_Delete k)
    then show ?thesis using Cons.prems(1) e1(1)
      by (intro held_delete [of j k _ p e]) (auto simp: removals_def simp del: reg_exec.simps)
  qed
  with Cons.IH [of e1] e1(2) show ?case by simp
qed (simp add: removals_def)

section \<open>The properties\<close>

text \<open>
  C7: a report handler's pointer. A handler has looked up the newest container of an id under which
  some containers are registered. As long as other threads remove fewer containers of the id than
  were registered at the lookup, the container that the handler works on is in place, unchanged and
  still registered, whatever connects there are, under the same id too, and whatever removals under
  other ids: a removal takes the oldest container of its own id.
\<close>

theorem held_pointer_live:
  assumes "ec_wf e" and "get_sc_for_update_back e k = Inr p"
    and "removals (cid_key k) cs < length (reg_look e (cid_key k))"
  shows "\<exists>e' sc. reg_run cs e = Inr e' \<and> p \<in> set (reg_look e' (cid_key k)) \<and>
    sc_heap e p = Some sc \<and> sc_deref e' p = Inr sc"
proof -
  obtain e' where e': "reg_run cs e = Inr e'" using reg_run_refines [OF assms(1)] by blast
  have h: "held (cid_key k) (removals (cid_key k) cs) p e" by (rule lookup_held [OF assms])
  obtain sc where "sc_heap e p = Some sc" using held_live [OF h] by blast
  moreover have "held (cid_key k) 0 p e'" "sc_heap e' p = sc_heap e p" using held_run [OF h e'] by simp_all
  moreover from this(1) have "p \<in> set (reg_look e' (cid_key k))" by (auto simp: held_def)
  ultimately show ?thesis using e' by (simp add: sc_deref_def)
qed

text \<open>
  Of two containers of one id the handler holds the newer. A third connects, one is removed, and a
  container of another id comes and goes.
\<close>

theorem held_pointer_live_witness:
  "\<exists>e e' sc. reg_run [Reg_Add 0 3 1 9 5 0, Reg_Add 0 3 1 9 6 0] (ElasticContainer_new 1) = Inr e \<and>
     reg_run [Reg_Add 0 3 1 9 7 0, Reg_Add 0 4 1 9 5 0, Reg_Delete (ContainerId_new 3 (Ip4 1)),
       Reg_Delete (ContainerId_new 4 (Ip4 1))] e = Inr e' \<and> 1 \<in> set (reg_look e' (3, Ip4 1)) \<and> sc_deref e' 1 = Inr sc"
proof -
  let ?k = "ContainerId_new 3 (Ip4 1)"
  let ?cs = "[Reg_Add 0 3 1 9 7 0, Reg_Add 0 4 1 9 5 0, Reg_Delete ?k, Reg_Delete (ContainerId_new 4 (Ip4 1))]"
  obtain e where e: "reg_run [Reg_Add 0 3 1 9 5 0, Reg_Add 0 3 1 9 6 0] (ElasticContainer_new 1) = Inr e" "ec_wf e"
    "reg_abs e = fold reg_spec [Reg_Add 0 3 1 9 5 0, Reg_Add 0 3 1 9 6 0] (reg_abs (ElasticContainer_new 1))"
    using reg_run_refines [OF ec_wf_new [of 1], of "[Reg_Add 0 3 1 9 5 0, Reg_Add 0 3 1 9 6 0]"] by blast
  have key: "cid_key ?k = (3, Ip4 1)" "cid_key (ContainerId_new 4 (Ip4 1)) = (4, Ip4 1)"
    by (simp_all add: ContainerId_new_def cid_key_def)
  have "reg_abs (ElasticContainer_new 1) = (0, \<lambda>_. [])" by (auto simp: reg_abs_def ElasticContainer_new_def reg_look_def)
  then have q: "reg_look e (3, Ip4 1) = [0, 1]" using e(3) by (simp add: reg_abs_def)
  have b: "get_sc_for_update_back e ?k = Inr 1"
    using lookups_abs(1) [OF e(2), of ?k] q by (simp add: key reg_abs_def)
  have "removals (cid_key ?k) ?cs < length (reg_look e (cid_key ?k))" by (simp add: removals_def key q)
  from held_pointer_live [OF e(2) b this] e(1) show ?thesis by (auto simp: key simp del: reg_run.simps)
qed

text \<open>
  C8: the exception. A handler has looked up the only container of its id. A second container
  connects under the id, and one container of the id is removed: the removal takes the oldest, which
  is the one that the handler works on, and frees it. The handler's next use of the pointer, here the
  comparison of the quotas, is undefined behaviour.
\<close>

theorem held_pointer_freed:
  assumes "ec_wf (ec s)" and "reg_look (ec s) (cid_key k) = [p]" and "(cg, Ip4 ip) = cid_key k"
  shows "\<exists>e'. get_sc_for_update_back (ec s) k = Inr p \<and> reg_run [Reg_Add now cg ip f q t, Reg_Delete k] (ec s) = Inr e' \<and>
    cpu_check_mismatch p rx (s\<lparr>ec := e'\<rparr>) = Inl Undefined_Behaviour"
proof -
  obtain e1 where e1: "reg_exec (Reg_Add now cg ip f q t) (ec s) = Inr e1" "ec_wf e1" "reg_look e1 (cid_key k) = [p, sc_next (ec s)]"
    using reg_add_exec [OF assms(1), of now cg ip f q t] assms(2,3) by (metis append_Cons append_Nil fun_upd_same)
  obtain e2 where e2: "reg_exec (Reg_Delete k) e1 = Inr e2" "sc_heap e2 = (sc_heap e1)(p := None)"
    using reg_delete_exec [OF e1(2), of k] e1(3) by auto
  then have "cpu_check_mismatch p rx (s\<lparr>ec := e2\<rparr>) = Inl Undefined_Behaviour"
    by (simp add: cpu_check_mismatch_def sc_deref_def)
  moreover have "get_sc_for_update_back (ec s) k = Inr p"
    using lookups_abs(1) [OF assms(1), of k] assms(2) by (simp add: reg_abs_def)
  ultimately show ?thesis using e1(1) e2(1) by (simp del: reg_exec.simps)
qed

theorem held_pointer_freed_witness:
  "let s = sample_ctl (sample_ec (sample_sc 40000000 0) (sample_cpu 0 40000000 0 40000000) mem_g_default 0) in
   \<exists>e'. get_sc_for_update_back (ec s) sample_cid = Inr 0 \<and>
     reg_run [Reg_Add 1 3 1 10 40000000 0, Reg_Delete sample_cid] (ec s) = Inr e' \<and>
     cpu_check_mismatch 0 40000000 (s\<lparr>ec := e'\<rparr>) = Inl Undefined_Behaviour"
proof -
  let ?s = "sample_ctl (sample_ec (sample_sc 40000000 0) (sample_cpu 0 40000000 0 40000000) mem_g_default 0)"
  have "ec_wf (ec ?s)" by (auto simp: ec_wf_def sample_eval um_wf_def)
  moreover have "reg_look (ec ?s) (cid_key sample_cid) = [0]" by (simp add: reg_look_def sample_eval)
  moreover have "(3, Ip4 1) = cid_key sample_cid" by (simp add: sample_eval)
  ultimately show ?thesis unfolding Let_def by (rule held_pointer_freed)
qed

end
