(* ===== verification/Mem_Races.thy ===== *)
theory Mem_Races
  imports Mem_Properties
begin

text \<open>
  Reclaiming outside the memory lock. \<open>handle_mem_req\<close> reclaims while it holds \<open>memlock\<close>; the periodic
  loop of \<open>run\<close> and \<open>determine_mem_limit_for_new_pod\<close> reclaim without it, so two threads may reclaim from
  one container at the same time. Here \<open>reclaim\<close> is split where another thread can come in between: it
  first reads the limit and the usage, and later asks for the new limit and records it.

  Main results: one after the other, two reclaims report together at most what the container has
  lost (\<open>reclaim_serial\<close>); when both read first, the same pages are reported twice (\<open>reclaim_twice\<close>).
\<close>

section \<open>The two halves of a reclaim\<close>

definition reclaim_read ::
  "'v agent_env \<Rightarrow> ContainerId \<Rightarrow> sc_ptr \<Rightarrow> 'a ECAPI_scheme \<Rightarrow> ((u64 \<times> u64) \<times> 'a ECAPI_scheme) result" where
  "reclaim_read env containerId p s = bind_r (sc_deref (ec s) p) (\<lambda>sc.
     let mem_limit_bytes = page_to_byte (get_mem_limit_in_pages sc) in
     bind_r (sc_get_memory_usage_in_bytes_cadvisor env containerId (cid_docker_id (c_id sc)) s)
       (\<lambda>(mem_usage_bytes, s). Inr ((mem_limit_bytes, mem_usage_bytes), s)))"

definition reclaim_commit ::
  "'v agent_env \<Rightarrow> ContainerId \<Rightarrow> sc_ptr \<Rightarrow> u64 \<Rightarrow> u64 \<Rightarrow> 'a ECAPI_scheme \<Rightarrow> (u64 \<times> 'a ECAPI_scheme) result" where
  "reclaim_commit env containerId p mem_limit_bytes mem_usage_bytes s =
     (if mem_usage_bytes = - 1 * 4096 then Inr (0, s)
      else if SAFE_MARGIN_BYTES < mem_limit_bytes - mem_usage_bytes then
        let resize_target_bytes = mem_usage_bytes + SAFE_MARGIN_BYTES in
        bind_r (d_to_u64 (byte_to_page resize_target_bytes)) (\<lambda>target.
        bind_r (sc_resize_memory_limit_in_pages env containerId target s) (\<lambda>(is_max_mem_resized, s).
          if is_max_mem_resized = 0 then
            bind_r (d_to_u64 (byte_to_page (mem_limit_bytes - resize_target_bytes))) (\<lambda>pages.
            bind_r (sc_deref (ec s) p) (\<lambda>sc.
            bind_r (sc_set_memory_limit_in_pages (c_id sc) target s) (\<lambda>s. Inr (pages, s))))
          else Inr (0, s)))
      else Inr (0, s))"

lemma reclaim_read_cases:
  assumes "reclaim_read env k p s = Inr ((l, u), s')"
  obtains sc where "sc_heap (ec s) p = Some sc" "l = get_mem_limit_in_pages sc * 4096"
    "sc_get_memory_usage_in_bytes_cadvisor env k (cid_docker_id (c_id sc)) s = Inr (u, s')" "asks s s'"
  using assms that
  by (auto simp: reclaim_read_def bind_r_eq_Inr sc_deref_def page_to_byte_def Let_def dest: usage_asks split: option.splits)

lemma reclaim_commit_cases:
  assumes run: "reclaim_commit env k p l u s = Inr (r, s')" and sc: "sc_heap (ec s) p = Some sc"
  obtains (none) "r = 0" "asks s s'"
  | (resized) s1 p' where "SAFE_MARGIN_BYTES < l - u" "r = (l - (u + SAFE_MARGIN_BYTES)) div 4096" "asks s s1"
      "get_sc_for_update_back (ec s) (c_id sc) = Inr p'"
      "s' = on_sc p' (set_mem_limit_in_pages ((u + SAFE_MARGIN_BYTES) div 4096)) s1"
proof (cases "r = 0 \<and> asks s s'")
  case False
  with run obtain s1 where m: "SAFE_MARGIN_BYTES < l - u" and r: "r = (l - (u + SAFE_MARGIN_BYTES)) div 4096"
    and s1: "sc_resize_memory_limit_in_pages env k ((u + SAFE_MARGIN_BYTES) div 4096) s = Inr (0, s1)"
    and s': "bind_r (sc_deref (ec s1) p) (\<lambda>sc. sc_set_memory_limit_in_pages (c_id sc) ((u + SAFE_MARGIN_BYTES) div 4096) s1) = Inr s'"
    unfolding reclaim_commit_def byte_to_page_u64 Let_def bind_r_simps
    by (auto simp: bind_r_eq_Inr asks_def split: if_splits dest: resize_asks)
  have a: "asks s s1" by (rule resize_asks [OF s1])
  then have "get_sc_for_update_back (ec s1) (c_id sc) = get_sc_for_update_back (ec s) (c_id sc)" "sc_heap (ec s1) p = Some sc"
    using sc by (simp_all add: asks_def get_sc_for_update_back_def)
  then show thesis using resized [OF m r a] s'
    by (auto simp: sc_deref_def sc_set_memory_limit_in_pages_def ec_get_sc_for_update_def bind_r_eq_Inr)
qed (use none in blast)

text \<open>A thread that is not interrupted in between runs \<open>reclaim\<close>.\<close>

lemma reclaim_halves: "reclaim env k p s = bind_r (reclaim_read env k p s) (\<lambda>((l, u), s). reclaim_commit env k p l u s)"
proof (cases "sc_heap (ec s) p")
  case (Some sc)
  show ?thesis
  proof (cases "sc_get_memory_usage_in_bytes_cadvisor env k (cid_docker_id (c_id sc)) s")
    case (Inr us)
    obtain u s1 where us: "us = (u, s1)" by force
    have live: "sc_deref (ec s2) p = Inr sc" if "sc_resize_memory_limit_in_pages env k n s1 = Inr (r, s2)" for n r s2
      using usage_asks [OF Inr [unfolded us]] resize_asks [OF that] Some by (simp add: asks_def sc_deref_def)
    then show ?thesis
      unfolding reclaim_eq [OF Some] reclaim_read_def reclaim_commit_def page_to_byte_def byte_to_page_u64 Let_def bind_r_simps
      by (cases "sc_resize_memory_limit_in_pages env k ((u + SAFE_MARGIN_BYTES) div 4096) s1")
        (auto simp: Inr us sc_deref_def [of "ec s"] Some)
  qed (simp add: reclaim_eq [OF Some] reclaim_read_def sc_deref_def Some)
qed (simp add: reclaim_def reclaim_read_def sc_deref_def)

section \<open>One after the other\<close>

text \<open>
  Two reclaims in a row, of the periodic loop and of a memory request, say: what they report
  together is covered by what the container has lost.
\<close>

lemma reclaim_serial:
  assumes r1: "reclaim env k p s = Inr (r1, s1)" and r2: "reclaim env k p s1 = Inr (r2, s2)"
    and sc: "sc_heap (ec s) p = Some sc" "get_sc_for_update_back (ec s) (c_id sc) = Inr p"
    and u1: "sc_get_memory_usage_in_bytes_cadvisor env k (cid_docker_id (c_id sc)) s = Inr (u1, t1)"
    and u2: "sc_get_memory_usage_in_bytes_cadvisor env k (cid_docker_id (c_id sc)) s1 = Inr (u2, t2)"
    and small: "unat (get_mem_limit_in_pages sc) < 2 ^ 52" "unat u1 \<le> unat (get_mem_limit_in_pages sc) * 4096"
      "\<And>sc1. sc_heap (ec s1) p = Some sc1 \<Longrightarrow> unat u2 \<le> unat (get_mem_limit_in_pages sc1) * 4096"
  shows "\<exists>sc2. sc_heap (ec s2) p = Some sc2 \<and> unat r1 + unat r2 + unat (get_mem_limit_in_pages sc2) \<le> unat (get_mem_limit_in_pages sc)"
proof -
  obtain sc1 where sc1: "sc_heap (ec s1) p = Some sc1" "unat r1 + unat (get_mem_limit_in_pages sc1) \<le> unat (get_mem_limit_in_pages sc)"
    using reclaim_effect [OF r1 sc u1 small(1,2)] by auto
  have key: "c_id sc1 = c_id sc" "subcontainers (ec s1) = subcontainers (ec s)" using r1 sc sc1(1)
    by (auto elim!: reclaim_cases simp: asks_def api_defs state_defs)
  then have "get_sc_for_update_back (ec s1) (c_id sc1) = Inr p" using sc(2) by (simp add: get_sc_for_update_back_def)
  then show ?thesis using reclaim_effect [OF r2 sc1(1), of u2 t2] u2 small(1) small(3) [OF sc1(1)] sc1 key by auto
qed

section \<open>At the same time\<close>

lemma diff_le_unless: "a \<le> a - (if b then 0 else 1) + (1 :: nat)"
  by auto

text \<open>
  C25: two threads reclaim from the same container, and both have read its limit and its usage before
  either of them asks the agent for the new limit. Both requests being accepted, each thread reports
  the whole difference between the old limit and its target. The container has given up its memory
  once, and the pool is credited with both amounts.
\<close>

theorem reclaim_twice:
  assumes sc: "sc_heap (ec s) p = Some sc" "get_sc_for_update_back (ec s) (c_id sc) = Inr p"
    and read: "reclaim_read env k p s = Inr ((l1, u1), s1)" "reclaim_read env k p s1 = Inr ((l2, u2), s2)"
    and commit: "reclaim_commit env k p l1 u1 s2 = Inr (r1, s3)" "reclaim_commit env k p l2 u2 s3 = Inr (r2, s4)"
    and some: "r1 \<noteq> 0" "r2 \<noteq> 0"
    and small: "unat (get_mem_limit_in_pages sc) < 2 ^ 52"
      "unat u1 \<le> unat (get_mem_limit_in_pages sc) * 4096" "unat u2 \<le> unat (get_mem_limit_in_pages sc) * 4096"
  shows "\<exists>sc'. sc_heap (ec s4) p = Some sc' \<and>
    (let before = unat (get_mem_limit_in_pages sc); after = unat (get_mem_limit_in_pages sc') in
     before - after \<le> unat r2 + 1 \<and> unat r1 = before - (unat u1 div 4096 + 12800) - (if 4096 dvd unat u1 then 0 else 1)) \<and>
    unallocated_memory_in_pages (ec_mem (ec (ec_update_reclaim_memory_in_pages r2 (ec_update_reclaim_memory_in_pages r1 s4)))) =
      unallocated_memory_in_pages (ec_mem (ec s)) + r1 + r2"
proof -
  have l: "l1 = get_mem_limit_in_pages sc * 4096" and a1: "asks s s1" using read(1) sc(1) by (auto elim!: reclaim_read_cases)
  have h1: "sc_heap (ec s1) p = Some sc" using a1 sc(1) by (simp add: asks_def)
  have l2: "l2 = get_mem_limit_in_pages sc * 4096" and a2: "asks s s2"
    using read(2) h1 a1 by (auto elim!: reclaim_read_cases intro: asks_trans)
  have h2: "sc_heap (ec s2) p = Some sc" "get_sc_for_update_back (ec s2) (c_id sc) = Inr p"
    using a2 sc by (simp_all add: asks_def get_sc_for_update_back_def)
  from commit(1) h2(1) obtain t1 where c1: "SAFE_MARGIN_BYTES < l1 - u1" "r1 = (l1 - (u1 + SAFE_MARGIN_BYTES)) div 4096" "asks s2 t1"
    "s3 = on_sc p (set_mem_limit_in_pages ((u1 + SAFE_MARGIN_BYTES) div 4096)) t1"
    by (cases rule: reclaim_commit_cases) (use some h2(2) in auto)
  let ?sc1 = "set_mem_limit_in_pages ((u1 + SAFE_MARGIN_BYTES) div 4096) sc"
  have h3: "sc_heap (ec s3) p = Some ?sc1" "get_sc_for_update_back (ec s3) (c_id ?sc1) = Inr p"
    using c1(3,4) h2 by (simp_all add: asks_def api_defs get_sc_for_update_back_def state_defs)
  from commit(2) h3(1) obtain t2 where c2: "SAFE_MARGIN_BYTES < l2 - u2" "r2 = (l2 - (u2 + SAFE_MARGIN_BYTES)) div 4096" "asks s3 t2"
    "s4 = on_sc p (set_mem_limit_in_pages ((u2 + SAFE_MARGIN_BYTES) div 4096)) t2"
    by (cases rule: reclaim_commit_cases) (use some h3(2) in auto)
  let ?sc2 = "set_mem_limit_in_pages ((u2 + SAFE_MARGIN_BYTES) div 4096) ?sc1"
  have "sc_heap (ec s4) p = Some ?sc2" using c2(3,4) h3(1) by (simp add: asks_def api_defs)
  moreover have "ec_mem (ec s4) = ec_mem (ec s)" using a2 c1(3,4) c2(3,4) by (simp add: asks_def api_defs)
  then have "unallocated_memory_in_pages (ec_mem (ec (ec_update_reclaim_memory_in_pages r2 (ec_update_reclaim_memory_in_pages r1 s4)))) =
      unallocated_memory_in_pages (ec_mem (ec s)) + r1 + r2"
    by (simp add: api_defs mem_incr_unallocated_def mem_decr_allocated_def Let_def)
  moreover have "unat (get_mem_limit_in_pages sc) - unat (get_mem_limit_in_pages ?sc2) \<le> unat r2 + 1"
    unfolding c2(2) mem_limit_set l2 reclaimed_pages [OF small(1,3) c2(1) [unfolded l2]] by (rule diff_le_unless)
  moreover have "unat r1 = unat (get_mem_limit_in_pages sc) - (unat u1 div 4096 + 12800) - (if 4096 dvd unat u1 then 0 else 1)"
    using reclaimed_pages(3) [OF small(1,2)] c1(1,2) by (simp add: l)
  ultimately show ?thesis by (intro exI [of _ ?sc2]) (simp only: Let_def simp_thms)
qed

text \<open>
  A container with 20000 pages that uses one page and one byte: it ends up with 12801 pages, and 14396
  pages come to the pool.
\<close>

theorem reclaim_twice_witness:
  "\<exists>s1 s2 s3 s4. reclaim_read (sample_cadvisor 4097) sample_cid 0 sample_roomy = Inr ((81920000, 4097), s1) \<and>
     reclaim_read (sample_cadvisor 4097) sample_cid 0 s1 = Inr ((81920000, 4097), s2) \<and>
     reclaim_commit (sample_cadvisor 4097) sample_cid 0 81920000 4097 s2 = Inr (7198, s3) \<and>
     reclaim_commit (sample_cadvisor 4097) sample_cid 0 81920000 4097 s3 = Inr (7198, s4) \<and>
     unallocated_memory_in_pages (ec_mem (ec (ec_update_reclaim_memory_in_pages 7198 (ec_update_reclaim_memory_in_pages 7198 s4)))) = 14396"
proof -
  let ?env = "sample_cadvisor 4097"
  have "\<exists>s1 s2 s3 s4. reclaim_read ?env sample_cid 0 sample_roomy = Inr ((81920000, 4097), s1) \<and>
     reclaim_read ?env sample_cid 0 s1 = Inr ((81920000, 4097), s2) \<and>
     reclaim_commit ?env sample_cid 0 81920000 4097 s2 = Inr (7198, s3) \<and>
     reclaim_commit ?env sample_cid 0 81920000 4097 s3 = Inr (7198, s4)"
    by (simp add: reclaim_read_def reclaim_commit_def sample_roomy_def mem_eval double_eval)
  then obtain s1 s2 s3 s4 where r: "reclaim_read ?env sample_cid 0 sample_roomy = Inr ((81920000, 4097), s1)"
    "reclaim_read ?env sample_cid 0 s1 = Inr ((81920000, 4097), s2)"
    "reclaim_commit ?env sample_cid 0 81920000 4097 s2 = Inr (7198, s3)"
    "reclaim_commit ?env sample_cid 0 81920000 4097 s3 = Inr (7198, s4)" by blast
  have h: "sc_heap (ec sample_roomy) 0 = Some (sample_docked 0 20000)"
    "get_sc_for_update_back (ec sample_roomy) (c_id (sample_docked 0 20000)) = Inr 0"
    "get_mem_limit_in_pages (sample_docked 0 20000) = 20000"
    "unallocated_memory_in_pages (ec_mem (ec sample_roomy)) = 0"
    by (simp_all add: sample_roomy_def mem_eval)
  from reclaim_twice [OF h(1,2) r] have
    "unallocated_memory_in_pages (ec_mem (ec (ec_update_reclaim_memory_in_pages 7198 (ec_update_reclaim_memory_in_pages 7198 s4)))) = 14396"
    by (auto simp: h(3,4))
  with r show ?thesis by blast
qed

end
