(* ===== verification/Agent_Calls.thy ===== *)
theory Agent_Calls
  imports Agent_Clients
begin

text \<open>
  The call objects of \<open>Agents/AgentClient.cpp\<close>: who allocates them, who reads them and who frees them.
  \<open>Agent_Clients\<close> takes what a caller reads from its call object as given by the environment; here the
  objects are on a heap, a caller, gRPC and the thread that drains the completion queue take turns,
  and the questions are whether a pointer is still valid when it is used and whose answer is read.

  Of gRPC the model has what its documentation says of \<open>Finish\<close> and \<open>Next\<close>: when a call ends, its status
  and, if it succeeded, its reply are written to the object named in \<open>Finish\<close>, then its tag is
  delivered by \<open>Next\<close>, once and in the order of completion. A reply starts out as the message with all
  fields zero and a status as \<open>OK\<close>, whose code is zero.

  Main results: neither gRPC nor a draining thread ever touches a freed object; a caller that reads
  its call after starting it can do so too late (\<open>async_calls_safe\<close>). Resizing alone behaves as
  \<open>Agent_Clients.resizeMemoryLimitPages\<close> says (\<open>resize_alone\<close>), but two threads that resize through one
  client take each other's completions (\<open>resize_overlap\<close>).
\<close>

section \<open>Call objects\<close>

text \<open>\<open>'q\<close> is the part of the request that is kept with the call, \<open>'r\<close> the reply message.\<close>

record ('q, 'r) AsyncClientCall =
  call_request :: 'q
  call_reply :: 'r
  call_status :: i32

record ContainerQuotaReply =
  qr_cgroupid :: i32
  qr_updatequota :: u64
  qr_errorcode :: i32
  qr_sequencenum :: i32

record ResizeMaxMemReply =
  rr_cgroupid :: i32
  rr_errorcode :: i32

record MemReply =
  mr_cgroupid :: i32
  mr_amount :: i64

text \<open>
  A completion queue with the objects of its calls. \<open>in_flight\<close> are the calls gRPC still works on,
  \<open>completed\<close> the tags that \<open>Next\<close> has not delivered yet.
\<close>

record ('q, 'r) call_queue =
  call_heap :: "nat \<rightharpoonup> ('q, 'r) AsyncClientCall"
  call_next :: nat
  in_flight :: "nat list"
  completed :: "nat list"

definition start_call :: "'q \<Rightarrow> 'r \<Rightarrow> ('q, 'r) call_queue \<Rightarrow> nat \<times> ('q, 'r) call_queue" where
  "start_call x r0 q = (call_next q,
     q\<lparr>call_heap := (call_heap q)(call_next q \<mapsto> \<lparr>call_request = x, call_reply = r0, call_status = 0\<rparr>),
       call_next := Suc (call_next q), in_flight := in_flight q @ [call_next q]\<rparr>)"

definition call_deref :: "('q, 'r) call_queue \<Rightarrow> nat \<Rightarrow> ('q, 'r) AsyncClientCall result" where
  "call_deref q p = (case call_heap q p of None \<Rightarrow> Inl Undefined_Behaviour | Some c \<Rightarrow> Inr c)"

definition call_free :: "nat \<Rightarrow> ('q, 'r) call_queue \<Rightarrow> ('q, 'r) call_queue" where
  "call_free p q = q\<lparr>call_heap := (call_heap q)(p := None)\<rparr>"

text \<open>gRPC ends a call.\<close>

definition finish_call :: "nat \<Rightarrow> i32 \<Rightarrow> 'r \<Rightarrow> ('q, 'r) call_queue \<Rightarrow> ('q, 'r) call_queue result" where
  "finish_call p st r q = bind_r (call_deref q p) (\<lambda>c.
     Inr (q\<lparr>call_heap := (call_heap q)(p \<mapsto> c\<lparr>call_status := st, call_reply := (if st = 0 then r else call_reply c)\<rparr>),
            in_flight := remove1 p (in_flight q), completed := completed q @ [p]\<rparr>))"

section \<open>Draining threads\<close>

text \<open>What a round of a draining loop logs.\<close>

datatype completion_log =
    Log_Nothing
  | Log_Seq_Mismatch i32 i32
  | Log_Reply i32 i64
  | Log_Rpc_Failed i32

text \<open>
  One round of \<open>while(cq.Next(&got_tag, &ok))\<close> with the body of the three loops: look at the call, log,
  delete it. With no tag to deliver, \<open>Next\<close> blocks.
\<close>

definition drain_next ::
  "(('q, 'r) AsyncClientCall \<Rightarrow> completion_log) \<Rightarrow> ('q, 'r) call_queue \<Rightarrow> (completion_log \<times> ('q, 'r) call_queue) result" where
  "drain_next lg q = (case completed q of
     [] \<Rightarrow> Inl Never_Returns
   | p # ps \<Rightarrow> bind_r (call_deref q p) (\<lambda>c. Inr (lg c, call_free p (q\<lparr>completed := ps\<rparr>))))"

definition quota_log :: "(i32, ContainerQuotaReply) AsyncClientCall \<Rightarrow> completion_log" where
  "quota_log c = (if call_status c = 0
     then if qr_sequencenum (call_reply c) \<noteq> call_request c
          then Log_Seq_Mismatch (call_request c) (qr_sequencenum (call_reply c)) else Log_Nothing
     else Log_Rpc_Failed (call_status c))"

definition mem_log :: "(unit, MemReply) AsyncClientCall \<Rightarrow> completion_log" where
  "mem_log c = (if call_status c = 0 then Log_Reply (mr_cgroupid (call_reply c)) (mr_amount (call_reply c))
     else Log_Rpc_Failed (call_status c))"

definition AsyncCompleteRpcQuota ::
  "(i32, ContainerQuotaReply) call_queue \<Rightarrow> (completion_log \<times> (i32, ContainerQuotaReply) call_queue) result" where
  "AsyncCompleteRpcQuota = drain_next quota_log"

definition AsyncCompleteRpcGetMemUsageBytes ::
  "(unit, MemReply) call_queue \<Rightarrow> (completion_log \<times> (unit, MemReply) call_queue) result" where
  "AsyncCompleteRpcGetMemUsageBytes = drain_next mem_log"

definition AsyncCompleteRpcGetMemLimitBytes ::
  "(unit, MemReply) call_queue \<Rightarrow> (completion_log \<times> (unit, MemReply) call_queue) result" where
  "AsyncCompleteRpcGetMemLimitBytes = drain_next mem_log"

text \<open>The counter for tests is an \<open>int\<close> under a mutex; incrementing the largest one is undefined.\<close>

definition incr_test_cc :: "AgentClient \<Rightarrow> AgentClient result" where
  "incr_test_cc c = (if ac_test_cc c = 0x7FFFFFFF then Inl Undefined_Behaviour
     else Inr (c\<lparr>ac_test_cc := ac_test_cc c + 1\<rparr>))"

section \<open>Resizing\<close>

text \<open>
  The loop of \<open>resizeMemoryLimitPages\<close> after its call \<open>p\<close> was started, as long as no further completion
  arrives. Whatever tag \<open>Next\<close> delivers, the loop looks at its own call; after a failure the call is
  freed and the loop goes on with the same pointer.
\<close>

function resize_loop ::
  "nat \<Rightarrow> ('q, ResizeMaxMemReply) call_queue \<Rightarrow> (i32 \<times> ('q, ResizeMaxMemReply) call_queue) result" where
  "resize_loop p q = (case completed q of
     [] \<Rightarrow> Inl Never_Returns
   | got_tag # ts \<Rightarrow> (case call_heap q p of
       None \<Rightarrow> Inl Undefined_Behaviour
     | Some c \<Rightarrow> let q' = call_free p (q\<lparr>completed := ts\<rparr>) in
         if call_status c = 0 then Inr (rr_errorcode (call_reply c), q') else resize_loop p q'))"
  by pat_completeness auto
termination by (relation "measure (\<lambda>(p, q). length (completed q))") (auto simp: call_free_def)

declare resize_loop.simps [simp del]

section \<open>Callers that read right away\<close>

text \<open>
  \<open>updateContainerQuota\<close>, \<open>getMemoryUsageBytes\<close> and \<open>getMemoryLimitBytes\<close> start a call and then return a
  field of the call object, \<open>rd\<close>. Any number of threads do so through one client.
\<close>

datatype 'x caller = Caller_Idle | Caller_Started nat | Caller_Returned 'x

record ('q, 'r, 'x) call_system =
  cs_queue :: "('q, 'r) call_queue"
  cs_callers :: "nat \<Rightarrow> 'x caller"

definition call_system_new :: "('q, 'r, 'x) call_system" where
  "call_system_new = \<lparr>cs_queue = \<lparr>call_heap = Map.empty, call_next = 0, in_flight = [], completed = []\<rparr>,
     cs_callers = (\<lambda>_. Caller_Idle)\<rparr>"

definition caller_start :: "'r \<Rightarrow> nat \<Rightarrow> 'q \<Rightarrow> ('q, 'r, 'x) call_system \<Rightarrow> ('q, 'r, 'x) call_system" where
  "caller_start r0 t x s = (case start_call x r0 (cs_queue s) of (p, q) \<Rightarrow>
     s\<lparr>cs_queue := q, cs_callers := (cs_callers s)(t := Caller_Started p)\<rparr>)"

definition caller_read ::
  "(('q, 'r) AsyncClientCall \<Rightarrow> 'x) \<Rightarrow> nat \<Rightarrow> nat \<Rightarrow> ('q, 'r, 'x) call_system \<Rightarrow> ('q, 'r, 'x) call_system result" where
  "caller_read rd t p s = bind_r (call_deref (cs_queue s) p) (\<lambda>c.
     Inr (s\<lparr>cs_callers := (cs_callers s)(t := Caller_Returned (rd c))\<rparr>))"

inductive call_reach ::
  "'r \<Rightarrow> (('q, 'r) AsyncClientCall \<Rightarrow> 'x) \<Rightarrow> (('q, 'r) AsyncClientCall \<Rightarrow> completion_log) \<Rightarrow> ('q, 'r, 'x) call_system \<Rightarrow> bool"
  for r0 rd lg where
  new: "call_reach r0 rd lg call_system_new"
| start: "call_reach r0 rd lg s \<Longrightarrow> \<nexists>p. cs_callers s t = Caller_Started p \<Longrightarrow> call_reach r0 rd lg (caller_start r0 t x s)"
| finish: "call_reach r0 rd lg s \<Longrightarrow> p \<in> set (in_flight (cs_queue s)) \<Longrightarrow> finish_call p st r (cs_queue s) = Inr q \<Longrightarrow>
    call_reach r0 rd lg (s\<lparr>cs_queue := q\<rparr>)"
| drain: "call_reach r0 rd lg s \<Longrightarrow> drain_next lg (cs_queue s) = Inr (l, q) \<Longrightarrow> call_reach r0 rd lg (s\<lparr>cs_queue := q\<rparr>)"
| read: "call_reach r0 rd lg s \<Longrightarrow> cs_callers s t = Caller_Started p \<Longrightarrow> caller_read rd t p s = Inr s' \<Longrightarrow> call_reach r0 rd lg s'"

text \<open>
  The invariant: the live objects are those in flight and those completed, each once; a call in
  flight is as it was created.
\<close>

definition queue_wf :: "'r \<Rightarrow> ('q, 'r) call_queue \<Rightarrow> bool" where
  "queue_wf r0 q \<longleftrightarrow> (\<forall>p. call_heap q p = None \<longleftrightarrow> p \<notin> set (in_flight q @ completed q)) \<and> distinct (in_flight q @ completed q) \<and>
     (\<forall>p \<in> set (in_flight q @ completed q). p < call_next q) \<and>
     (\<forall>p \<in> set (in_flight q). \<exists>x. call_heap q p = Some \<lparr>call_request = x, call_reply = r0, call_status = 0\<rparr>)"

lemma queue_wf_start: "queue_wf r0 q \<Longrightarrow> queue_wf r0 (snd (start_call x r0 q))"
  by (auto simp: queue_wf_def start_call_def intro: less_SucI)

lemma queue_wf_finish:
  assumes wf: "queue_wf r0 q" and p: "p \<in> set (in_flight q)" and run: "finish_call p st r q = Inr q'"
  shows "queue_wf r0 q'"
proof -
  obtain c where c: "call_heap q p = Some c" using wf p by (auto simp: queue_wf_def)
  have d: "distinct (in_flight q)" using wf by (simp add: queue_wf_def)
  then have fl: "set (remove1 p (in_flight q)) = set (in_flight q) - {p}" "distinct (remove1 p (in_flight q))" by simp_all
  have "q' = q\<lparr>call_heap := (call_heap q)(p \<mapsto> c\<lparr>call_status := st, call_reply := (if st = 0 then r else call_reply c)\<rparr>),
      in_flight := remove1 p (in_flight q), completed := completed q @ [p]\<rparr>"
    using run c by (simp add: finish_call_def call_deref_def)
  with wf p fl show ?thesis unfolding queue_wf_def by (auto simp del: set_remove1_eq)
qed

lemma queue_wf_drain:
  assumes wf: "queue_wf r0 q" and run: "drain_next lg q = Inr (l, q')"
  shows "queue_wf r0 q'"
proof -
  obtain p ps where c: "completed q = p # ps" using run by (cases "completed q") (auto simp: drain_next_def)
  then have "call_heap q' = (call_heap q)(p := None)" "completed q' = ps" "in_flight q' = in_flight q" "call_next q' = call_next q"
    using run by (auto simp: drain_next_def call_free_def bind_r_eq_Inr)
  then show ?thesis using wf unfolding queue_wf_def c by auto
qed

lemma reach_queue_wf: "call_reach r0 rd lg s \<Longrightarrow> queue_wf r0 (cs_queue s)"
proof (induction rule: call_reach.induct)
  case new
  show ?case by (simp add: call_system_new_def queue_wf_def)
next
  case (start s t x)
  then show ?case using queue_wf_start [of r0 "cs_queue s" x] by (cases "start_call x r0 (cs_queue s)") (simp add: caller_start_def)
next
  case (finish s p st r q)
  then show ?case using queue_wf_finish by fastforce
next
  case (drain s l q)
  then show ?case using queue_wf_drain by fastforce
next
  case (read s t p s')
  then show ?case by (auto simp: caller_read_def bind_r_eq_Inr)
qed

lemma wf_live_iff: "queue_wf r0 q \<Longrightarrow> call_heap q p = None \<longleftrightarrow> p \<notin> set (in_flight q) \<union> set (completed q)"
  by (simp add: queue_wf_def)

text \<open>
  C39: whatever the interleaving of callers, gRPC and the draining thread, gRPC ends every call that is
  in flight in a live object, and every tag that is delivered points to a live object, so the draining
  thread neither reads nor frees memory twice. A caller that returns while its call is in flight
  returns the field of a fresh object, for the status the code 0; if the draining thread has been
  faster, and only then, the caller reads freed memory.
\<close>

theorem async_calls_safe:
  assumes "call_reach r0 rd lg s"
  shows "(\<forall>p \<in> set (in_flight (cs_queue s)). \<exists>q. finish_call p st r (cs_queue s) = Inr q) \<and>
    (completed (cs_queue s) \<noteq> [] \<longrightarrow> (\<exists>l q. drain_next lg (cs_queue s) = Inr (l, q))) \<and>
    (cs_callers s t = Caller_Started p \<longrightarrow>
       (p \<in> set (in_flight (cs_queue s)) \<longrightarrow>
          (\<exists>x s'. caller_read rd t p s = Inr s' \<and>
             cs_callers s' t = Caller_Returned (rd \<lparr>call_request = x, call_reply = r0, call_status = 0\<rparr>))) \<and>
       (caller_read rd t p s = Inl Undefined_Behaviour \<longleftrightarrow> p \<notin> set (in_flight (cs_queue s)) \<union> set (completed (cs_queue s))))"
proof -
  let ?q = "cs_queue s"
  have wf: "queue_wf r0 ?q" using assms by (rule reach_queue_wf)
  have live: "\<exists>c. call_deref ?q p = Inr c" if "p \<in> set (in_flight ?q) \<union> set (completed ?q)" for p
    using that wf_live_iff [OF wf, of p] by (cases "call_heap ?q p") (auto simp: call_deref_def)
  have "call_deref ?q p = Inl Undefined_Behaviour \<longleftrightarrow> p \<notin> set (in_flight ?q) \<union> set (completed ?q)" for p
    using wf_live_iff [OF wf, of p] by (auto simp: call_deref_def split: option.splits)
  moreover have "caller_read rd t p s = Inl e \<longleftrightarrow> call_deref ?q p = Inl e" for e
    by (cases "call_deref ?q p") (auto simp: caller_read_def)
  ultimately have "caller_read rd t p s = Inl Undefined_Behaviour \<longleftrightarrow> p \<notin> set (in_flight ?q) \<union> set (completed ?q)"
    by simp
  moreover have "\<exists>x s'. caller_read rd t p s = Inr s' \<and>
      cs_callers s' t = Caller_Returned (rd \<lparr>call_request = x, call_reply = r0, call_status = 0\<rparr>)" if "p \<in> set (in_flight ?q)"
    using wf that by (force simp: queue_wf_def caller_read_def call_deref_def)
  moreover have "\<exists>l q. drain_next lg ?q = Inr (l, q)" if ne: "completed ?q \<noteq> []"
  proof -
    obtain p ps where "completed ?q = p # ps" using ne by (cases "completed ?q") auto
    with live [of p] show ?thesis by (auto simp: drain_next_def)
  qed
  ultimately show ?thesis using live by (fastforce simp: finish_call_def)
qed

text \<open>The race: thread 7 starts a call, the call fails and is drained before the thread returns.\<close>

theorem async_calls_safe_witness:
  "\<exists>s. call_reach (0 :: i32) call_status (\<lambda>_. Log_Nothing) (s :: (unit, i32, i32) call_system) \<and>
     caller_read call_status 7 0 s = Inl Undefined_Behaviour"
proof -
  let ?lg = "\<lambda>_ :: (unit, i32) AsyncClientCall. Log_Nothing"
  let ?c = "\<lparr>call_request = (), call_reply = 0, call_status = 14\<rparr> :: (unit, i32) AsyncClientCall"
  let ?f = "\<lambda>_ :: nat. Caller_Idle :: i32 caller"
  let ?a = "caller_start 0 7 () call_system_new :: (unit, i32, i32) call_system"
  let ?qb = "\<lparr>call_heap = [0 \<mapsto> ?c], call_next = 1, in_flight = [], completed = [0]\<rparr>"
  let ?qc = "\<lparr>call_heap = Map.empty, call_next = 1, in_flight = [], completed = []\<rparr> :: (unit, i32) call_queue"
  have "call_reach (0 :: i32) call_status ?lg ?a" by (intro call_reach.start call_reach.new) (simp add: call_system_new_def)
  then have "call_reach (0 :: i32) call_status ?lg (?a\<lparr>cs_queue := ?qb\<rparr>)"
    by (rule call_reach.finish [where p = 0 and st = 14 and r = 0])
      (simp_all add: caller_start_def start_call_def call_system_new_def finish_call_def call_deref_def)
  then have "call_reach (0 :: i32) call_status ?lg (?a\<lparr>cs_queue := ?qb, cs_queue := ?qc\<rparr>)"
    by (rule call_reach.drain [where l = Log_Nothing]) (simp add: drain_next_def call_deref_def call_free_def)
  then have r: "call_reach (0 :: i32) call_status ?lg (?a\<lparr>cs_queue := ?qc\<rparr>)" by simp
  have "cs_callers (?a\<lparr>cs_queue := ?qc\<rparr>) 7 = Caller_Started 0" by (simp add: caller_start_def start_call_def call_system_new_def)
  with async_calls_safe [OF r, where t = 7 and p = 0] r show ?thesis by (intro exI [of _ "?a\<lparr>cs_queue := ?qc\<rparr>"]) simp
qed

section \<open>Resizing, alone and together\<close>

text \<open>The client before any call, and with nothing outstanding.\<close>

definition quiet_queue :: "('q, 'r) call_queue \<Rightarrow> bool" where
  "quiet_queue q \<longleftrightarrow> in_flight q = [] \<and> completed q = []"

lemma call_free_simps [simp]:
  "call_heap (call_free p q) = (call_heap q)(p := None)" "completed (call_free p q) = completed q"
  "in_flight (call_free p q) = in_flight q" "call_next (call_free p q) = call_next q"
  by (simp_all add: call_free_def)

lemma start_call_simps:
  assumes "start_call x r0 q = (p, q')"
  shows "p = call_next q" "call_next q' = Suc p" "in_flight q' = in_flight q @ [p]" "completed q' = completed q"
    "call_heap q' = (call_heap q)(p \<mapsto> \<lparr>call_request = x, call_reply = r0, call_status = 0\<rparr>)"
  using assms by (auto simp: start_call_def)

lemma finish_call_simps:
  assumes "finish_call p st r q = Inr q'" "call_heap q p = Some c"
  shows "in_flight q' = remove1 p (in_flight q)" "completed q' = completed q @ [p]"
    "call_heap q' = (call_heap q)(p \<mapsto> c\<lparr>call_status := st, call_reply := (if st = 0 then r else call_reply c)\<rparr>)"
  using assms by (auto simp: finish_call_def call_deref_def)

lemma fresh_not_live: "queue_wf r0 q \<Longrightarrow> call_heap q (call_next q) = None"
  by (auto simp: queue_wf_def)

text \<open>
  C37: a thread that resizes while no other thread uses the client gets the answer to its own call: the
  loop over the completion queue returns what \<open>resizeMemoryLimitPages\<close> is specified to return, the error
  code of the agent, and frees its call; when the RPC fails it waits forever.
\<close>

theorem resize_alone:
  assumes wf: "queue_wf r0 q" "quiet_queue q"
    and run: "start_call x r0 q = (p, q1)" "finish_call p st r q1 = Inr q2"
    and env: "resize_ok env (l @ [Req_Resize_Max_Mem (ac_ptr ac) cg lim]) \<longleftrightarrow> st = 0"
      "resize_errorcode env (l @ [Req_Resize_Max_Mem (ac_ptr ac) cg lim]) = rr_errorcode r"
  shows "resizeMemoryLimitPages env ac cg lim l =
      bind_r (resize_loop p q2) (\<lambda>(e, _). Inr (scast e, l @ [Req_Resize_Max_Mem (ac_ptr ac) cg lim])) \<and>
    (st = 0 \<longrightarrow> (\<exists>q3. resize_loop p q2 = Inr (rr_errorcode r, q3) \<and> quiet_queue q3 \<and> call_heap q3 = call_heap q))"
proof -
  note start = start_call_simps [OF run(1)]
  let ?c = "\<lparr>call_request = x, call_reply = r0, call_status = 0\<rparr>"
  have "call_heap q1 p = Some ?c" using start by simp
  note finish = finish_call_simps [OF run(2) this]
  have c: "in_flight q2 = []" "completed q2 = [p]"
    "call_heap q2 p = Some (?c\<lparr>call_status := st, call_reply := (if st = 0 then r else r0)\<rparr>)"
    "(call_heap q2)(p := None) = call_heap q"
    using wf start finish fresh_not_live [OF wf(1)] by (auto simp: quiet_queue_def fun_upd_idem)
  show ?thesis
  proof (cases "st = 0")
    case True
    with c have "resize_loop p q2 = Inr (rr_errorcode r, call_free p (q2\<lparr>completed := []\<rparr>))"
      by (simp add: resize_loop.simps [of p q2])
    with True c env show ?thesis by (simp add: resizeMemoryLimitPages_def quiet_queue_def)
  next
    case False
    with c have "resize_loop p q2 = Inl Never_Returns"
      by (simp add: resize_loop.simps [of p q2] resize_loop.simps [of p "call_free p (q2\<lparr>completed := []\<rparr>)"])
    with False env show ?thesis by (simp add: resizeMemoryLimitPages_def)
  qed
qed

text \<open>
  C38: two threads that resize through the same client, as the reclaim of several containers of one node
  does. When the call of the second ends first and the first thread takes the completion, that thread
  returns the error code of a reply that has not arrived, zero, whatever the agents answer; its call
  is freed while gRPC still works on it, so that the end of that call is written to freed memory; and
  the second thread, whose call has ended, goes on waiting.
\<close>

theorem resize_overlap:
  assumes wf: "queue_wf r0 q" "completed q = []"
    and run: "start_call x r0 q = (a, q1)" "start_call y r0 q1 = (b, q2)" "finish_call b st r q2 = Inr q3"
  shows "\<exists>q4. resize_loop a q3 = Inr (rr_errorcode r0, q4) \<and> a \<in> set (in_flight q4) \<and>
    finish_call a st' r' q4 = Inl Undefined_Behaviour \<and> resize_loop b q4 = Inl Never_Returns"
proof -
  note s1 = start_call_simps [OF run(1)] and s2 = start_call_simps [OF run(2)]
  have ab: "a \<noteq> b" using s1 s2 by simp
  have "call_heap q2 b = Some \<lparr>call_request = y, call_reply = r0, call_status = 0\<rparr>" using s2 by simp
  note finish = finish_call_simps [OF run(3) this]
  have c: "in_flight q3 = remove1 b (in_flight q @ [a, b])" "completed q3 = [b]"
    "call_heap q3 a = Some \<lparr>call_request = x, call_reply = r0, call_status = 0\<rparr>"
    using wf s1 s2 ab finish by simp_all
  then have "resize_loop a q3 = Inr (rr_errorcode r0, call_free a (q3\<lparr>completed := []\<rparr>))"
    by (simp add: resize_loop.simps [of a q3])
  moreover have "a \<in> set (in_flight q3)" using c(1) ab by (simp add: remove1_append)
  ultimately show ?thesis
    by (simp add: finish_call_def call_deref_def resize_loop.simps [of b "call_free a (q3\<lparr>completed := []\<rparr>)"])
qed

text \<open>A resize that the agent refuses with code 5, alone and next to another one.\<close>

definition empty_queue :: "(unit, ResizeMaxMemReply) call_queue" where
  "empty_queue = \<lparr>call_heap = Map.empty, call_next = 0, in_flight = [], completed = []\<rparr>"

lemma empty_queue_wf: "queue_wf r0 empty_queue" "quiet_queue empty_queue"
  by (simp_all add: empty_queue_def queue_wf_def quiet_queue_def)

lemma finish_started: "start_call x r0 q = (p, q1) \<Longrightarrow> \<exists>q2. finish_call p st r q1 = Inr q2"
  by (auto simp: start_call_def finish_call_def call_deref_def)

theorem resize_alone_witness:
  "\<exists>p q1 q2 q3. start_call () \<lparr>rr_cgroupid = 0, rr_errorcode = 0\<rparr> empty_queue = (p, q1) \<and>
     finish_call p 0 \<lparr>rr_cgroupid = 3, rr_errorcode = 5\<rparr> q1 = Inr q2 \<and> resize_loop p q2 = Inr (5, q3)"
proof -
  let ?zero = "\<lparr>rr_cgroupid = 0, rr_errorcode = 0\<rparr> :: ResizeMaxMemReply"
  let ?r = "\<lparr>rr_cgroupid = 3, rr_errorcode = 5\<rparr> :: ResizeMaxMemReply"
  let ?env = "undefined\<lparr>resize_ok := \<lambda>_. True, resize_errorcode := \<lambda>_. 5\<rparr> :: unit agent_env"
  obtain p q1 where s: "start_call () ?zero empty_queue = (p, q1)" by (cases "start_call () ?zero empty_queue")
  obtain q2 where f: "finish_call p 0 ?r q1 = Inr q2" using finish_started [OF s, of 0 ?r] ..
  let ?ac = "AgentClient_new 0 \<lparr>ag_ip = Ip4 1, ag_port = 4448, ag_sockfd = 0\<rparr>"
  show ?thesis using resize_alone [OF empty_queue_wf s f, of ?env "[]" ?ac 3 7] s f by auto
qed

theorem resize_overlap_witness:
  "\<exists>a b q1 q2 q3 q4. start_call () \<lparr>rr_cgroupid = 0, rr_errorcode = 0\<rparr> empty_queue = (a, q1) \<and>
     start_call () \<lparr>rr_cgroupid = 0, rr_errorcode = 0\<rparr> q1 = (b, q2) \<and>
     finish_call b 0 \<lparr>rr_cgroupid = 3, rr_errorcode = 5\<rparr> q2 = Inr q3 \<and> resize_loop a q3 = Inr (0, q4)"
proof -
  let ?zero = "\<lparr>rr_cgroupid = 0, rr_errorcode = 0\<rparr> :: ResizeMaxMemReply"
  let ?r = "\<lparr>rr_cgroupid = 3, rr_errorcode = 5\<rparr> :: ResizeMaxMemReply"
  obtain a q1 where s1: "start_call () ?zero empty_queue = (a, q1)" by (cases "start_call () ?zero empty_queue")
  obtain b q2 where s2: "start_call () ?zero q1 = (b, q2)" by (cases "start_call () ?zero q1")
  obtain q3 where f: "finish_call b 0 ?r q2 = Inr q3" using finish_started [OF s2, of 0 ?r] ..
  have "completed empty_queue = []" by (simp add: empty_queue_def)
  from resize_overlap [OF empty_queue_wf(1) this s1 s2 f, of 0 ?r] s1 s2 f show ?thesis by auto
qed

end
