(* ===== verification/Om_Concurrency.thy ===== *)
theory Om_Concurrency
  imports Gcm_Prelude "HOL-Library.Multiset"
begin

text \<open>
  \<open>om::concurrency\<close> of \<open>om.h\<close>: the locked queue and the thread pool. Every operation of the queue
  holds its mutex, so it is one atomic step. A worker of the pool is a small state machine; the
  steps of several workers, of threads that submit tasks and of the destructor interleave freely
  (\<open>pool_step\<close>). The histories \<open>submitted\<close>, \<open>started\<close> and \<open>finished\<close> are not part of the program; they
  record the order of events. A task is taken to return without throwing.

  Main results: tasks are started in the order of submission and at most once; a worker of a
  pool that is not shut down works off the whole queue; after the destructor has set \<open>_done\<close> every
  worker leaves within three of its steps, so joining ends, and queued tasks are dropped.
\<close>

section \<open>The queue\<close>

definition enqueue :: "'a \<Rightarrow> 'a list \<Rightarrow> 'a list" where
  "enqueue x q = q @ [x]"

fun dequeue :: "'a list \<Rightarrow> 'a option \<times> 'a list" where
  "dequeue [] = (None, [])"
| "dequeue (x # q) = (Some x, q)"

text \<open>The waiting variant blocks while the queue is empty: no step is possible then.\<close>

fun dequeue_wait :: "'a list \<Rightarrow> ('a \<times> 'a list) option" where
  "dequeue_wait [] = None"
| "dequeue_wait (x # q) = Some (x, q)"

definition queue_empty :: "'a list \<Rightarrow> bool" where
  "queue_empty q \<longleftrightarrow> q = []"

text \<open>What a first-in first-out queue promises, and what follows for any use of it.\<close>

locale fifo =
  fixes contents :: "'q \<Rightarrow> 'a list"
    and put :: "'a \<Rightarrow> 'q \<Rightarrow> 'q"
    and take_out :: "'q \<Rightarrow> 'a option \<times> 'q"
  assumes contents_put: "contents (put x q) = contents q @ [x]"
    and take_out_some: "take_out q = (Some x, q') \<Longrightarrow> contents q = x # contents q'"
    and take_out_none: "take_out q = (None, q') \<Longrightarrow> contents q = [] \<and> contents q' = []"
begin

text \<open>A use of the queue: elements put in, and attempts to take one out, with what they gave.\<close>

primrec use :: "'a option list \<Rightarrow> 'q \<Rightarrow> 'a list \<times> 'q" where
  "use [] q = ([], q)"
| "use (c # cs) q = (case c of
      Some x \<Rightarrow> use cs (put x q)
    | None \<Rightarrow> (let (r, q') = take_out q; (out, q'') = use cs q' in (case r of Some y \<Rightarrow> y # out | None \<Rightarrow> out, q'')))"

lemma take_out_contents: "take_out q = (r, q') \<Longrightarrow> contents q = (case r of Some y \<Rightarrow> [y] | None \<Rightarrow> []) @ contents q'"
  by (cases r) (auto dest: take_out_some take_out_none)

lemma use_order: "use cs q = (out, q') \<Longrightarrow> out @ contents q' = contents q @ concat (map (\<lambda>c. case c of Some x \<Rightarrow> [x] | None \<Rightarrow> []) cs)"
proof (induction cs arbitrary: q out)
  case (Cons c cs)
  show ?case
  proof (cases c)
    case None
    obtain r q1 out1 where "take_out q = (r, q1)" "use cs q1 = (out1, q')" "out = (case r of Some y \<Rightarrow> y # out1 | None \<Rightarrow> out1)"
      using Cons.prems None by (auto simp: Let_def split: prod.splits)
    then show ?thesis using Cons.IH [of q1 out1] None take_out_contents [of q r q1] by (cases r) simp_all
  next
    case (Some x)
    then show ?thesis using Cons by (simp add: contents_put)
  qed
qed simp

end

lemma dequeue_eq: "dequeue q = (Some x, q') \<longleftrightarrow> q = x # q'" "dequeue q = (None, q') \<longleftrightarrow> q = [] \<and> q' = []"
  by (cases q; auto)+

interpretation om_queue: fifo "\<lambda>q. q" enqueue dequeue
  by unfold_locales (auto simp: enqueue_def dequeue_eq)

section \<open>The thread pool\<close>

text \<open>Where a worker is in its loop: before the test of \<open>_done\<close>, before \<open>dequeue\<close>, in a task, or done.\<close>

datatype 'a worker = Checking | Dequeueing | Running 'a | Exited

record 'a thread_pool =
  pool_done :: bool
  task_queue :: "'a list"
  threads :: "'a worker list"
  joined :: bool
  submitted :: "'a list"
  started :: "'a list"
  finished :: "'a list"

text \<open>
  The constructor: \<open>spawn\<close> says which thread the system can create. When one cannot be created,
  \<open>_done\<close> is set and the exception goes on; the threads created so far remain to be joined.
\<close>

fun spawn_threads :: "(nat \<Rightarrow> bool) \<Rightarrow> nat \<Rightarrow> nat \<Rightarrow> 'a thread_pool \<Rightarrow> bool \<times> 'a thread_pool" where
  "spawn_threads spawn i 0 p = (True, p)"
| "spawn_threads spawn i (Suc n) p =
     (if spawn i then spawn_threads spawn (Suc i) n (p\<lparr>threads := threads p @ [Checking]\<rparr>)
      else (False, p\<lparr>pool_done := True\<rparr>))"

definition thread_pool_new :: "(nat \<Rightarrow> bool) \<Rightarrow> nat \<Rightarrow> bool \<times> 'a thread_pool" where
  "thread_pool_new spawn thread_count = spawn_threads spawn 0 thread_count
     \<lparr>pool_done = False, task_queue = [], threads = [], joined = False, submitted = [], started = [], finished = []\<rparr>"

definition pool_submit :: "'a \<Rightarrow> 'a thread_pool \<Rightarrow> 'a thread_pool" where
  "pool_submit t p = p\<lparr>task_queue := enqueue t (task_queue p), submitted := submitted p @ [t]\<rparr>"

definition worker_step :: "nat \<Rightarrow> 'a thread_pool \<Rightarrow> 'a thread_pool" where
  "worker_step i p = (case threads p ! i of
      Checking \<Rightarrow> p\<lparr>threads := (threads p)[i := if pool_done p then Exited else Dequeueing]\<rparr>
    | Dequeueing \<Rightarrow> (case dequeue (task_queue p) of
          (Some t, q) \<Rightarrow> p\<lparr>task_queue := q, threads := (threads p)[i := Running t], started := started p @ [t]\<rparr>
        | (None, q) \<Rightarrow> p\<lparr>task_queue := q, threads := (threads p)[i := Checking]\<rparr>)
    | Running t \<Rightarrow> p\<lparr>threads := (threads p)[i := Checking], finished := finished p @ [t]\<rparr>
    | Exited \<Rightarrow> p)"

text \<open>The destructor sets \<open>_done\<close>; then the \<open>thread_joiner\<close> member waits for every thread.\<close>

definition pool_destroy :: "'a thread_pool \<Rightarrow> 'a thread_pool" where
  "pool_destroy p = p\<lparr>pool_done := True\<rparr>"

definition joiner_finished :: "'a thread_pool \<Rightarrow> bool" where
  "joiner_finished p = list_all (\<lambda>w. case w of Exited \<Rightarrow> True | _ \<Rightarrow> False) (threads p)"

inductive pool_step :: "'a thread_pool \<Rightarrow> 'a thread_pool \<Rightarrow> bool" where
  work: "i < length (threads p) \<Longrightarrow> pool_step p (worker_step i p)"
| submit: "\<not> joined p \<Longrightarrow> pool_step p (pool_submit t p)"
| destroy: "pool_step p (pool_destroy p)"
| join: "pool_done p \<Longrightarrow> joiner_finished p \<Longrightarrow> pool_step p (p\<lparr>joined := True\<rparr>)"

inductive_cases pool_stepE: "pool_step p p'"

inductive pool_reach :: "'a thread_pool \<Rightarrow> bool" where
  created: "pool_reach (snd (thread_pool_new spawn n))"
| stepped: "pool_reach p \<Longrightarrow> pool_step p p' \<Longrightarrow> pool_reach p'"

section \<open>Lemmas\<close>

definition running :: "'a worker list \<Rightarrow> 'a multiset" where
  "running ws = mset (concat (map (\<lambda>w. case w of Running t \<Rightarrow> [t] | _ \<Rightarrow> []) ws))"

definition pool_inv :: "'a thread_pool \<Rightarrow> bool" where
  "pool_inv p \<longleftrightarrow> submitted p = started p @ task_queue p \<and> mset (started p) = mset (finished p) + running (threads p)"

lemma running_simps [simp]:
  "running [] = {#}"
  "running (w # ws) = (case w of Running t \<Rightarrow> {#t#} | _ \<Rightarrow> {#}) + running ws"
  "running (ws @ vs) = running ws + running vs"
  by (simp_all add: running_def split: worker.split)

lemma running_update:
  "i < length ws \<Longrightarrow> running (ws[i := w]) + (case ws ! i of Running t \<Rightarrow> {#t#} | _ \<Rightarrow> {#}) =
     running ws + (case w of Running t \<Rightarrow> {#t#} | _ \<Rightarrow> {#})"
proof (induction ws arbitrary: i)
  case (Cons v ws)
  then show ?case by (cases i) (auto simp: ac_simps)
qed simp

lemma spawn_threads_inv: "pool_inv p \<Longrightarrow> pool_inv (snd (spawn_threads spawn i n p))"
  by (induction spawn i n p rule: spawn_threads.induct) (auto simp: pool_inv_def)

lemma worker_step_inv:
  assumes "pool_inv p" and "i < length (threads p)"
  shows "pool_inv (worker_step i p)"
  using assms running_update [OF assms(2)]
  by (auto simp: pool_inv_def worker_step_def dequeue_eq split: worker.splits option.splits prod.splits)

lemma pool_step_inv: "pool_step p p' \<Longrightarrow> pool_inv p \<Longrightarrow> pool_inv p'"
  by (erule pool_stepE) (auto simp: worker_step_inv, auto simp: pool_inv_def pool_submit_def pool_destroy_def enqueue_def)

lemma pool_reach_inv: "pool_reach p \<Longrightarrow> pool_inv p"
proof (induction rule: pool_reach.induct)
  case (created spawn n)
  show ?case unfolding thread_pool_new_def by (rule spawn_threads_inv) (simp add: pool_inv_def)
next
  case (stepped p p')
  then show ?case by (blast intro: pool_step_inv)
qed

text \<open>One task taken from the head of the queue and run.\<close>

lemma worker_runs_task:
  assumes "\<not> pool_done p" "i < length (threads p)" "threads p ! i = Checking" "task_queue p = t # q"
  shows "(worker_step i ^^ 3) p = p\<lparr>task_queue := q, started := started p @ [t], finished := finished p @ [t]\<rparr>"
proof -
  have "(threads p)[i := Checking] = threads p" using assms(3) by (metis list_update_id)
  then show ?thesis using assms by (simp add: worker_step_def eval_nat_numeral)
qed

lemma worker_drains:
  assumes "\<not> pool_done p" "i < length (threads p)" "threads p ! i = Checking"
  shows "(worker_step i ^^ (3 * length (task_queue p))) p =
     p\<lparr>task_queue := [], started := started p @ task_queue p, finished := finished p @ task_queue p\<rparr>"
  using assms
proof (induction "task_queue p" arbitrary: p)
  case (Cons t q)
  let ?p = "p\<lparr>task_queue := q, started := started p @ [t], finished := finished p @ [t]\<rparr>"
  have "3 * length (task_queue p) = 3 * length q + 3" unfolding Cons.hyps(2) [symmetric] by simp
  then have "(worker_step i ^^ (3 * length (task_queue p))) p = (worker_step i ^^ (3 * length q)) ?p"
    using worker_runs_task [OF Cons.prems Cons.hyps(2) [symmetric]] by (simp add: funpow_add)
  also have "\<dots> = ?p\<lparr>task_queue := [], started := started ?p @ q, finished := finished ?p @ q\<rparr>"
    using Cons.hyps(1) [of ?p] Cons.prems by simp
  finally show ?case by (simp add: Cons.hyps(2) [symmetric])
qed simp

text \<open>How many workers may still take a task once \<open>_done\<close> is set.\<close>

definition dequeueing :: "'a worker list \<Rightarrow> nat" where
  "dequeueing ws = length (filter (\<lambda>w. case w of Dequeueing \<Rightarrow> True | _ \<Rightarrow> False) ws)"

lemma dequeueing_update:
  "i < length ws \<Longrightarrow> dequeueing (ws[i := w]) + (case ws ! i of Dequeueing \<Rightarrow> 1 | _ \<Rightarrow> 0) =
     dequeueing ws + (case w of Dequeueing \<Rightarrow> 1 | _ \<Rightarrow> 0)"
proof (induction ws arbitrary: i)
  case (Cons v ws)
  then show ?case by (cases i) (auto simp: dequeueing_def split: worker.splits)
qed simp

lemma dequeueing_checking: "i < length ws \<Longrightarrow> dequeueing (ws[i := Checking]) \<le> dequeueing ws"
  using dequeueing_update [of i ws Checking] by simp

lemma done_step:
  assumes "pool_step p p'" "pool_done p"
  shows "pool_done p' \<and> length (threads p') = length (threads p) \<and>
    length (started p') + dequeueing (threads p') \<le> length (started p) + dequeueing (threads p)"
  using assms
proof (cases rule: pool_step.cases)
  case (work i)
  then show ?thesis using assms(2) dequeueing_update [OF work(2)] dequeueing_checking [OF work(2)]
    by (auto simp: worker_step_def split: worker.splits option.splits prod.splits)
qed (auto simp: pool_submit_def pool_destroy_def)

lemma done_steps:
  assumes "pool_step\<^sup>*\<^sup>* p p'" "pool_done p"
  shows "pool_done p' \<and> length (threads p') = length (threads p) \<and>
    length (started p') + dequeueing (threads p') \<le> length (started p) + dequeueing (threads p)"
  using assms
proof (induction rule: rtranclp_induct)
  case (step q r)
  then show ?case using done_step [of q r] by fastforce
qed simp

lemma worker_exits:
  assumes "pool_done p" "i < length (threads p)"
  shows "threads ((worker_step i ^^ 3) p) ! i = Exited"
  using assms by (cases "task_queue p") (simp_all add: worker_step_def eval_nat_numeral split: worker.split)

section \<open>Properties\<close>

text \<open>
  C35: however the workers, the submitting threads and the destructor interleave, the tasks started so
  far followed by those in the queue are the tasks in the order of their submission, and every
  started task is either being run by exactly one worker or has been finished once.
\<close>

theorem pool_order:
  assumes "pool_reach p"
  shows "submitted p = started p @ task_queue p \<and> mset (started p) = mset (finished p) + running (threads p)"
  using pool_reach_inv [OF assms] by (simp add: pool_inv_def)

theorem pool_order_witness:
  "\<exists>p. pool_reach p \<and> submitted p = [1 :: nat, 2] \<and> started p = [1] \<and> task_queue p = [2] \<and> running (threads p) = {#1#}"
proof -
  let ?p = "worker_step 1 (worker_step 1 (pool_submit 2 (pool_submit (1 :: nat) (snd (thread_pool_new (\<lambda>_. True) 2)))))"
  have "pool_reach ?p"
    by (rule pool_reach.stepped [OF _ pool_step.work], rule pool_reach.stepped [OF _ pool_step.work],
        rule pool_reach.stepped [OF _ pool_step.submit], rule pool_reach.stepped [OF _ pool_step.submit], rule pool_reach.created)
      (simp_all add: thread_pool_new_def worker_step_def pool_submit_def enqueue_def eval_nat_numeral)
  moreover have "started ?p = [1]" "task_queue ?p = [2]" "finished ?p = []"
    by (simp_all add: thread_pool_new_def worker_step_def pool_submit_def enqueue_def eval_nat_numeral)
  ultimately show ?thesis using pool_order [of ?p] by (intro exI [of _ ?p]) auto
qed

text \<open>
  A worker that finds the pool not shut down works off the queue by itself: after three steps
  per queued task all of them have been started and finished, in order, and the queue is empty.
\<close>

theorem pool_drains:
  assumes "\<not> pool_done p" "i < length (threads p)" "threads p ! i = Checking"
  shows "\<exists>p'. (worker_step i ^^ (3 * length (task_queue p))) p = p' \<and> task_queue p' = [] \<and>
    finished p' = finished p @ task_queue p \<and> threads p' ! i = Checking"
  using worker_drains [OF assms] assms(3) by simp

theorem pool_drains_witness:
  "\<exists>p'. (worker_step 0 ^^ 6) (pool_submit 2 (pool_submit (1 :: nat) (snd (thread_pool_new (\<lambda>_. True) 1)))) = p' \<and>
     finished p' = [1, 2]"
  using pool_drains [of "pool_submit 2 (pool_submit (1 :: nat) (snd (thread_pool_new (\<lambda>_. True) 1)))" 0]
  by (simp add: thread_pool_new_def pool_submit_def enqueue_def)

text \<open>
  C36: once the destructor has set the flag, at most those workers that were about to dequeue take one
  more task, whatever is submitted, and each worker leaves its loop within three of its own steps,
  so that joining the threads ends. Tasks still in the queue are not run.
\<close>

theorem pool_shutdown:
  assumes "pool_done p" and "pool_step\<^sup>*\<^sup>* p p'" and "i < length (threads p)"
  shows "length (started p') \<le> length (started p) + dequeueing (threads p) \<and>
    threads ((worker_step i ^^ 3) p') ! i = Exited"
  using done_steps [OF assms(2,1)] worker_exits [of p' i] assms(3) by auto

theorem pool_shutdown_witness:
  "\<exists>p p' :: nat thread_pool. pool_step\<^sup>*\<^sup>* p p' \<and> task_queue p' \<noteq> [] \<and> length (started p') \<le> 0 \<and> threads ((worker_step 0 ^^ 3) p') ! 0 = Exited"
proof -
  let ?p = "pool_destroy (pool_submit 5 (snd (thread_pool_new (\<lambda>_. True) 1))) :: nat thread_pool"
  have s: "pool_step\<^sup>*\<^sup>* ?p (worker_step 0 ?p)"
    by (rule r_into_rtranclp, rule pool_step.work) (simp add: pool_destroy_def pool_submit_def thread_pool_new_def eval_nat_numeral)
  have "pool_done ?p" "0 < length (threads ?p)" "started ?p = []" "dequeueing (threads ?p) = 0" "task_queue (worker_step 0 ?p) = [5]"
    by (simp_all add: pool_destroy_def pool_submit_def thread_pool_new_def dequeueing_def worker_step_def enqueue_def eval_nat_numeral)
  then show ?thesis using pool_shutdown [OF _ s, of 0] s by (intro exI [of _ ?p] exI [of _ "worker_step 0 ?p"]) simp
qed

end
