(* ===== verification/Om_Files.thy ===== *)
theory Om_Files
  imports Gcm_Prelude
begin

text \<open>
  \<open>om::file\<close> and \<open>om::async\<close> of \<open>om.h\<close>: binary files of fixed-size records, and the wrapper around
  \<open>poll()\<close>. Of a file stream the model has the bytes, the position and the failure state: a read that
  finds fewer bytes than asked for stores what is there and fails the stream, a failed stream
  reads nothing, and \<open>tellg\<close> of a failed stream is \<open>-1\<close>. A record is the list of its bytes.

  Main result: the loop \<open>while (reader.next(t)) use(t)\<close> delivers exactly the records that were
  written, with and without the buffer, although the buffered reader holds one record too many.
\<close>

section \<open>Streams\<close>

record fstream =
  fs_bytes :: "u8 list"
  fs_pos :: nat
  fs_failed :: bool

text \<open>\<open>read\<close> overwrites the beginning of the record \<open>t\<close> with the bytes it got.\<close>

definition fs_read :: "nat \<Rightarrow> u8 list \<Rightarrow> fstream \<Rightarrow> u8 list \<times> fstream" where
  "fs_read n t f =
     (if fs_failed f then (t, f)
      else let got = take n (drop (fs_pos f) (fs_bytes f)) in
        (got @ drop (length got) t, f\<lparr>fs_pos := fs_pos f + length got, fs_failed := length got < n\<rparr>))"

definition fs_write :: "u8 list \<Rightarrow> fstream \<Rightarrow> fstream" where
  "fs_write t f = f\<lparr>fs_bytes := fs_bytes f @ t\<rparr>"

definition fs_eof :: "fstream \<Rightarrow> bool" where
  "fs_eof f = fs_failed f"

definition fs_reset :: "fstream \<Rightarrow> fstream" where
  "fs_reset f = f\<lparr>fs_failed := False, fs_pos := 0\<rparr>"

text \<open>Opening a file for reading; \<open>None\<close> stands for a file that cannot be opened.\<close>

definition file_stream_open :: "u8 list option \<Rightarrow> fstream result" where
  "file_stream_open content = (case content of None \<Rightarrow> Inl Uncaught_Exception
     | Some b \<Rightarrow> Inr \<lparr>fs_bytes = b, fs_pos = 0, fs_failed = False\<rparr>)"

section \<open>Reader and writer\<close>

record binary_reader =
  rd_size :: nat
  rd_use_buffer :: bool
  rd_data :: "u8 list list"
  rd_iter :: nat
  rd_stream :: fstream

text \<open>The loop of the constructor. The size of a type is never 0; the guard makes the loop total.\<close>

function read_all :: "nat \<Rightarrow> u8 list \<Rightarrow> fstream \<Rightarrow> u8 list list \<times> fstream" where
  "read_all n t f =
     (if fs_eof f \<or> n = 0 then ([], f)
      else let (t', f') = fs_read n t f; (ts, f'') = read_all n t' f' in (t' # ts, f''))"
  by pat_completeness auto

termination
proof (relation "measure (\<lambda>(n, t, f). if fs_failed f then 0 else Suc (length (fs_bytes f) - fs_pos f))")
  fix n t f x t' f'
  assume "\<not> (fs_eof f \<or> n = 0)" "x = fs_read n t f" "(t', f') = x"
  then show "((n, t', f'), n, t, f) \<in> measure (\<lambda>(n, t, f). if fs_failed f then 0 else Suc (length (fs_bytes f) - fs_pos f))"
    by (auto simp: fs_read_def fs_eof_def Let_def min_def split: if_splits)
qed simp

declare read_all.simps [simp del]

definition reader_new :: "nat \<Rightarrow> bool \<Rightarrow> u8 list \<Rightarrow> u8 list option \<Rightarrow> binary_reader result" where
  "reader_new n use_buffer indeterminate content =
     bind_r (file_stream_open content) (\<lambda>f.
     let (data, f') = (if use_buffer then read_all n indeterminate f else ([], f))
     in Inr \<lparr>rd_size = n, rd_use_buffer = use_buffer, rd_data = data, rd_iter = 0, rd_stream = f'\<rparr>)"

definition reader_done :: "binary_reader \<Rightarrow> bool" where
  "reader_done r = (if rd_use_buffer r then rd_iter r = length (rd_data r) else fs_eof (rd_stream r))"

definition reader_next :: "u8 list \<Rightarrow> binary_reader \<Rightarrow> (bool \<times> u8 list \<times> binary_reader) result" where
  "reader_next t r =
     (if rd_use_buffer r then
        (if rd_iter r < length (rd_data r) then
           let r' = r\<lparr>rd_iter := rd_iter r + 1\<rparr> in Inr (\<not> reader_done r', rd_data r ! rd_iter r, r')
         else Inl Undefined_Behaviour)
      else let (t', f') = fs_read (rd_size r) t (rd_stream r); r' = r\<lparr>rd_stream := f'\<rparr> in Inr (\<not> reader_done r', t', r'))"

definition reader_reset :: "binary_reader \<Rightarrow> binary_reader" where
  "reader_reset r = (if rd_use_buffer r then r\<lparr>rd_iter := 0\<rparr> else r\<lparr>rd_stream := fs_reset (rd_stream r)\<rparr>)"

definition writer_new :: fstream where
  "writer_new = \<lparr>fs_bytes = [], fs_pos = 0, fs_failed = False\<rparr>"

definition writer_write :: "u8 list \<Rightarrow> fstream \<Rightarrow> fstream" where
  "writer_write t w = fs_write t w"

text \<open>The use of a reader: \<open>while (reader.next(t)) use(t)\<close>, with a bound on the number of rounds.\<close>

fun reader_loop :: "nat \<Rightarrow> u8 list \<Rightarrow> binary_reader \<Rightarrow> (u8 list list \<times> binary_reader) option" where
  "reader_loop 0 t r = None"
| "reader_loop (Suc k) t r = (case reader_next t r of
      Inl e \<Rightarrow> None
    | Inr (cont, t', r') \<Rightarrow> (if cont then (case reader_loop k t' r' of None \<Rightarrow> None | Some (ts, r'') \<Rightarrow> Some (t' # ts, r''))
        else Some ([], r')))"

section \<open>Polling\<close>

datatype poll_event = Ev_In | Ev_Out

record 'c poll =
  pl_stop :: bool
  pl_callbacks :: "i32 \<Rightarrow> 'c option"
  pl_fds :: "(i32 \<times> poll_event) list"

definition poll_new :: "'c poll" where
  "poll_new = \<lparr>pl_stop = False, pl_callbacks = (\<lambda>_. None), pl_fds = []\<rparr>"

definition add_fd :: "i32 \<Rightarrow> 'c \<Rightarrow> poll_event \<Rightarrow> 'c poll \<Rightarrow> 'c poll result" where
  "add_fd f cb ev p = (if length (pl_fds p) < 8
     then Inr (p\<lparr>pl_fds := pl_fds p @ [(f, ev)], pl_callbacks := (pl_callbacks p)(f \<mapsto> cb)\<rparr>)
     else Inl Undefined_Behaviour)"

definition poll_of_fd :: "i32 \<Rightarrow> 'c \<Rightarrow> poll_event \<Rightarrow> 'c poll result" where
  "poll_of_fd f cb ev = add_fd f cb ev poll_new"

definition poll_stop :: "'c poll \<Rightarrow> 'c poll" where
  "poll_stop p = p\<lparr>pl_stop := True\<rparr>"

text \<open>
  The callbacks of one round: \<open>revents\<close> holds, per descriptor, whether it is writable and readable.
  The callback is looked up under \<open>_fds->fd\<close>, the first descriptor.
\<close>

definition poll_calls :: "'c poll \<Rightarrow> (bool \<times> bool) list \<Rightarrow> ('c option \<times> i32 \<times> poll_event) list" where
  "poll_calls p revents = concat (map (\<lambda>((f, ev), (out, inp)).
     (if out then [(pl_callbacks p (fst (hd (pl_fds p))), f, Ev_Out)] else []) @
     (if inp then [(pl_callbacks p (fst (hd (pl_fds p))), f, Ev_In)] else [])) (zip (pl_fds p) revents))"

text \<open>
  The loop over the results of \<open>::poll\<close>; each round also says whether a callback called \<open>stop\<close>. The
  loop returns when it was stopped or \<open>::poll\<close> failed.
\<close>

fun poll_rounds :: "'c poll \<Rightarrow> int \<Rightarrow> (bool \<times> bool) list \<Rightarrow> (bool \<times> int \<times> (bool \<times> bool) list) list \<Rightarrow>
    ('c option \<times> i32 \<times> poll_event) list" where
  "poll_rounds p r revents [] = (if pl_stop p \<or> r \<le> 0 then [] else poll_calls p revents)"
| "poll_rounds p r revents ((stopped, r', revents') # rounds) =
     (if pl_stop p \<or> r < 0 then []
      else (if r > 0 then poll_calls p revents else []) @
        poll_rounds (if r > 0 \<and> stopped then poll_stop p else p) r' revents' rounds)"

definition poll_block :: "'c poll \<Rightarrow> (bool \<times> int \<times> (bool \<times> bool) list) list \<Rightarrow> ('c option \<times> i32 \<times> poll_event) list" where
  "poll_block p rounds = poll_rounds p 0 [] rounds"

section \<open>Lemmas\<close>

lemma read_record:
  assumes "fs_bytes f = pre @ t @ post" "fs_pos f = length pre" "\<not> fs_failed f" "length t = n" "length t0 = n"
  shows "fs_read n t0 f = (t, f\<lparr>fs_pos := length (pre @ t)\<rparr>)"
proof -
  have "f\<lparr>fs_pos := length pre + n, fs_failed := False\<rparr> = f\<lparr>fs_pos := length pre + n\<rparr>" using assms(3) by simp
  then show ?thesis using assms by (simp add: fs_read_def)
qed

lemma read_end:
  assumes "fs_pos f = length (fs_bytes f)" "\<not> fs_failed f" "0 < n"
  shows "fs_read n t f = (t, f\<lparr>fs_failed := True\<rparr>)"
  using assms by (simp add: fs_read_def)

text \<open>From any position between records, the buffer receives the rest and then the last record again.\<close>

lemma read_all_records:
  assumes "fs_bytes f = pre @ concat rs" "fs_pos f = length pre" "\<not> fs_failed f" "0 < n" "length t = n"
    and "\<forall>r \<in> set rs. length r = n"
  shows "\<exists>f'. read_all n t f = (rs @ [last (t # rs)], f')"
  using assms
proof (induction rs arbitrary: pre t f)
  case Nil
  then have "fs_read n t f = (t, f\<lparr>fs_failed := True\<rparr>)" by (intro read_end) auto
  with Nil show ?case
    by (simp add: read_all.simps [of n t f] read_all.simps [of n t "f\<lparr>fs_failed := True\<rparr>"] fs_eof_def)
next
  case (Cons r rs)
  let ?f = "f\<lparr>fs_pos := length (pre @ r)\<rparr>"
  have "fs_read n t f = (r, ?f)" using Cons.prems by (intro read_record) auto
  moreover obtain f' where "read_all n r ?f = (rs @ [last (r # rs)], f')"
    using Cons.IH [of ?f "pre @ r" r] Cons.prems by auto
  ultimately show ?case using Cons.prems by (simp add: read_all.simps [of n t f] fs_eof_def)
qed

lemma loop_buffered:
  assumes "rd_use_buffer r" "rd_data r = pre @ rs @ [x]" "rd_iter r = length pre" "length rs < k"
  shows "\<exists>r'. reader_loop k t r = Some (rs, r')"
  using assms
proof (induction rs arbitrary: pre k t r)
  case Nil
  then show ?case by (cases k) (auto simp: reader_next_def reader_done_def)
next
  case (Cons y rs)
  then obtain k' where k: "k = Suc k'" by (cases k) auto
  let ?r = "r\<lparr>rd_iter := rd_iter r + 1\<rparr>"
  have "reader_next t r = Inr (True, y, ?r)"
    using Cons.prems by (simp add: reader_next_def reader_done_def nth_append)
  moreover obtain r' where "reader_loop k' y ?r = Some (rs, r')"
    using Cons.IH [of ?r "pre @ [y]" k' y] Cons.prems k by auto
  ultimately show ?case by (simp add: k)
qed

lemma loop_unbuffered:
  assumes "\<not> rd_use_buffer r" "fs_bytes (rd_stream r) = pre @ concat rs" "fs_pos (rd_stream r) = length pre"
    "\<not> fs_failed (rd_stream r)" "0 < rd_size r" "length t = rd_size r" "\<forall>x \<in> set rs. length x = rd_size r" "length rs < k"
  shows "\<exists>r'. reader_loop k t r = Some (rs, r')"
  using assms
proof (induction rs arbitrary: pre k t r)
  case Nil
  have "fs_read (rd_size r) t (rd_stream r) = (t, (rd_stream r)\<lparr>fs_failed := True\<rparr>)" using Nil by (intro read_end) auto
  with Nil show ?case by (cases k) (auto simp: reader_next_def reader_done_def fs_eof_def)
next
  case (Cons y rs)
  then obtain k' where k: "k = Suc k'" by (cases k) auto
  let ?f = "(rd_stream r)\<lparr>fs_pos := length (pre @ y)\<rparr>"
  have "fs_read (rd_size r) t (rd_stream r) = (y, ?f)" using Cons.prems by (intro read_record) auto
  then have "reader_next t r = Inr (True, y, r\<lparr>rd_stream := ?f\<rparr>)"
    using Cons.prems by (simp add: reader_next_def reader_done_def fs_eof_def)
  moreover have "\<exists>r'. reader_loop k' y (r\<lparr>rd_stream := ?f\<rparr>) = Some (rs, r')"
    by (rule Cons.IH [of _ "pre @ y"]) (use Cons.prems k in simp_all)
  ultimately show ?case by (auto simp: k)
qed

lemma writer_bytes: "fs_bytes (fold writer_write rs w) = fs_bytes w @ concat rs"
  by (induction rs arbitrary: w) (simp_all add: writer_write_def fs_write_def)

section \<open>Properties\<close>

text \<open>
  Records of one size that were written to a file are delivered, all of them and in order, by a
  loop that asks the reader for the next record until it says there is none, whether the reader
  uses its buffer or not; the loop ends after one round more than there are records. The buffer
  itself holds the last record twice.
\<close>

theorem reader_delivers:
  assumes "0 < n" "length t0 = n" "length t = n" "\<forall>r \<in> set rs. length r = n"
  shows "\<exists>r. reader_new n use_buffer t0 (Some (fs_bytes (fold writer_write rs writer_new))) = Inr r \<and>
     (\<exists>r'. reader_loop (Suc (length rs)) t r = Some (rs, r')) \<and>
     (use_buffer \<longrightarrow> rd_data r = rs @ [last (t0 # rs)])"
proof -
  let ?f = "\<lparr>fs_bytes = concat rs, fs_pos = 0, fs_failed = False\<rparr>"
  have b: "fs_bytes (fold writer_write rs writer_new) = concat rs" by (simp add: writer_bytes writer_new_def)
  show ?thesis
  proof (cases use_buffer)
    case True
    obtain f' where d: "read_all n t0 ?f = (rs @ [last (t0 # rs)], f')"
      using read_all_records [of ?f "[]" rs n t0] assms by auto
    let ?r = "\<lparr>rd_size = n, rd_use_buffer = True, rd_data = rs @ [last (t0 # rs)], rd_iter = 0, rd_stream = f'\<rparr>"
    have "\<exists>r'. reader_loop (Suc (length rs)) t ?r = Some (rs, r')"
      using loop_buffered [of ?r "[]" rs "last (t0 # rs)" "Suc (length rs)" t] by simp
    moreover have "reader_new n use_buffer t0 (Some (concat rs)) = Inr ?r"
      using True d by (simp add: reader_new_def file_stream_open_def)
    ultimately show ?thesis unfolding b by (intro exI [of _ ?r]) simp
  next
    case False
    let ?r = "\<lparr>rd_size = n, rd_use_buffer = False, rd_data = [], rd_iter = 0, rd_stream = ?f\<rparr>"
    have "\<exists>r'. reader_loop (Suc (length rs)) t ?r = Some (rs, r')"
      using loop_unbuffered [of ?r "[]" rs t "Suc (length rs)"] assms by simp
    moreover have "reader_new n use_buffer t0 (Some (concat rs)) = Inr ?r"
      using False by (simp add: reader_new_def file_stream_open_def)
    ultimately show ?thesis unfolding b using False by (intro exI [of _ ?r]) simp
  qed
qed

theorem reader_delivers_witness:
  "\<exists>r. reader_new 1 True [0] (Some (fs_bytes (fold writer_write [[1], [2]] writer_new))) = Inr r \<and> rd_data r = [[1], [2], [2]]"
  using reader_delivers [of 1 "[0]" "[0]" "[[1], [2]]" True] by auto

text \<open>
  Polling calls, for every event on any descriptor, the callback that was registered for the
  first descriptor; the callbacks of the others are never called unless they are the same.
\<close>

theorem poll_first_callback:
  assumes "(cb, f, ev) \<in> set (poll_block p rounds)"
  shows "cb = pl_callbacks p (fst (hd (pl_fds p))) \<and> f \<in> fst ` set (pl_fds p)"
proof -
  have calls: "(cb, f, ev) \<in> set (poll_calls p rv) \<Longrightarrow> cb = pl_callbacks p (fst (hd (pl_fds p))) \<and> f \<in> fst ` set (pl_fds p)" for rv
    by (force simp: poll_calls_def dest: set_zip_leftD split: if_splits)
  have stop: "poll_rounds (poll_stop p) r rv rounds = []" for r rv rounds
    by (cases rounds) (auto simp: poll_stop_def)
  have "(cb, f, ev) \<in> set (poll_rounds p r rv rounds) \<Longrightarrow> cb = pl_callbacks p (fst (hd (pl_fds p))) \<and> f \<in> fst ` set (pl_fds p)" for r rv
    by (induction rounds arbitrary: r rv) (auto simp: stop dest!: calls split: if_splits)
  then show ?thesis using assms by (simp add: poll_block_def)
qed

theorem poll_first_callback_witness:
  "\<exists>p. bind_r (add_fd 4 ''a'' Ev_In poll_new) (add_fd 5 ''b'' Ev_In) = Inr p \<and>
     (Some ''a'', 5, Ev_In) \<in> set (poll_block p [(False, 1, [(False, False), (False, True)])])"
proof -
  let ?p = "\<lparr>pl_stop = False, pl_callbacks = (\<lambda>_. None)(4 \<mapsto> ''a'', 5 \<mapsto> ''b''), pl_fds = [(4, Ev_In), (5, Ev_In)]\<rparr>"
  let ?calls = "poll_block ?p [(False, 1, [(False, False), (False, True)])]"
  obtain cb where cb: "(cb, 5, Ev_In) \<in> set ?calls" by (simp add: poll_block_def poll_calls_def)
  have "cb = Some ''a''" using poll_first_callback [OF cb] by simp
  with cb have "(Some ''a'', 5, Ev_In) \<in> set ?calls" by simp
  moreover have "bind_r (add_fd 4 ''a'' Ev_In poll_new) (add_fd 5 ''b'' Ev_In) = Inr ?p"
    by (simp add: add_fd_def poll_new_def)
  ultimately show ?thesis by blast
qed

end
