(* ===== verification/Om_System.thy ===== *)
theory Om_System
  imports Om_Net Binary64
begin

text \<open>
  The parts of \<open>om.h\<close> around the operating system: \<open>om::net::socket\<close>, the size of a file, the clock
  functions of \<open>om::etc\<close>, \<open>tokenize\<close> and \<open>file_by_line\<close>. The results of the system calls and the readings of the
  clock are arguments. An address handed to the kernel is the pair of \<open>sin_addr\<close> and \<open>sin_port\<close> as stored
  in memory, in network byte order if the code converted them.

  Main results: a socket is closed at most once unless its descriptor is 0, which its destructor never
  closes; \<open>bind\<close> reverses an address that is in network order already; the clock functions that
  return an integer wrap after \<open>2^32\<close> units; \<open>file_by_line\<close> delivers the lines of a file; \<open>tokenize\<close> loses
  nothing but delimiters, but it can deliver an empty first token, and without a delimiter it cuts at plus signs.
\<close>

section \<open>Sockets\<close>

record socket =
  sock_fd :: i32
  sock_closed :: "i32 list"

text \<open>\<open>sock_closed\<close> lists the descriptors passed to \<open>close\<close>; it is not part of the object.\<close>

definition socket_new :: "i32 \<Rightarrow> socket result" where
  "socket_new rv = (if rv = - 1 then Inl Uncaught_Exception else Inr \<lparr>sock_fd = rv, sock_closed = []\<rparr>)"

definition socket_bind_addr :: "(string \<Rightarrow> u32) \<Rightarrow> string \<Rightarrow> u16 \<Rightarrow> u32 \<times> u16" where
  "socket_bind_addr inet_addr ip port = (htonl (inet_addr ip), reverse_byte_order16 port)"

definition socket_bind :: "(u32 \<times> u16 \<Rightarrow> i32) \<Rightarrow> (string \<Rightarrow> u32) \<Rightarrow> string \<Rightarrow> u16 \<Rightarrow> unit result" where
  "socket_bind bind_rv inet_addr ip port =
     (if bind_rv (socket_bind_addr inet_addr ip port) \<noteq> 0 then Inl Uncaught_Exception else Inr ())"

definition socket_dest_addr :: "(string \<Rightarrow> u32) \<Rightarrow> string \<Rightarrow> u16 \<Rightarrow> u32 \<times> u16" where
  "socket_dest_addr inet_addr ip port = (inet_addr ip, reverse_byte_order16 port)"

definition send_to ::
  "(u32 \<times> u16 \<Rightarrow> u8 list \<Rightarrow> i64) \<Rightarrow> (string \<Rightarrow> u32) \<Rightarrow> string \<Rightarrow> u16 \<Rightarrow> u8 list \<Rightarrow> u32 result" where
  "send_to sendto inet_addr ip_dst tp_dst buf =
     (let len = sendto (socket_dest_addr inet_addr ip_dst tp_dst) buf
      in if len = - 1 then Inl Uncaught_Exception else Inr (ucast len))"

definition receive :: "i64 \<Rightarrow> u32 result" where
  "receive len = (if len = - 1 then Inl Uncaught_Exception else Inr (ucast len))"

definition is_open :: "socket \<Rightarrow> bool" where
  "is_open s \<longleftrightarrow> sock_fd s \<noteq> - 1"

definition socket_close :: "socket \<Rightarrow> socket" where
  "socket_close s = s\<lparr>sock_closed := sock_closed s @ [sock_fd s], sock_fd := - 1\<rparr>"

definition socket_destroy :: "socket \<Rightarrow> socket" where
  "socket_destroy s = (if 0 < sint (sock_fd s) then socket_close s else s)"

text \<open>The descriptor is closed exactly once, by \<open>close\<close> or by the destructor, if it is positive.\<close>

lemma socket_closed_once:
  assumes "socket_new rv = Inr s" "0 < sint rv"
  shows "sock_closed (socket_destroy s) = [rv]" "sock_closed (socket_destroy (socket_close s)) = [rv]"
    "\<not> is_open (socket_destroy s)"
  using assms by (auto simp: socket_new_def socket_destroy_def socket_close_def is_open_def split: if_splits)

lemma socket_zero_leaks: "socket_new 0 = Inr s \<Longrightarrow> is_open s \<and> sock_closed (socket_destroy s) = []"
  by (auto simp: socket_new_def socket_destroy_def is_open_def)

text \<open>
  \<open>inet_addr\<close> gives network order, which \<open>bind\<close> reverses: it binds to the address that \<open>send_to\<close> would
  reach under the reversed text.
\<close>

lemma bind_reverses: "fst (socket_bind_addr inet ip p) = htonl (fst (socket_dest_addr inet ip p))"
  by (simp add: socket_bind_addr_def socket_dest_addr_def)

lemma bind_right_iff: "fst (socket_bind_addr inet ip p) = inet ip \<longleftrightarrow> htonl (inet ip) = inet ip"
  by (simp add: socket_bind_addr_def)

section \<open>File sizes\<close>

definition file_size :: "i64 option \<Rightarrow> u64 result" where
  "file_size st_size = (case st_size of None \<Rightarrow> Inl Uncaught_Exception | Some n \<Rightarrow> Inr n)"

section \<open>The clock\<close>

text \<open>
  Time points are nanoseconds since the epoch. \<open>duration_cast\<close> truncates towards zero; the count is then
  converted to \<open>unsigned\<close>, 32 bits, and widened again.
\<close>

definition duration_cast :: "int \<Rightarrow> int \<Rightarrow> int" where
  "duration_cast unit d = (if 0 \<le> d then d div unit else - ((- d) div unit))"

definition now_since_epoch :: "int \<Rightarrow> int \<Rightarrow> u64" where
  "now_since_epoch unit now = of_int (duration_cast unit now)"

definition since :: "int \<Rightarrow> int \<Rightarrow> int \<Rightarrow> u64" where
  "since unit now start = ucast (of_int (duration_cast unit (now - start)) :: u32)"

definition microseconds_since :: "int \<Rightarrow> int \<Rightarrow> u64" where
  "microseconds_since now start = ucast (of_int (duration_cast 1000 (now - start)) :: u32)"

text \<open>Exact up to \<open>2^32\<close> units (71 minutes in microseconds), and wrapping beyond.\<close>

lemma uint_microseconds_since:
  "start \<le> now \<Longrightarrow> uint (microseconds_since now start) = (now - start) div 1000 mod 2 ^ 32"
  by (simp add: microseconds_since_def duration_cast_def unsigned_ucast_eq uint_word_of_int take_bit_eq_mod)

lemma microseconds_exact:
  "start \<le> now \<Longrightarrow> (now - start) div 1000 < 2 ^ 32 \<Longrightarrow> uint (microseconds_since now start) = (now - start) div 1000"
  by (simp add: uint_microseconds_since pos_imp_zdiv_nonneg_iff)

text \<open>The same span as a \<open>double\<close>; \<open>runtime\<close> measures it around a call.\<close>

definition seconds_since :: "int \<Rightarrow> int \<Rightarrow> double" where
  "seconds_since now start = d_div (d_of_i64 (of_int (duration_cast 1000 (now - start)))) (to_double 1000000)"

definition runtime :: "('s \<Rightarrow> 's) \<Rightarrow> int \<Rightarrow> int \<Rightarrow> 's \<Rightarrow> double \<times> 's" where
  "runtime f start end s = (d_div (d_of_i64 (of_int (duration_cast 1000 (end - start)))) (to_double 1000000), f s)"

section \<open>Tokens\<close>

text \<open>
  \<open>tokenize\<close> builds the regular expression from a backslash, the delimiter and a plus sign. For a delimiter
  of one punctuation character it matches the runs of that character. With an empty delimiter the
  backslash escapes the plus sign, which then stands for itself. Other delimiters have a meaning of
  their own in a regular expression and are not modelled (\<open>None\<close>). The iterator delivers what precedes
  each match, and the rest unless it is empty; without any match it delivers the whole text.
\<close>

definition is_punct :: "char \<Rightarrow> bool" where
  "is_punct c \<longleftrightarrow> (let n = of_char c :: nat in
     33 \<le> n \<and> n \<le> 47 \<or> 58 \<le> n \<and> n \<le> 64 \<or> 91 \<le> n \<and> n \<le> 96 \<and> n \<noteq> 95 \<or> 123 \<le> n \<and> n \<le> 126)"

text \<open>\<open>runs\<close>: a match takes a whole run of the character; otherwise it takes one.\<close>

function tokens :: "bool \<Rightarrow> char \<Rightarrow> string \<Rightarrow> string list" where
  "tokens runs c s = (let p = takeWhile (\<lambda>x. x \<noteq> c) s; r = dropWhile (\<lambda>x. x \<noteq> c) s in
     if r = [] then (if p = [] then [] else [p])
     else p # tokens runs c (if runs then dropWhile (\<lambda>x. x = c) r else tl r))"
  by pat_completeness auto

lemma length_dropWhile_less: "dropWhile P s \<noteq> [] \<Longrightarrow> Q (hd (dropWhile P s)) \<Longrightarrow> length (dropWhile Q (dropWhile P s)) < length s"
  using length_dropWhile_le [of P s] length_dropWhile_le [of Q "tl (dropWhile P s)"] by (cases "dropWhile P s") auto

termination tokens
proof (relation "measure (\<lambda>(runs, c, s). length s)")
  fix runs :: bool and c and s p r :: string
  assume r: "r = dropWhile (\<lambda>x. x \<noteq> c) s" "r \<noteq> []"
  have "hd r = c" using r hd_dropWhile [of "\<lambda>x. x \<noteq> c" s] by simp
  then show "((runs, c, if runs then dropWhile (\<lambda>x. x = c) r else tl r), runs, c, s) \<in> measure (\<lambda>(runs, c, s). length s)"
    using r length_dropWhile_less [of "\<lambda>x. x \<noteq> c" s "\<lambda>x. x = c"] length_dropWhile_le [of "\<lambda>x. x \<noteq> c" s]
    by (cases r) auto
qed simp

declare tokens.simps [simp del]

definition tokenize :: "string \<Rightarrow> string \<Rightarrow> string list option" where
  "tokenize str del = (case del of
     [] \<Rightarrow> Some (if CHR ''+'' \<in> set str then tokens False CHR ''+'' str else [str])
   | [c] \<Rightarrow> if is_punct c then Some (if c \<in> set str then tokens True c str else [str]) else None
   | _ \<Rightarrow> None)"

lemma tokens_content:
  "concat (tokens runs c s) = filter (\<lambda>x. x \<noteq> c) s \<and> (\<forall>t \<in> set (tokens runs c s). c \<notin> set t)"
proof (induction runs c s rule: tokens.induct)
  case (1 runs c s)
  define p r where "p = takeWhile (\<lambda>x. x \<noteq> c) s" and "r = dropWhile (\<lambda>x. x \<noteq> c) s"
  let ?rest = "if runs then dropWhile (\<lambda>x. x = c) r else tl r"
  have s: "s = p @ r" by (simp add: p_def r_def)
  have p: "filter (\<lambda>x. x \<noteq> c) p = p" "c \<notin> set p" by (auto simp: p_def dest: set_takeWhileD intro: filter_True)
  have drop: "filter (\<lambda>x. x \<noteq> c) (dropWhile (\<lambda>x. x = c) xs) = filter (\<lambda>x. x \<noteq> c) xs" for xs by (induction xs) auto
  show ?case
  proof (cases "r = []")
    case True
    then show ?thesis using p by (simp add: tokens.simps [of runs c s] Let_def flip: p_def r_def) (simp add: s)
  next
    case False
    then have "hd r = c" using hd_dropWhile [of "\<lambda>x. x \<noteq> c" s] by (simp add: r_def)
    with False have "filter (\<lambda>x. x \<noteq> c) ?rest = filter (\<lambda>x. x \<noteq> c) r" by (cases r) (simp_all add: drop)
    then show ?thesis using 1 [OF p_def r_def False] p False
      by (simp add: tokens.simps [of runs c s] Let_def flip: p_def r_def) (simp add: s)
  qed
qed

text \<open>Tokens contain no delimiter, and nothing else is lost.\<close>

lemma tokenize_content:
  "tokenize str [c] = Some ts \<Longrightarrow> concat ts = filter (\<lambda>x. x \<noteq> c) str \<and> (\<forall>t \<in> set ts. c \<notin> set t)"
  using tokens_content [of True c str] by (auto simp: tokenize_def intro!: filter_True [symmetric] split: if_splits)

text \<open>A text that starts with the delimiter has an empty first token, one that ends with it no empty last one.\<close>

lemma tokenize_edges:
  "tokenize '':a::b:'' '':'' = Some [[], ''a'', ''b'']"
  "tokenize [] '':'' = Some [[]]"
  "tokenize ''a++b'' [] = Some [''a'', [], ''b'']"
  by (simp_all add: tokenize_def is_punct_def tokens.simps)

section \<open>Lines\<close>

text \<open>\<open>std::getline\<close> until it fails: a last line without a newline counts, an empty rest does not.\<close>

fun getlines :: "string \<Rightarrow> string \<Rightarrow> string list" where
  "getlines cur [] = (if cur = [] then [] else [cur])"
| "getlines cur (c # cs) = (if c = CHR 0x0A then cur # getlines [] cs else getlines (cur @ [c]) cs)"

definition file_by_line :: "(string \<Rightarrow> 's \<Rightarrow> 's) \<Rightarrow> string option \<Rightarrow> 's \<Rightarrow> 's" where
  "file_by_line handler file s = (case file of None \<Rightarrow> s | Some text \<Rightarrow> fold handler (getlines [] text) s)"

lemma getlines_line: "CHR 0x0A \<notin> set l \<Longrightarrow> getlines cur (l @ CHR 0x0A # cs) = (cur @ l) # getlines [] cs"
  by (induction l arbitrary: cur) auto

lemma getlines_unlines:
  "\<forall>l \<in> set ls. CHR 0x0A \<notin> set l \<Longrightarrow> getlines [] (concat (map (\<lambda>l. l @ [CHR 0x0A]) ls)) = ls"
  by (induction ls) (auto simp: getlines_line)

lemma file_by_line_lines:
  "\<forall>l \<in> set ls. CHR 0x0A \<notin> set l \<Longrightarrow> file_by_line h (Some (concat (map (\<lambda>l. l @ [CHR 0x0A]) ls))) s = fold h ls s"
  by (simp add: file_by_line_def getlines_unlines)

end
