(* ===== verification/Json_Pods.thy ===== *)
theory Json_Pods
  imports Json_Facade Om_Net
begin

text \<open>
  The rest of \<open>jsonSDK/src/JSONFacade.cpp\<close>, which an earlier deployer used: the other members of the
  configuration, the definition of a Kubernetes pod, and what is read from the answers of the
  Kubernetes API. \<open>'v json_make\<close> holds what is used of cpprest to build values; assigning to a member
  of a null value makes it an object (or an array), as the library documents. The static map
  \<open>_specs\<close> is a state of its own.
\<close>

record 'v json_make =
  mk_string :: "string \<Rightarrow> 'v"
  mk_number :: "i32 \<Rightarrow> 'v"
  mk_set :: "'v \<Rightarrow> string \<Rightarrow> 'v \<Rightarrow> 'v"
  mk_set_at :: "'v \<Rightarrow> nat \<Rightarrow> 'v \<Rightarrow> 'v"
  js_members :: "'v \<Rightarrow> (string \<times> 'v) list result"

type_synonym specs = "(string \<times> u64) list"

section \<open>Members of the configuration\<close>

record 'v json_pods = "'v json_config" +
  app_images :: "string list"
  pod_names :: "string list"

definition parseAppImages :: "'v json_lib \<Rightarrow> 'v json_pods \<Rightarrow> 'v json_pods result" where
  "parseAppImages js c = (if js_is_null js (jc_val c) then Inr c
     else bind_r (js_at js (jc_val c) ''images'') (\<lambda>v. bind_r (js_as_array js v) (\<lambda>vs.
          bind_r (push_strings js vs (app_images c)) (\<lambda>l. Inr (c\<lparr>app_images := l\<rparr>)))))"

definition parsePodNames :: "'v json_lib \<Rightarrow> 'v json_pods \<Rightarrow> 'v json_pods result" where
  "parsePodNames js c = (if js_is_null js (jc_val c) then Inr c
     else bind_r (js_at js (jc_val c) ''pod-names'') (\<lambda>v. bind_r (js_as_array js v) (\<lambda>vs.
          bind_r (push_strings js vs (pod_names c)) (\<lambda>l. Inr (c\<lparr>pod_names := l\<rparr>)))))"

text \<open>The integer is converted to \<open>uint64_t\<close> when it is stored; a key that is there already stays.\<close>

fun insert_specs :: "'v json_lib \<Rightarrow> (string \<times> 'v) list \<Rightarrow> specs \<Rightarrow> specs result" where
  "insert_specs js [] sp = Inr sp"
| "insert_specs js ((k, v) # ms) sp =
     bind_r (js_as_integer js v) (\<lambda>n. insert_specs js ms (um_insert id k (scast n) sp))"

definition parseSpecs :: "'v json_lib \<Rightarrow> 'v json_make \<Rightarrow> 'v json_pods \<Rightarrow> specs \<Rightarrow> specs result" where
  "parseSpecs js mk c sp = bind_r (js_at js (jc_val c) ''specs'') (\<lambda>v. bind_r (js_members mk v) (\<lambda>ms. insert_specs js ms sp))"

definition get_mem :: "specs \<Rightarrow> u64" where
  "get_mem sp = (case um_find id sp ''mem'' of Some n \<Rightarrow> n | None \<Rightarrow> 0)"

definition get_cpu :: "specs \<Rightarrow> u64" where
  "get_cpu sp = (case um_find id sp ''cpu'' of Some n \<Rightarrow> n | None \<Rightarrow> 0)"

definition get_ports :: "specs \<Rightarrow> u64" where
  "get_ports sp = (case um_find id sp ''ports'' of Some n \<Rightarrow> n | None \<Rightarrow> 0)"

definition get_net :: "specs \<Rightarrow> u64" where
  "get_net sp = (case um_find id sp ''net'' of Some n \<Rightarrow> n | None \<Rightarrow> 0)"

section \<open>Pod definitions\<close>

text \<open>The iterators of \<open>find\<close> are dereferenced without a test.\<close>

definition spec_of :: "specs \<Rightarrow> string \<Rightarrow> u64 result" where
  "spec_of sp k = (case um_find id sp k of Some n \<Rightarrow> Inr n | None \<Rightarrow> Inl Undefined_Behaviour)"

definition set_pod_limits :: "'v json_lib \<Rightarrow> 'v json_make \<Rightarrow> specs \<Rightarrow> 'v \<Rightarrow> 'v result" where
  "set_pod_limits js mk sp cont =
     bind_r (spec_of sp ''cpu'') (\<lambda>cpu. bind_r (spec_of sp ''mem'') (\<lambda>m.
     let cpu_lim = show_dec (unat cpu) @ ''m''; mem = show_dec (unat m) @ ''Mi'';
         requests = mk_set mk (js_null js) ''memory'' (mk_string mk mem);
         limits = mk_set mk (mk_set mk (js_null js) ''cpu'' (mk_string mk cpu_lim)) ''memory'' (mk_string mk mem);
         resources = mk_set mk (mk_set mk (js_null js) ''requests'' requests) ''limits'' limits
     in Inr (mk_set mk cont ''resources'' resources)))"

definition createJSONPodDef :: "'v json_lib \<Rightarrow> 'v json_make \<Rightarrow> specs \<Rightarrow> string \<Rightarrow> string \<Rightarrow> string \<Rightarrow> string result" where
  "createJSONPodDef js mk sp a_name a_image pod_name =
     (let null = js_null js; set_to = mk_set mk; str = mk_string mk;
          pod = set_to (set_to null ''kind'' (str ''Pod'')) ''apiVersion'' (str ''v1'');
          metadata = set_to (set_to null ''namespace'' (str ''default'')) ''name'' (str pod_name);
          metadata_label = set_to null ''name'' (str pod_name);
          metadata = set_to metadata ''labels'' metadata_label;
          pod = set_to pod ''metadata'' metadata;
          cont1 = set_to (set_to null ''name'' (str pod_name)) ''image'' (str a_image)
      in bind_r (set_pod_limits js mk sp cont1) (\<lambda>cont1.
         let cont1_port = set_to null ''containerPort'' (mk_number mk 80);
             ports = mk_set_at mk null 0 cont1_port;
             cont1 = set_to cont1 ''ports'' ports;
             containers = mk_set_at mk null 0 cont1;
             cont = set_to null ''containers'' containers;
             pod = set_to pod ''spec'' cont
         in Inr (js_serialize js pod)))"

section \<open>Requests and answers\<close>

text \<open>
  \<open>postJSONRequest\<close> extracts the body whatever the status is and swallows every exception of the
  request; \<open>getStringResponseFromURL\<close> leaves the result untouched on an \<open>http_exception\<close>.
\<close>

definition postJSONRequest :: "'v json_lib \<Rightarrow> ('v \<Rightarrow> 'v http_outcome) \<Rightarrow> string \<Rightarrow> string result" where
  "postJSONRequest js post jsonRequest =
     bind_r (js_parse js jsonRequest) (\<lambda>v.
     let json_return = (case post v of Http_Response status body \<Rightarrow> (case body of Some r \<Rightarrow> r | None \<Rightarrow> js_null js)
        | _ \<Rightarrow> js_null js)
     in Inr (js_serialize js json_return))"

definition getStringResponseFromURL :: "(string \<Rightarrow> string http_outcome) \<Rightarrow> string \<Rightarrow> string \<Rightarrow> string result" where
  "getStringResponseFromURL http url old =
     (case http url of
        Http_Response status body \<Rightarrow> Inr (case body of Some r \<Rightarrow> r | None \<Rightarrow> old)
      | Http_Exception \<Rightarrow> Inr old
      | Other_Exception \<Rightarrow> Inl Uncaught_Exception)"

definition getNodesFromResponse :: "'v json_lib \<Rightarrow> string \<Rightarrow> string list \<Rightarrow> string list result" where
  "getNodesFromResponse js resp nodes =
     bind_r (js_parse js resp) (\<lambda>v. bind_r (js_at js v ''spec'') (\<lambda>a. bind_r (js_at js a ''nodeName'') (\<lambda>b.
     bind_r (js_as_string js b) (\<lambda>n. Inr (nodes @ [n])))))"

fun last_internal_ip :: "'v json_lib \<Rightarrow> 'v list \<Rightarrow> string \<Rightarrow> string result" where
  "last_internal_ip js [] ip = Inr ip"
| "last_internal_ip js (v # vs) ip =
     bind_r (js_at js v ''type'') (\<lambda>t. bind_r (js_as_string js t) (\<lambda>ty.
     if ty = ''InternalIP'' then bind_r (js_at js v ''address'') (\<lambda>a. bind_r (js_as_string js a) (last_internal_ip js vs))
     else last_internal_ip js vs ip))"

definition getNodeIPFromResponse :: "'v json_lib \<Rightarrow> string \<Rightarrow> string \<Rightarrow> string result" where
  "getNodeIPFromResponse js resp ip =
     bind_r (js_parse js resp) (\<lambda>v. bind_r (js_at js v ''status'') (\<lambda>a. bind_r (js_at js a ''addresses'') (\<lambda>b.
     bind_r (js_as_array js b) (\<lambda>vs. last_internal_ip js vs ip))))"

definition getPodStatusFromResponse :: "'v json_lib \<Rightarrow> string \<Rightarrow> string result" where
  "getPodStatusFromResponse js resp =
     bind_r (js_parse js resp) (\<lambda>v. bind_r (js_at js v ''status'') (\<lambda>a. bind_r (js_at js a ''phase'') (js_as_string js)))"

section \<open>Lemmas\<close>

text \<open>The specs that were read first stay, whatever is parsed later.\<close>

lemma insert_specs_keeps:
  "insert_specs js ms sp = Inr sp' \<Longrightarrow> um_find id sp k = Some n \<Longrightarrow> um_find id sp' k = Some n"
proof (induction js ms sp rule: insert_specs.induct)
  case (2 js k' v ms sp)
  then obtain m where m: "js_as_integer js v = Inr m" "insert_specs js ms (um_insert id k' (scast m) sp) = Inr sp'"
    by (auto simp: bind_r_eq_Inr)
  have "um_find id (um_insert id k' (scast m) sp) k = Some n"
  proof (cases "k' = k")
    case True
    show ?thesis unfolding True by (rule um.insert_keeps_first) (rule "2.prems"(2))
  next
    case False
    then have "id k' \<noteq> id k" by (simp only: id_apply not_False_eq_True)
    then show ?thesis using "2.prems"(2) by (simp only: um.insert_other not_False_eq_True)
  qed
  with 2 m show ?case by blast
qed simp

lemma parse_specs_keeps:
  "parseSpecs js mk c sp = Inr sp' \<Longrightarrow> um_find id sp k = Some n \<Longrightarrow> um_find id sp' k = Some n"
  by (auto simp only: parseSpecs_def bind_r_eq_Inr intro: insert_specs_keeps)

text \<open>
  A pod can be defined exactly when the specs name its CPU and its memory; otherwise the code
  follows the end iterator. The container's CPU limit is given in millicores, its memory limit
  and request in MiB.
\<close>

theorem pod_definition_needs_specs:
  "createJSONPodDef js mk sp a i p =
     (case (um_find id sp ''cpu'', um_find id sp ''mem'') of
        (Some cpu, Some m) \<Rightarrow>
          (let null = js_null js; obj = foldl (\<lambda>v e. mk_set mk v (fst e) (snd e)) null; str = mk_string mk;
               mem = str (show_dec (unat m) @ ''Mi'');
               resources = obj [(''requests'', obj [(''memory'', mem)]),
                 (''limits'', obj [(''cpu'', str (show_dec (unat cpu) @ ''m'')), (''memory'', mem)])];
               cont = obj [(''name'', str p), (''image'', str i), (''resources'', resources),
                 (''ports'', mk_set_at mk null 0 (obj [(''containerPort'', mk_number mk 80)]))]
           in Inr (js_serialize js (obj [(''kind'', str ''Pod''), (''apiVersion'', str ''v1''),
                (''metadata'', obj [(''namespace'', str ''default''), (''name'', str p), (''labels'', obj [(''name'', str p)])]),
                (''spec'', obj [(''containers'', mk_set_at mk null 0 cont)])])))
      | _ \<Rightarrow> Inl Undefined_Behaviour)"
proof (cases "um_find id sp ''cpu''")
  case None
  then show ?thesis by (simp only: createJSONPodDef_def set_pod_limits_def spec_of_def Let_def option.case prod.case bind_r_simps)
next
  case (Some cpu)
  show ?thesis
  proof (cases "um_find id sp ''mem''")
    case None
    with Some show ?thesis by (simp only: createJSONPodDef_def set_pod_limits_def spec_of_def Let_def option.case prod.case bind_r_simps)
  next
    case (Some m)
    with \<open>um_find id sp ''cpu'' = Some cpu\<close> show ?thesis
      by (simp only: createJSONPodDef_def set_pod_limits_def spec_of_def Let_def option.case prod.case bind_r_simps foldl.simps fst_conv snd_conv)
  qed
qed

end
