(* ===== verification/Deploy_Facade.thy ===== *)
theory Deploy_Facade
  imports Json_Pods
begin

text \<open>
  \<open>legacy/deploySDK\<close>: the deployer of an earlier version, which talks to a Kubernetes proxy on the local
  host. It is built on the JSON facade; \<open>http\<close> and \<open>post\<close> are the outcomes of its requests.

  Main result: looking up the addresses of nodes returns one address per node that has an internal
  one, but a node without one is given the address of the node before it (\<open>node_without_address\<close>).
\<close>

section \<open>Kubernetes\<close>

definition deployPod :: "'v json_lib \<Rightarrow> (string \<Rightarrow> 'v \<Rightarrow> 'v http_outcome) \<Rightarrow> string \<Rightarrow> i32 result" where
  "deployPod js post jsonString =
     bind_r (postJSONRequest js (post ''http://localhost:8000/api/v1/namespaces/default/pods'') jsonString) (\<lambda>res. Inr 0)"

definition getNodesWithPod ::
  "'v json_lib \<Rightarrow> (string \<Rightarrow> 'v http_outcome) \<Rightarrow> string \<Rightarrow> string list \<Rightarrow> string list result" where
  "getNodesWithPod js http podName resultNodes =
     bind_r (getJSONRequest js http (''http://localhost:8000/api/v1/namespaces/default/pods/'' @ podName))
       (\<lambda>res. getNodesFromResponse js res resultNodes)"

definition node_url :: "string \<Rightarrow> string" where
  "node_url node = ''http://localhost:8000/api/v1/nodes/'' @ node"

text \<open>\<open>tmp_ip\<close> is declared outside the loop and keeps its value from one node to the next.\<close>

fun node_ips_loop ::
  "'v json_lib \<Rightarrow> (string \<Rightarrow> 'v http_outcome) \<Rightarrow> string list \<Rightarrow> string \<Rightarrow> string list \<Rightarrow> string list result" where
  "node_ips_loop js http [] tmp_ip nodeIPs = Inr nodeIPs"
| "node_ips_loop js http (node # nodes) tmp_ip nodeIPs =
     bind_r (getJSONRequest js http (node_url node)) (\<lambda>jsonResp.
     bind_r (getNodeIPFromResponse js jsonResp tmp_ip) (\<lambda>tmp_ip.
     node_ips_loop js http nodes tmp_ip (if tmp_ip = [] then nodeIPs else nodeIPs @ [tmp_ip])))"

definition getNodeIPs ::
  "'v json_lib \<Rightarrow> (string \<Rightarrow> 'v http_outcome) \<Rightarrow> string list \<Rightarrow> string list \<Rightarrow> string list result" where
  "getNodeIPs js http nodeNames nodeIPs = node_ips_loop js http nodeNames [] nodeIPs"

definition getPodStatus :: "'v json_lib \<Rightarrow> (string \<Rightarrow> 'v http_outcome) \<Rightarrow> string \<Rightarrow> string result" where
  "getPodStatus js http podName =
     bind_r (getJSONRequest js http (''http://localhost:8000/api/v1/namespaces/default/pods/'' @ podName))
       (getPodStatusFromResponse js)"

section \<open>The facade\<close>

definition deployContainers :: "'v json_lib \<Rightarrow> (string \<Rightarrow> 'v \<Rightarrow> 'v http_outcome) \<Rightarrow> string \<Rightarrow> i32 result" where
  "deployContainers js post jsonString = deployPod js post jsonString"

definition getNodesWithContainer ::
  "'v json_lib \<Rightarrow> (string \<Rightarrow> 'v http_outcome) \<Rightarrow> string \<Rightarrow> string list \<Rightarrow> string list result" where
  "getNodesWithContainer js http containerName resultNodes = getNodesWithPod js http containerName resultNodes"

definition deploy_getNodeIPs ::
  "'v json_lib \<Rightarrow> (string \<Rightarrow> 'v http_outcome) \<Rightarrow> string list \<Rightarrow> string list \<Rightarrow> string list result" where
  "deploy_getNodeIPs js http nodeNames nodeIPs = getNodeIPs js http nodeNames nodeIPs"

definition getContainerStatus :: "'v json_lib \<Rightarrow> (string \<Rightarrow> 'v http_outcome) \<Rightarrow> string \<Rightarrow> string result" where
  "getContainerStatus js http containerName = getPodStatus js http containerName"

section \<open>Node addresses\<close>

text \<open>
  What a node's document says: \<open>Some ip\<close> the internal address listed last, \<open>None\<close> no internal address.
\<close>

definition node_answers :: "'v json_lib \<Rightarrow> (string \<Rightarrow> 'v http_outcome) \<Rightarrow> string \<Rightarrow> string option \<Rightarrow> bool" where
  "node_answers js http node a \<longleftrightarrow> (\<exists>resp. getJSONRequest js http (node_url node) = Inr resp \<and>
     (\<forall>old. getNodeIPFromResponse js resp old = Inr (case a of Some ip \<Rightarrow> ip | None \<Rightarrow> old)))"

text \<open>The addresses that are returned: for a node without one, the address before it is repeated.\<close>

fun carried :: "string \<Rightarrow> string option list \<Rightarrow> string list" where
  "carried tmp [] = []"
| "carried tmp (a # as) = (let ip = (case a of Some ip \<Rightarrow> ip | None \<Rightarrow> tmp) in (if ip = [] then [] else [ip]) @ carried ip as)"

lemma node_ips_loop_carried:
  "list_all2 (node_answers js http) nodes as \<Longrightarrow> node_ips_loop js http nodes tmp ips = Inr (ips @ carried tmp as)"
proof (induction arbitrary: tmp ips rule: list_all2_induct)
  case (Cons node nodes a as)
  then show ?case by (auto simp: node_answers_def Let_def)
qed simp

lemma carried_all: "list_all (\<lambda>ip. ip \<noteq> []) ips \<Longrightarrow> carried tmp (map Some ips) = ips"
  by (induction ips arbitrary: tmp) auto

lemma node_addresses:
  assumes "list_all2 (node_answers js http) nodes (map Some ips)" "list_all (\<lambda>ip. ip \<noteq> []) ips"
  shows "deploy_getNodeIPs js http nodes [] = Inr ips"
  using node_ips_loop_carried [OF assms(1), of "[]" "[]"] carried_all [OF assms(2), of "[]"]
  by (simp add: deploy_getNodeIPs_def getNodeIPs_def)

lemma node_without_address:
  assumes "node_answers js http a (Some ip)" "node_answers js http b None" "ip \<noteq> []"
  shows "deploy_getNodeIPs js http [a, b] [] = Inr [ip, ip]"
  using node_ips_loop_carried [of js http "[a, b]" "[Some ip, None]" "[]" "[]"] assms
  by (simp add: deploy_getNodeIPs_def getNodeIPs_def)

end
