(* ===== verification/Proto_Framing.thy ===== *)
theory Proto_Framing
  imports Gcm_Prelude
begin

text \<open>
  \<open>protoBufSDK/src/ProtoBufFacade.cpp\<close>: sending and receiving protocol buffer messages over a socket.
  The protocol buffer library is a parameter: the bytes of a message, the encoding of a length as a
  varint, and parsing, which gives the message whatever it found. An array stream of \<open>n\<close> bytes takes
  \<open>n\<close> bytes and no more; one of no or a negative size delivers nothing.

  Main result: a receiver parses the length prefix of the sender as part of the message
  (\<open>receiver_parses_length\<close>), and what follows the message in the sender's buffer too.
\<close>

record 'm proto_lib =
  pb_serialize :: "'m \<Rightarrow> u8 list"
  pb_varint32 :: "u32 \<Rightarrow> u8 list"
  pb_parse :: "u8 list \<Rightarrow> 'm"

definition BUFFSIZE :: nat where
  "BUFFSIZE = 1024"

text \<open>
  \<open>indet\<close> is the content of the buffer that \<open>new char[tx_size]\<close> leaves uninitialised. The result is the
  value returned and what was written to the socket.
\<close>

definition sendMessage :: "'m proto_lib \<Rightarrow> (nat \<Rightarrow> u8) \<Rightarrow> (u8 list \<Rightarrow> bool) \<Rightarrow> 'm \<Rightarrow> i32 \<times> u8 list list" where
  "sendMessage pb indet write_ok msg =
     (let body = pb_serialize pb msg; tx_size = length body + 4;
          out = take tx_size (pb_varint32 pb (of_nat (length body)) @ body);
          tx_buf = out @ map indet [length out..<tx_size]
      in if write_ok tx_buf then (of_nat tx_size, [tx_buf]) else (- 1, []))"

text \<open>\<open>None\<close> is a read that failed or met the end of the stream: it is logged, and parsing goes ahead.\<close>

definition recvMessage :: "'m proto_lib \<Rightarrow> u8 list option \<Rightarrow> 'm" where
  "recvMessage pb rx = (case rx of None \<Rightarrow> pb_parse pb [] | Some bytes \<Rightarrow> pb_parse pb (take BUFFSIZE bytes))"

lemma sent_size:
  "sendMessage pb indet (\<lambda>_. True) msg = (n, bufs) \<Longrightarrow> length bufs = 1 \<and> length (hd bufs) = length (pb_serialize pb msg) + 4"
  by (auto simp: sendMessage_def Let_def)

lemma receiver_parses_length:
  assumes "length (pb_varint32 pb (of_nat (length (pb_serialize pb msg)))) \<le> 4" "length (pb_serialize pb msg) + 4 \<le> BUFFSIZE"
  shows "\<exists>buf pad. sendMessage pb indet (\<lambda>_. True) msg = (of_nat (length (pb_serialize pb msg) + 4), [buf]) \<and>
    recvMessage pb (Some buf) = pb_parse pb (pb_varint32 pb (of_nat (length (pb_serialize pb msg))) @ pb_serialize pb msg @ pad) \<and>
    length (pb_varint32 pb (of_nat (length (pb_serialize pb msg)))) + length pad = 4"
  using assms by (auto simp: sendMessage_def recvMessage_def Let_def)

end
