(* ===== verification/Spec2Isabelle.thy ===== *)
theory Spec2Isabelle
  imports Core_Properties Handler_Races Mem_Races Agent_Calls Om_Concurrency Om_Files Om_System Deploy_Facade Proto_Framing
begin

text \<open>
  A verification development for the global control manager of elastic containers: a process that
  shares the CPU time and the memory of an application among its containers, on several nodes.

  \<^bold>\<open>The program.\<close> \<open>main\<close> reads a configuration file (\<open>jsonSDK\<close>), creates one \<open>Manager\<close> per tenant
  (\<open>GlobalControlManager\<close>) and a gRPC client for the agent on each node (\<open>Agents\<close>). A \<open>Manager\<close> is a
  \<open>Server\<close>, which reads 56-byte messages from the containers' kernel modules over TCP and UDP, and an
  \<open>ECAPI\<close>, which works on the \<open>ElasticContainer\<close> of the application: the registry of \<open>SubContainer\<close> objects,
  the link from a container to its agent, and the pools of CPU time and memory (\<open>stats/global\<close>).
  A container connects, reports its use of CPU time every period and asks for memory. The manager
  answers a report by changing the container's quota through the agent, and a memory request from the
  pool, after reclaiming memory from the other containers if the pool is empty. Two threads look for
  idle containers and reclaim memory periodically. A deployer reports limits, new pods and removed
  pods over gRPC (\<open>DeployServerGRPC\<close>); a new container's memory limit is read from cAdvisor
  (\<open>cAdvisorSDK\<close>) once its docker id is known.

  \<^bold>\<open>How the sources are represented.\<close> A class is a record, its methods are functions from the state and
  the arguments to the result and the new state. Integers keep their width (words; signed values are
  read with \<open>sint\<close>). A \<open>double\<close> is an IEEE binary64 number (\<open>Binary64\<close>). A function that may exit, throw,
  run into undefined behaviour or never return has a \<open>result\<close> type with one constructor for each of
  these. \<open>std::unordered_map\<close> is an association list in iteration order, on which no theorem depends.
  Containers live on an explicit heap, because several pointers to one object are held at a time.
  Loops are structurally recursive, or have a termination proof (\<open>Agent_Calls.resize_loop\<close>,
  \<open>Binary64\<close>); loops of the program that never end are modelled by one round each, and the order of the
  rounds of different threads is left open by a step relation. There is no fuel.
  What is not under \<open>src/\<close> is an argument: gRPC and the agents (\<open>agent_env\<close>), the JSON and HTTP library
  (\<open>json_lib\<close>, \<open>json_make\<close>), the protocol buffer library (\<open>proto_lib\<close>), \<open>inet_addr\<close>, the results of socket
  calls and the readings of the clock.

  \<^bold>\<open>Theories and sources.\<close>
  \<^item> \<open>Gcm_Prelude\<close>: word types, results, maps; the interfaces \<open>first_wins_store\<close> (maps),
    \<open>signed_clamp_counter\<close> and \<open>unsigned_clamp_counter\<close> (pool counters), interpreted by the maps here
    and by every counter in \<open>Global_Stats\<close>.
  \<^item> \<open>Binary64\<close>: rounding, conversions and arithmetic of \<open>double\<close>.
  \<^item> \<open>Window\<close>, \<open>Local_Stats\<close>, \<open>Global_Stats\<close>: \<open>stats/\<close>. The mean a window maintains is the mean of the
    last samples, up to a flush; its ring holds exactly the last samples; counters neither lose nor invent runtime.
  \<^item> \<open>Om_Net\<close>, \<open>Msg_Types\<close>, \<open>Om_Packet\<close>, \<open>Om_Text\<close>, \<open>Om_Files\<close>, \<open>Om_Concurrency\<close>, \<open>Om_System\<close>: \<open>om.h\<close> and \<open>types/\<close>.
    Codecs, headers and messages are read back as they were written; a header field is an
    interpretation of \<open>header_field\<close>; files of records, the locked queue (an interpretation of \<open>fifo\<close>)
    and the thread pool.
  \<^item> \<open>Sub_Container\<close>, \<open>Elastic_Container\<close>: containers and their registry, with its invariant \<open>ec_wf\<close>. The
    registry is an interpretation of \<open>fifo_registry\<close>: one queue per id, first in, first out.
  \<^item> \<open>Json_Facade\<close>, \<open>Json_Pods\<close>, \<open>Deploy_Facade\<close>, \<open>Proto_Framing\<close>: \<open>jsonSDK\<close>, \<open>cAdvisorSDK\<close>, \<open>legacy\<close>, \<open>protoBufSDK\<close>.
  \<^item> \<open>Agent_Clients\<close>, \<open>Agent_Calls\<close>: \<open>Agents/\<close>. The first has the requests as the controller sees them, the
    second the life of the call objects when callers, gRPC and completion threads interleave.
  \<^item> \<open>Ecapi\<close>, \<open>Manager_Cpu\<close>, \<open>Manager_Mem\<close>: \<open>ECAPI.cpp\<close>, \<open>Manager.cpp\<close>. \<open>Manager_Cpu\<close> also has the abstract view
    of a change of quota, a transfer between a container, the pool and the overrun, which every
    branch of the report handler is shown to carry out.
  \<^item> \<open>Deploy_Service\<close>, \<open>Gcm_Server\<close>, \<open>Server_Accept\<close>, \<open>Control_Manager\<close>: the deployer's service, \<open>Server.cpp\<close>,
    \<open>GlobalControlManager.cpp\<close>, \<open>main.cpp\<close> and the construction of managers.
  \<^item> \<open>Controller_Steps\<close>: the controller as a transition system whose steps are the calls above, in any
    order, and what each of them keeps.
  \<^item> \<open>Pool_Threads\<close>, \<open>Handler_Races\<close>, \<open>Mem_Races\<close>: handlers in threads of their own. The bookkeeping of a handler is
    a list of single accesses to the pools, the registry changes while a handler holds a pointer into
    it, and a reclaim is split into its reading and its writing half.
  \<^item> \<open>Samples\<close>: the concrete states at which properties are exercised.

  \<^bold>\<open>What is shown.\<close>
  \<^item> \<open>Cpu_Properties\<close>: a report keeps the CPU books balanced but for one kind of top-up, sends at most
    one request, and stays within bounds; the quota of a new container; a deviating quota is adopted at the fourth report.
  \<^item> \<open>Mem_Properties\<close>: what a memory request gets, with and without reclaiming; what reclaiming leaves a
    container, and how it wraps around when the usage is above the limit.
  \<^item> \<open>System_Properties\<close>: in every reachable state the registry is well-formed, links lead to the
    container's own node, and the memory side is free of undefined behaviour, where cAdvisor never
    answers with an empty object and the reclaims of a request do not overlap.
  \<^item> \<open>Lifecycle_Properties\<close>: connecting, docker ids, removing, and when these calls do not return.
  \<^item> \<open>Core_Properties\<close>: the registry refines a map of queues; the idle check, and how it wraps the pool;
    set-up of managers and agent connections; a connect request from its bytes to those of the answer.
  \<^item> \<open>Pool_Threads\<close>: while the pools cover what is taken, every interleaving of the handlers' accesses ends
    where running them one after the other ends; what goes wrong when two handlers decide on the same
    reading, and when time is given back while a container connects.
  \<^item> \<open>Handler_Races\<close>: the pointer that a report handler has looked up stays good while fewer containers
    of the id are removed than were registered; when a removal frees it.
  \<^item> \<open>Mem_Races\<close>: reclaims in a row report no more than the container loses; at the same time they
    report it twice.
  \<^item> \<open>Net_Properties\<close> and the component theories: round trips, the order in which the thread pool runs
    tasks and when it stops, the address a connection is handled under, and the call objects.
  The statements of the error properties are about what the code does where it goes wrong: each names
  the condition, so that a change that repairs the code has to change the property.

  \<^bold>\<open>Assumptions that the model makes.\<close> In the handlers of \<open>Manager_Cpu\<close> and \<open>Manager_Mem\<close> a handler runs without
  interleaving with other handlers. The interleavings that are modelled are those of calls
  (\<open>Controller_Steps\<close>), of the accesses to the CPU pools (\<open>Pool_Threads\<close>), of a handler with changes of the
  registry (\<open>Handler_Races\<close>), of two reclaims (\<open>Mem_Races\<close>), of the accept loop with its threads
  (\<open>Server_Accept\<close>), of the thread pool and of the agent calls. In the handlers an agent call is
  read before its completion thread frees it; \<open>Agent_Calls\<close> says when this fails. The concurrent
  reclaims of one \<open>handle_reclaim_memory\<close>, each of a container of its own, run one after the other; where this
  matters for undefined behaviour, the property is restricted to a single reclaim. A registry operation is one step, although in the code only the removal takes the lock of the
  registry. Log level TRACE is off.

  \<^bold>\<open>Not modelled.\<close> The destructors of managers and of the global control manager and
  \<open>join_grpc_threads\<close>, which only run after \<open>run\<close> has returned, and it does not; \<open>serveGrpcDeployExport\<close>,
  which only starts the gRPC server; stream operators and logging; \<open>format_timestamp\<close>
  (\<open>strftime\<close>) of \<open>om.h\<close>, and \<open>tokenize\<close> for delimiters with a meaning of their own in a regular
  expression; the manual test clients under \<open>tests/\<close>. Mutexes carry no data: each operation under one is
  a single step.
\<close>

end
